(* ===== verification/Database.thy ===== *)
theory Database
  imports Lodger_Prelude
begin

text \<open>
  \<^verbatim>\<open>lodger/src/db/mod.rs\<close> with the schema of \<^verbatim>\<open>db/migrations/0001_initial.sql\<close>: accounts, sessions
  and the audit log.

  A table is a list of rows, and every SQL statement of the source is an operation on it with the
  constraints of the schema: unique names without regard to ASCII case, session tokens as a
  primary key, and the foreign key from sessions to accounts with its cascade. Times are
  milliseconds, which compare like the ISO 8601 text of the source. SQLite may refuse any
  statement, so each call takes an environment that says for its n-th statement whether it fails
  and at which time it runs; a transaction that does not commit leaves the tables as they were.
  The connection mutex runs one call at a time, so a run is a sequence of calls.
\<close>

section \<open>Tables\<close>

type_synonym time = int
type_synonym digest = "8 word list"

record account_row =
  acc_id :: int
  acc_username :: ustr
  acc_password_hash :: ustr
  acc_created_at :: time
  acc_password_changed_at :: time

record session_row =
  row_token_sha256 :: digest
  row_account_id :: int
  row_csrf_token :: ustr
  row_created_at :: time
  row_last_seen_at :: time
  row_expires_at :: time
  row_client_ip :: "ustr option"
  row_user_agent :: "ustr option"

record AuditRow =
  ar_event :: string
  ar_account_name :: "ustr option"
  ar_client_ip :: "ustr option"
  ar_target_kind :: "string option"
  ar_target_name :: "ustr option"
  ar_result :: string
  ar_detail_json :: "(string \<times> ustr) list option"

record db =
  accounts :: "account_row list"
  sessions :: "session_row list"
  audit_log :: "(time \<times> AuditRow) list"

section \<open>Statements and transactions\<close>

datatype SqlError = Fault ustr | UniqueViolation | PrimaryKeyViolation | ForeignKeyViolation

record sql_env =
  fails :: "nat \<Rightarrow> ustr option"
  clock :: "nat \<Rightarrow> time"

type_synonym ('a, 's) sql = "'s \<Rightarrow> ('a, SqlError) result \<times> 's"

definition stmt :: "sql_env \<Rightarrow> nat \<Rightarrow> (time \<Rightarrow> ('a, 's) sql) \<Rightarrow> ('a, 's) sql" where
  "stmt E n f d = (case fails E n of Some e \<Rightarrow> (Err (Fault e), d) | None \<Rightarrow> f (clock E n) d)"

definition sql_return :: "'a \<Rightarrow> ('a, 's) sql" where
  "sql_return a d = (Ok a, d)"

definition sql_bind :: "('a, 's) sql \<Rightarrow> ('a \<Rightarrow> ('b, 's) sql) \<Rightarrow> ('b, 's) sql" where
  "sql_bind m f d = (case m d of (Ok a, d') \<Rightarrow> f a d' | (Err e, d') \<Rightarrow> (Err e, d'))"

definition query :: "('s \<Rightarrow> 'a) \<Rightarrow> ('a, 's) sql" where
  "query f d = (Ok (f d), d)"

text \<open>How a transaction ends: with \<^verbatim>\<open>commit()\<close>, or dropped without it.\<close>

datatype 'a tx_end = Commit 'a | Dropped 'a

definition transaction :: "sql_env \<Rightarrow> nat \<Rightarrow> nat \<Rightarrow> ('a tx_end, 's) sql \<Rightarrow> ('a, 's) sql" where
  "transaction E first final body d =
     (case stmt E first (\<lambda>_. sql_return ()) d of
        (Err e, _) \<Rightarrow> (Err e, d)
      | (Ok _, _) \<Rightarrow>
          (case body d of
             (Err e, _) \<Rightarrow> (Err e, d)
           | (Ok (Dropped a), _) \<Rightarrow> (Ok a, d)
           | (Ok (Commit a), d') \<Rightarrow>
               (case stmt E final (\<lambda>_. sql_return ()) d of
                  (Err e, _) \<Rightarrow> (Err e, d)
                | (Ok _, _) \<Rightarrow> (Ok a, d'))))"

section \<open>Rows\<close>

definition MINUTE :: time where
  "MINUTE = 60 * 1000"

definition IDLE_MINUTES :: time where
  "IDLE_MINUTES = 60"

definition ABSOLUTE_HOURS :: time where
  "ABSOLUTE_HOURS = 24"

text \<open>The next row id of a table with an \<^verbatim>\<open>INTEGER PRIMARY KEY\<close>: one more than the largest.\<close>

definition new_rowid :: "account_row list \<Rightarrow> int" where
  "new_rowid rows = (if rows = [] then 1 else Max (set (map acc_id rows)) + 1)"

definition insert_account :: "ustr \<Rightarrow> ustr \<Rightarrow> time \<Rightarrow> (int, db) sql" where
  "insert_account username password_hash t d =
     (if list_ex (\<lambda>a. eq_ignore_ascii_case (acc_username a) username) (accounts d)
      then (Err UniqueViolation, d)
      else
        let aid = new_rowid (accounts d) in
        (Ok aid,
         d\<lparr>accounts := accounts d @
             [\<lparr>acc_id = aid, acc_username = username, acc_password_hash = password_hash,
               acc_created_at = t, acc_password_changed_at = t\<rparr>]\<rparr>))"

text \<open>\<^verbatim>\<open>DELETE FROM sessions WHERE ...\<close>: the number of rows that went.\<close>

definition delete_sessions :: "(session_row \<Rightarrow> bool) \<Rightarrow> (nat, db) sql" where
  "delete_sessions P d =
     (Ok (length (filter P (sessions d))), d\<lparr>sessions := filter (\<lambda>s. \<not> P s) (sessions d)\<rparr>)"

text \<open>\<^verbatim>\<open>DELETE FROM accounts WHERE id = ?1\<close>, with the cascade to the account's sessions.\<close>

definition delete_account_row :: "int \<Rightarrow> (nat, db) sql" where
  "delete_account_row aid d =
     (Ok (length (filter (\<lambda>a. acc_id a = aid) (accounts d))),
      d\<lparr>accounts := filter (\<lambda>a. acc_id a \<noteq> aid) (accounts d),
        sessions := filter (\<lambda>s. row_account_id s \<noteq> aid) (sessions d)\<rparr>)"

definition update_password :: "int \<Rightarrow> ustr \<Rightarrow> time \<Rightarrow> (unit, db) sql" where
  "update_password aid password_hash t d =
     (Ok (), d\<lparr>accounts := map (\<lambda>a. if acc_id a = aid
        then a\<lparr>acc_password_hash := password_hash, acc_password_changed_at := t\<rparr> else a) (accounts d)\<rparr>)"

definition row_ended :: "time \<Rightarrow> session_row \<Rightarrow> bool" where
  "row_ended t s \<longleftrightarrow> row_expires_at s \<le> t \<or> row_last_seen_at s \<le> t - IDLE_MINUTES * MINUTE"

definition row_live :: "time \<Rightarrow> session_row \<Rightarrow> bool" where
  "row_live t s \<longleftrightarrow> row_expires_at s > t \<and> row_last_seen_at s > t - IDLE_MINUTES * MINUTE"

section \<open>Operations\<close>

record Account =
  account_id :: int
  account_username :: ustr
  account_password_hash :: ustr

record AccountInfo =
  info_id :: int
  info_username :: ustr
  info_created_at :: time
  info_password_changed_at :: time

datatype Deleted = Yes ustr | NoSuchAccount | LastAccount

record NewSession =
  new_token_sha256 :: digest
  new_account_id :: int
  new_csrf_token :: ustr
  new_client_ip :: ustr
  new_user_agent :: "ustr option"

record Session =
  session_account_id :: int
  session_username :: ustr
  session_csrf_token :: ustr

definition account_of :: "account_row \<Rightarrow> Account" where
  "account_of a = \<lparr>account_id = acc_id a, account_username = acc_username a,
     account_password_hash = acc_password_hash a\<rparr>"

definition account_count :: "sql_env \<Rightarrow> (int, db) sql" where
  "account_count E = stmt E 0 (\<lambda>_. query (\<lambda>d. int (length (accounts d))))"

definition create_first_account :: "sql_env \<Rightarrow> ustr \<Rightarrow> ustr \<Rightarrow> (bool, db) sql" where
  "create_first_account E username password_hash =
     transaction E 0 3
       (sql_bind (stmt E 1 (\<lambda>_. query (\<lambda>d. length (accounts d)))) (\<lambda>count.
          if count > 0 then sql_return (Dropped False)
          else sql_bind (stmt E 2 (insert_account username password_hash)) (\<lambda>_.
            sql_return (Commit True))))"

definition list_accounts :: "sql_env \<Rightarrow> (AccountInfo list, db) sql" where
  "list_accounts E = stmt E 0 (\<lambda>_. query (\<lambda>d.
     map (\<lambda>a. \<lparr>info_id = acc_id a, info_username = acc_username a, info_created_at = acc_created_at a,
               info_password_changed_at = acc_password_changed_at a\<rparr>)
       (sort_key (\<lambda>a. to_ascii_lowercase (acc_username a)) (accounts d))))"

definition create_account :: "sql_env \<Rightarrow> ustr \<Rightarrow> ustr \<Rightarrow> (int option, db) sql" where
  "create_account E username password_hash d =
     (case stmt E 0 (insert_account username password_hash) d of
        (Ok aid, d') \<Rightarrow> (Ok (Some aid), d')
      | (Err UniqueViolation, d') \<Rightarrow> (Ok None, d')
      | (Err e, d') \<Rightarrow> (Err e, d'))"

definition delete_account :: "sql_env \<Rightarrow> int \<Rightarrow> (Deleted, db) sql" where
  "delete_account E aid =
     transaction E 0 4
       (sql_bind (stmt E 1 (\<lambda>_. query (\<lambda>d. length (accounts d)))) (\<lambda>count.
        sql_bind (stmt E 2 (\<lambda>_. query (\<lambda>d.
          map_option acc_username (find (\<lambda>a. acc_id a = aid) (accounts d))))) (\<lambda>name.
          case name of
            None \<Rightarrow> sql_return (Commit NoSuchAccount)
          | Some n \<Rightarrow>
              if count \<le> 1 then sql_return (Commit LastAccount)
              else sql_bind (stmt E 3 (\<lambda>_. delete_account_row aid)) (\<lambda>_. sql_return (Commit (Yes n))))))"

definition account_by_id :: "sql_env \<Rightarrow> int \<Rightarrow> (Account option, db) sql" where
  "account_by_id E aid = stmt E 0 (\<lambda>_. query (\<lambda>d.
     map_option account_of (find (\<lambda>a. acc_id a = aid) (accounts d))))"

definition find_account :: "sql_env \<Rightarrow> ustr \<Rightarrow> (Account option, db) sql" where
  "find_account E username = stmt E 0 (\<lambda>_. query (\<lambda>d.
     map_option account_of (find (\<lambda>a. eq_ignore_ascii_case (acc_username a) username) (accounts d))))"

definition insert_session :: "NewSession \<Rightarrow> time \<Rightarrow> (unit, db) sql" where
  "insert_session new t d =
     (if new_token_sha256 new \<in> row_token_sha256 ` set (sessions d) then (Err PrimaryKeyViolation, d)
      else if new_account_id new \<notin> acc_id ` set (accounts d) then (Err ForeignKeyViolation, d)
      else
        (Ok (),
         d\<lparr>sessions := sessions d @
             [\<lparr>row_token_sha256 = new_token_sha256 new, row_account_id = new_account_id new,
               row_csrf_token = new_csrf_token new, row_created_at = t, row_last_seen_at = t,
               row_expires_at = t + ABSOLUTE_HOURS * 60 * MINUTE,
               row_client_ip = Some (new_client_ip new), row_user_agent = new_user_agent new\<rparr>]\<rparr>))"

definition change_password :: "sql_env \<Rightarrow> int \<Rightarrow> ustr \<Rightarrow> digest \<Rightarrow> NewSession \<Rightarrow> (nat, db) sql" where
  "change_password E aid password_hash current new =
     transaction E 0 5
       (sql_bind (stmt E 1 (update_password aid password_hash)) (\<lambda>_.
        sql_bind (stmt E 2 (\<lambda>_. delete_sessions
          (\<lambda>s. row_account_id s = aid \<and> row_token_sha256 s \<noteq> current))) (\<lambda>ended.
        sql_bind (stmt E 3 (\<lambda>_. delete_sessions (\<lambda>s. row_token_sha256 s = current))) (\<lambda>_.
        sql_bind (stmt E 4 (insert_session new)) (\<lambda>_.
          sql_return (Commit ended))))))"

definition reset_password :: "sql_env \<Rightarrow> ustr \<Rightarrow> ustr \<Rightarrow> (nat option, db) sql" where
  "reset_password E username password_hash =
     transaction E 0 4
       (sql_bind (stmt E 1 (\<lambda>_. query (\<lambda>d.
          map_option acc_id (find (\<lambda>a. eq_ignore_ascii_case (acc_username a) username) (accounts d))))) (\<lambda>aid.
          case aid of
            None \<Rightarrow> sql_return (Dropped None)
          | Some aid \<Rightarrow>
              sql_bind (stmt E 2 (update_password aid password_hash)) (\<lambda>_.
              sql_bind (stmt E 3 (\<lambda>_. delete_sessions (\<lambda>s. row_account_id s = aid))) (\<lambda>ended.
                sql_return (Commit (Some ended))))))"

definition audit :: "sql_env \<Rightarrow> AuditRow \<Rightarrow> (unit, db) sql" where
  "audit E row = stmt E 0 (\<lambda>t d. (Ok (), d\<lparr>audit_log := audit_log d @ [(t, row)]\<rparr>))"

definition delete_old_audit_rows :: "sql_env \<Rightarrow> nat \<Rightarrow> (nat, db) sql" where
  "delete_old_audit_rows E days = stmt E 0 (\<lambda>t d.
     let cutoff = t - int days * 24 * 60 * MINUTE in
     (Ok (length (filter (\<lambda>(ts, _). ts < cutoff) (audit_log d))),
      d\<lparr>audit_log := filter (\<lambda>(ts, _). \<not> ts < cutoff) (audit_log d)\<rparr>))"

definition create_session :: "sql_env \<Rightarrow> NewSession \<Rightarrow> (unit, db) sql" where
  "create_session E new =
     sql_bind (stmt E 0 (\<lambda>t. delete_sessions (row_ended t))) (\<lambda>_.
     sql_bind (stmt E 1 (insert_session new)) (\<lambda>_. sql_return ()))"

definition live_session :: "digest \<Rightarrow> time \<Rightarrow> db \<Rightarrow> Session option" where
  "live_session token t d =
     Option.bind (find (\<lambda>s. row_token_sha256 s = token \<and> row_live t s) (sessions d)) (\<lambda>s.
     map_option (\<lambda>a. \<lparr>session_account_id = row_account_id s, session_username = acc_username a,
                      session_csrf_token = row_csrf_token s\<rparr>)
       (find (\<lambda>a. acc_id a = row_account_id s) (accounts d)))"

definition touch_session :: "digest \<Rightarrow> time \<Rightarrow> (unit, db) sql" where
  "touch_session token t d =
     (Ok (), d\<lparr>sessions := map (\<lambda>s. if row_token_sha256 s = token \<and> row_last_seen_at s < t - MINUTE
        then s\<lparr>row_last_seen_at := t\<rparr> else s) (sessions d)\<rparr>)"

definition session :: "sql_env \<Rightarrow> digest \<Rightarrow> (Session option, db) sql" where
  "session E token =
     sql_bind (stmt E 0 (\<lambda>t. query (live_session token t))) (\<lambda>found.
       case found of
         None \<Rightarrow> sql_return None
       | Some s \<Rightarrow> sql_bind (stmt E 1 (touch_session token)) (\<lambda>_. sql_return (Some s)))"

definition session_alive :: "sql_env \<Rightarrow> digest \<Rightarrow> (bool, db) sql" where
  "session_alive E token = stmt E 0 (\<lambda>t. query (\<lambda>d.
     list_ex (\<lambda>s. row_token_sha256 s = token \<and> row_live t s) (sessions d)))"

definition delete_session :: "sql_env \<Rightarrow> digest \<Rightarrow> (unit, db) sql" where
  "delete_session E token =
     sql_bind (stmt E 0 (\<lambda>_. delete_sessions (\<lambda>s. row_token_sha256 s = token))) (\<lambda>_. sql_return ())"

definition ping :: "sql_env \<Rightarrow> (unit, db) sql" where
  "ping E = stmt E 0 (\<lambda>_. sql_return ())"

subsection \<open>Migrations\<close>

text \<open>
  \<^verbatim>\<open>migrate\<close> runs the migrations after the first \<open>user_version\<close> ones. The schema is the list of
  migrations that have run.
\<close>

record schema =
  user_version :: int
  applied :: "string list"

datatype MigrateError = Sql SqlError | BadVersion int | NewerLodger nat nat | Migration nat SqlError

definition MIGRATIONS :: "string list" where
  "MIGRATIONS = [''0001_initial.sql'']"

fun run_migrations :: "sql_env \<Rightarrow> nat \<Rightarrow> string list \<Rightarrow> schema \<Rightarrow> (schema, MigrateError) result" where
  "run_migrations E n [] s = Ok s"
| "run_migrations E n (m # ms) s =
     (case fails E (n + 2) of
        Some e \<Rightarrow> Err (Migration (n + 1) (Fault e))
      | None \<Rightarrow> run_migrations E (n + 1) ms (s\<lparr>applied := applied s @ [m]\<rparr>))"

definition migrate :: "sql_env \<Rightarrow> string list \<Rightarrow> schema \<Rightarrow> (unit, MigrateError) result \<times> schema" where
  "migrate E migrations s =
     (case (fails E 0, fails E 1) of
        (Some e, _) \<Rightarrow> (Err (Sql (Fault e)), s)
      | (None, Some e) \<Rightarrow> (Err (Sql (Fault e)), s)
      | (None, None) \<Rightarrow>
          if user_version s < 0 then (Err (BadVersion (user_version s)), s)
          else let version = nat (user_version s) in
          if version > length migrations then (Err (NewerLodger version (length migrations)), s)
          else
            (case run_migrations E version (drop version migrations) s of
               Err e \<Rightarrow> (Err e, s)
             | Ok s' \<Rightarrow>
                 (case (fails E (length migrations + 2), fails E (length migrations + 3)) of
                    (Some e, _) \<Rightarrow> (Err (Sql (Fault e)), s)
                  | (None, Some e) \<Rightarrow> (Err (Sql (Fault e)), s)
                  | (None, None) \<Rightarrow> (Ok (), s'\<lparr>user_version := int (length migrations)\<rparr>))))"

section \<open>Successful and failed calls\<close>

named_theorems sql_ok \<open>what a successful call did\<close>

lemma stmt_Ok [sql_ok]: "stmt E n f d = (Ok a, d') \<longleftrightarrow> fails E n = None \<and> f (clock E n) d = (Ok a, d')"
  by (auto simp: stmt_def split: option.splits)

lemma sql_bind_Ok [sql_ok]:
  "sql_bind m f d = (Ok b, d') \<longleftrightarrow> (\<exists>a d1. m d = (Ok a, d1) \<and> f a d1 = (Ok b, d'))"
  by (auto simp: sql_bind_def split: prod.splits result.splits)

lemma sql_return_Ok [sql_ok]: "sql_return a d = (r, d') \<longleftrightarrow> r = Ok a \<and> d' = d"
  by (auto simp: sql_return_def)

lemma query_Ok [sql_ok]: "query f d = (r, d') \<longleftrightarrow> r = Ok (f d) \<and> d' = d"
  by (auto simp: query_def)

lemma transaction_Ok [sql_ok]:
  "transaction E i j body d = (Ok a, d') \<longleftrightarrow> fails E i = None \<and>
     (body d = (Ok (Commit a), d') \<and> fails E j = None \<or> (\<exists>d1. body d = (Ok (Dropped a), d1) \<and> d' = d))"
  by (auto simp: transaction_def stmt_def sql_return_def
      split: option.splits prod.splits result.splits tx_end.splits)

text \<open>A transaction that returns an error left the tables alone.\<close>

lemma transaction_Err: "transaction E i j body d = (Err e, d') \<Longrightarrow> d' = d"
  by (auto simp: transaction_def stmt_def sql_return_def
      split: option.splits prod.splits result.splits tx_end.splits)

section \<open>Programs that keep an invariant\<close>

named_theorems keeps \<open>statements and programs keep an invariant\<close>

definition keeping :: "('s \<Rightarrow> bool) \<Rightarrow> ('a, 's) sql \<Rightarrow> bool" where
  "keeping P m \<longleftrightarrow> (\<forall>d. P d \<longrightarrow> P (snd (m d)))"

lemma keepingD: "keeping P m \<Longrightarrow> P d \<Longrightarrow> P (snd (m d))"
  by (simp add: keeping_def)

lemma keeping_stmt [keeps]: "(\<And>t. keeping P (f t)) \<Longrightarrow> keeping P (stmt E n f)"
  by (auto simp: keeping_def stmt_def split: option.splits)

lemma keeping_return [keeps]: "keeping P (sql_return a)"
  by (simp add: keeping_def sql_return_def)

lemma keeping_query [keeps]: "keeping P (query f)"
  by (simp add: keeping_def query_def)

lemma keeping_bind [keeps]:
  "keeping P m \<Longrightarrow> (\<And>a. keeping P (f a)) \<Longrightarrow> keeping P (sql_bind m f)"
  by (force simp: keeping_def sql_bind_def split: prod.splits result.splits)

lemma keeping_transaction [keeps]:
  assumes "keeping P body"
  shows "keeping P (transaction E i j body)"
  using assms
  by (force simp: keeping_def transaction_def stmt_def sql_return_def
      split: option.splits prod.splits result.splits tx_end.splits)

lemma keeping_if [keeps]: "keeping P a \<Longrightarrow> keeping P b \<Longrightarrow> keeping P (if c then a else b)"
  by simp

lemma keeping_option [keeps]:
  "keeping P a \<Longrightarrow> (\<And>x. keeping P (f x)) \<Longrightarrow> keeping P (case v of None \<Rightarrow> a | Some x \<Rightarrow> f x)"
  by (cases v) auto

section \<open>The schema's constraints\<close>

definition db_wf :: "db \<Rightarrow> bool" where
  "db_wf d \<longleftrightarrow>
     distinct (map acc_id (accounts d)) \<and>
     distinct (map (\<lambda>a. to_ascii_lowercase (acc_username a)) (accounts d)) \<and>
     distinct (map row_token_sha256 (sessions d)) \<and>
     (\<forall>s\<in>set (sessions d). row_account_id s \<in> acc_id ` set (accounts d))"

lemma eq_lowercase: "eq_ignore_ascii_case s t \<longleftrightarrow> to_ascii_lowercase s = to_ascii_lowercase t"
  by (simp add: eq_ignore_ascii_case_def to_ascii_lowercase_def)

lemma new_rowid_fresh: "new_rowid rows \<notin> acc_id ` set rows"
proof
  assume "new_rowid rows \<in> acc_id ` set rows"
  then have "new_rowid rows \<le> Max (acc_id ` set rows)" and "rows \<noteq> []"
    by auto
  then show False by (simp add: new_rowid_def)
qed

lemma keeping_insert_account [keeps]: "keeping db_wf (insert_account u h t)"
  using new_rowid_fresh
  by (auto simp: keeping_def insert_account_def db_wf_def Let_def list_ex_iff eq_lowercase)

lemma keeping_delete_sessions [keeps]: "keeping db_wf (delete_sessions P)"
  by (auto simp: keeping_def delete_sessions_def db_wf_def distinct_map_filter)

lemma keeping_delete_account_row [keeps]: "keeping db_wf (delete_account_row i)"
  by (auto simp: keeping_def delete_account_row_def db_wf_def distinct_map_filter)

lemma map_update_keeps: "(\<And>a. f (g a) = f a) \<Longrightarrow> map f (map (\<lambda>a. if p a then g a else a) xs) = map f xs"
  by simp

lemma keeping_update_password [keeps]: "keeping db_wf (update_password i h t)"
proof -
  have "map acc_id (map (\<lambda>a. if acc_id a = i then a\<lparr>acc_password_hash := h, acc_password_changed_at := t\<rparr>
      else a) xs) = map acc_id xs" for xs :: "account_row list"
    by (rule map_update_keeps) simp
  moreover have "map (\<lambda>a. to_ascii_lowercase (acc_username a)) (map (\<lambda>a. if acc_id a = i
      then a\<lparr>acc_password_hash := h, acc_password_changed_at := t\<rparr> else a) xs)
      = map (\<lambda>a. to_ascii_lowercase (acc_username a)) xs" for xs :: "account_row list"
    by (rule map_update_keeps) simp
  ultimately show ?thesis
    by (simp add: keeping_def update_password_def db_wf_def del: map_map flip: set_map)
qed

lemma keeping_insert_session [keeps]: "keeping db_wf (insert_session new t)"
  by (auto simp: keeping_def insert_session_def db_wf_def)

lemma keeping_touch_session [keeps]: "keeping db_wf (touch_session token t)"
proof -
  have "map row_token_sha256 (map (\<lambda>s. if row_token_sha256 s = token \<and> row_last_seen_at s < t - MINUTE
      then s\<lparr>row_last_seen_at := t\<rparr> else s) xs) = map row_token_sha256 xs" for xs :: "session_row list"
    by (rule map_update_keeps) simp
  then show ?thesis
    by (auto simp: keeping_def touch_session_def db_wf_def simp del: map_map)
qed

lemmas operation_defs = account_count_def create_first_account_def list_accounts_def create_account_def
  delete_account_def account_by_id_def find_account_def change_password_def reset_password_def
  audit_def delete_old_audit_rows_def create_session_def session_def session_alive_def
  delete_session_def ping_def

section \<open>Runs of calls\<close>

datatype db_call =
    CallCount
  | CallCreateFirst ustr ustr
  | CallList
  | CallCreate ustr ustr
  | CallDelete int
  | CallById int
  | CallFind ustr
  | CallChange int ustr digest NewSession
  | CallReset ustr ustr
  | CallAudit AuditRow
  | CallDeleteOld nat
  | CallCreateSession NewSession
  | CallSession digest
  | CallAlive digest
  | CallDeleteSession digest
  | CallPing

fun db_step :: "sql_env \<times> db_call \<Rightarrow> db \<Rightarrow> db" where
  "db_step (E, CallCount) d = snd (account_count E d)"
| "db_step (E, CallCreateFirst u h) d = snd (create_first_account E u h d)"
| "db_step (E, CallList) d = snd (list_accounts E d)"
| "db_step (E, CallCreate u h) d = snd (create_account E u h d)"
| "db_step (E, CallDelete i) d = snd (delete_account E i d)"
| "db_step (E, CallById i) d = snd (account_by_id E i d)"
| "db_step (E, CallFind u) d = snd (find_account E u d)"
| "db_step (E, CallChange i h c new) d = snd (change_password E i h c new d)"
| "db_step (E, CallReset u h) d = snd (reset_password E u h d)"
| "db_step (E, CallAudit row) d = snd (audit E row d)"
| "db_step (E, CallDeleteOld days) d = snd (delete_old_audit_rows E days d)"
| "db_step (E, CallCreateSession new) d = snd (create_session E new d)"
| "db_step (E, CallSession token) d = snd (session E token d)"
| "db_step (E, CallAlive token) d = snd (session_alive E token d)"
| "db_step (E, CallDeleteSession token) d = snd (delete_session E token d)"
| "db_step (E, CallPing) d = snd (ping E d)"

text \<open>
  An invariant that the statements keep, and \<^verbatim>\<open>delete_account\<close> as a whole, is kept by every call.
\<close>

locale table_invariant =
  fixes I :: "db \<Rightarrow> bool"
  assumes inserts: "keeping I (insert_account u h t)" "keeping I (insert_session new t)"
    and updates: "keeping I (update_password i h t)" "keeping I (touch_session token t)"
    and deletes: "keeping I (delete_sessions Q)" "keeping I (delete_account E i)"
    and logs: "I d \<Longrightarrow> I (d\<lparr>audit_log := l\<rparr>)"
begin

lemmas statements = inserts updates deletes

lemma keeping_log: "keeping I (audit E row)" "keeping I (delete_old_audit_rows E days)"
  using logs
  by (auto simp: keeping_def audit_def delete_old_audit_rows_def stmt_def Let_def split: option.splits)

lemma keeping_create_account: "keeping I (create_account E u h)"
proof -
  have "keeping I (stmt E 0 (insert_account u h))"
    by (intro keeps statements)
  then show ?thesis
    by (force simp: keeping_def create_account_def split: prod.splits result.splits SqlError.splits)
qed

lemma keeping_queries:
  "keeping I (account_count E)" "keeping I (list_accounts E)" "keeping I (account_by_id E i)"
  "keeping I (find_account E u)" "keeping I (session_alive E token)" "keeping I (ping E)"
  by (unfold operation_defs; intro keeps)+

lemma keeping_updates:
  "keeping I (create_first_account E u h)" "keeping I (change_password E i h c new)"
  "keeping I (reset_password E u h)" "keeping I (create_session E new)"
  "keeping I (session E token)" "keeping I (delete_session E token)"
  by (unfold operation_defs; intro keeps statements)+

lemma step_keeps: "I d \<Longrightarrow> I (db_step c d)"
proof (cases c)
  case (Pair E call)
  assume "I d"
  with Pair show ?thesis
    by (cases call)
      (auto intro: keepingD keeping_log keeping_create_account keeping_queries keeping_updates deletes)
qed

end

interpretation schema_inv: table_invariant db_wf
proof unfold_locales
  show "keeping db_wf (delete_account E i)" for E i
    unfolding delete_account_def by (intro keeps)
qed (auto intro: keeps simp: db_wf_def)

interpretation schema_run: kept_invariant db_step db_wf
  by unfold_locales (rule schema_inv.step_keeps)

text \<open>What \<^verbatim>\<open>delete_account\<close> does, case by case.\<close>

lemma delete_account_cases:
  obtains (failed) e where "delete_account E i d = (Err e, d)"
  | (none) "delete_account E i d = (Ok NoSuchAccount, d)" and "i \<notin> acc_id ` set (accounts d)"
  | (last) "delete_account E i d = (Ok LastAccount, d)" and "length (accounts d) \<le> 1"
  | (yes) n where "delete_account E i d = (Ok (Yes n), snd (delete_account_row i d))"
      and "1 < length (accounts d)" and "\<exists>a\<in>set (accounts d). acc_id a = i \<and> acc_username a = n"
proof (cases "delete_account E i d")
  case (Pair r d')
  show thesis
  proof (cases r)
    case (Err e)
    with Pair transaction_Err failed show thesis
      unfolding delete_account_def by metis
  next
    case (Ok x)
    have "find (\<lambda>a. acc_id a = i) (accounts d) = None \<Longrightarrow> i \<notin> acc_id ` set (accounts d)"
      by (auto simp: find_None_iff)
    with Pair Ok show thesis
      using none last yes
      by (fastforce simp: delete_account_def sql_ok delete_account_row_def dest: find_SomeD
          split: option.splits if_splits)
  qed
qed

lemma length_filter_distinct:
  "distinct (map f xs) \<Longrightarrow> length xs \<le> Suc (length (filter (\<lambda>x. f x \<noteq> y) xs))"
proof (induction xs)
  case (Cons x xs)
  show ?case
  proof (cases "f x = y")
    case True
    with Cons.prems have "filter (\<lambda>x. f x \<noteq> y) xs = xs"
      by (intro filter_True) (force simp: image_iff)
    with True show ?thesis by simp
  qed (use Cons in auto)
qed simp

lemma delete_account_keeps_one:
  assumes "db_wf d" and "accounts d \<noteq> []"
  shows "accounts (snd (delete_account E i d)) \<noteq> []"
proof (cases E i d rule: delete_account_cases)
  case (yes n)
  have "length (accounts d) \<le> Suc (length (filter (\<lambda>a. acc_id a \<noteq> i) (accounts d)))"
    using assms(1) by (intro length_filter_distinct) (simp add: db_wf_def)
  with yes show ?thesis
    by (auto simp: delete_account_row_def simp flip: length_0_conv)
qed (use assms in auto)

text \<open>The other statements remove no account, so some account always remains.\<close>

interpretation some_account: table_invariant "\<lambda>d. db_wf d \<and> accounts d \<noteq> []"
proof unfold_locales
  have both: "keeping (\<lambda>d. db_wf d \<and> Q d) m" if "keeping db_wf m" "\<And>d. db_wf d \<Longrightarrow> Q d \<Longrightarrow> Q (snd (m d))"
    for Q and m :: "('a, db) sql"
    using that by (auto simp: keeping_def)
  let ?I = "\<lambda>d. db_wf d \<and> accounts d \<noteq> []"
  show "keeping ?I (insert_account u h t)" for u h t
    by (rule both) (auto intro: keeps simp: insert_account_def Let_def)
  show "keeping ?I (insert_session new t)" for new t
    by (rule both) (auto intro: keeps simp: insert_session_def)
  show "keeping ?I (update_password i h t)" for i h t
    by (rule both) (auto intro: keeps simp: update_password_def)
  show "keeping ?I (touch_session token t)" for token t
    by (rule both) (auto intro: keeps simp: touch_session_def)
  show "keeping ?I (delete_sessions P)" for P
    by (rule both) (auto intro: keeps simp: delete_sessions_def)
  show "keeping ?I (delete_account E i)" for E i
    by (rule both) (auto intro: schema_inv.deletes simp: delete_account_keeps_one)
qed (auto simp: db_wf_def)

interpretation some_account_run: kept_invariant db_step "\<lambda>d. db_wf d \<and> accounts d \<noteq> []"
  by unfold_locales (rule some_account.step_keeps)

section \<open>Effects of the calls\<close>

lemma create_first_account_Ok:
  "create_first_account E u h d = (Ok True, d') \<Longrightarrow>
     accounts d = [] \<and> map acc_username (accounts d') = [u] \<and> sessions d' = sessions d"
  by (auto simp: create_first_account_def sql_ok insert_account_def Let_def split: if_splits)

lemma create_first_account_used: "accounts d \<noteq> [] \<Longrightarrow> create_first_account E u h d \<noteq> (Ok True, d')"
  by (auto simp: create_first_account_def sql_ok)

lemma change_password_Ok:
  assumes "change_password E i h current new d = (Ok n, d')"
  shows "sessions d' = filter (\<lambda>s. row_account_id s \<noteq> i \<and> row_token_sha256 s \<noteq> current) (sessions d) @
      [\<lparr>row_token_sha256 = new_token_sha256 new, row_account_id = new_account_id new,
        row_csrf_token = new_csrf_token new, row_created_at = clock E 4, row_last_seen_at = clock E 4,
        row_expires_at = clock E 4 + ABSOLUTE_HOURS * 60 * MINUTE,
        row_client_ip = Some (new_client_ip new), row_user_agent = new_user_agent new\<rparr>]"
    and "n = length (filter (\<lambda>s. row_account_id s = i \<and> row_token_sha256 s \<noteq> current) (sessions d))"
    and "accounts d' = map (\<lambda>a. if acc_id a = i
      then a\<lparr>acc_password_hash := h, acc_password_changed_at := clock E 1\<rparr> else a) (accounts d)"
proof -
  have "filter (\<lambda>s. row_token_sha256 s \<noteq> current)
      (filter (\<lambda>s. row_account_id s = i \<longrightarrow> row_token_sha256 s = current) (sessions d)) =
    filter (\<lambda>s. row_account_id s \<noteq> i \<and> row_token_sha256 s \<noteq> current) (sessions d)"
    by (auto simp: filter_filter intro!: filter_cong)
  with assms show
    "sessions d' = filter (\<lambda>s. row_account_id s \<noteq> i \<and> row_token_sha256 s \<noteq> current) (sessions d) @
      [\<lparr>row_token_sha256 = new_token_sha256 new, row_account_id = new_account_id new,
        row_csrf_token = new_csrf_token new, row_created_at = clock E 4, row_last_seen_at = clock E 4,
        row_expires_at = clock E 4 + ABSOLUTE_HOURS * 60 * MINUTE,
        row_client_ip = Some (new_client_ip new), row_user_agent = new_user_agent new\<rparr>]"
    by (auto simp: change_password_def sql_ok update_password_def delete_sessions_def insert_session_def
        simp del: filter_filter split: if_splits)
qed (use assms in \<open>auto simp: change_password_def sql_ok update_password_def delete_sessions_def
    insert_session_def split: if_splits\<close>)

lemma reset_password_Some:
  assumes "reset_password E u h d = (Ok (Some n), d')"
  obtains a where "find (\<lambda>a. eq_ignore_ascii_case (acc_username a) u) (accounts d) = Some a"
    and "sessions d' = filter (\<lambda>s. row_account_id s \<noteq> acc_id a) (sessions d)"
    and "accounts d' = map (\<lambda>b. if acc_id b = acc_id a
      then b\<lparr>acc_password_hash := h, acc_password_changed_at := clock E 2\<rparr> else b) (accounts d)"
    and "n = length (filter (\<lambda>s. row_account_id s = acc_id a) (sessions d))"
  using assms that
  by (auto simp: reset_password_def sql_ok update_password_def delete_sessions_def split: option.splits)

text \<open>A session row that was used can only become younger, and its end stays where it is.\<close>

lemma session_Ok:
  assumes "session E token d = (Ok (Some s), d')"
  shows "live_session token (clock E 0) d = Some s"
    and "sessions d' = map (\<lambda>r. if row_token_sha256 r = token \<and> row_last_seen_at r < clock E 1 - MINUTE
      then r\<lparr>row_last_seen_at := clock E 1\<rparr> else r) (sessions d)"
    and "accounts d' = accounts d"
  using assms by (auto simp: session_def sql_ok touch_session_def split: option.splits)

lemma live_session_iff:
  assumes "db_wf d"
  shows "live_session token t d = Some s \<longleftrightarrow>
    (\<exists>r\<in>set (sessions d). \<exists>a\<in>set (accounts d). row_token_sha256 r = token \<and> row_live t r \<and>
       acc_id a = row_account_id r \<and>
       s = \<lparr>session_account_id = acc_id a, session_username = acc_username a,
            session_csrf_token = row_csrf_token r\<rparr>)"
  (is "?l \<longleftrightarrow> ?r")
proof
  assume ?l
  then show ?r
    by (force simp: live_session_def bind_eq_Some_conv dest!: find_SomeD)
next
  have uniq: "\<And>r r'. r \<in> set (sessions d) \<Longrightarrow> r' \<in> set (sessions d) \<Longrightarrow>
      row_token_sha256 r = row_token_sha256 r' \<Longrightarrow> r = r'"
    "\<And>a a'. a \<in> set (accounts d) \<Longrightarrow> a' \<in> set (accounts d) \<Longrightarrow> acc_id a = acc_id a' \<Longrightarrow> a = a'"
    using assms by (auto simp: db_wf_def distinct_map inj_on_def)
  assume ?r
  then obtain r a where ra: "r \<in> set (sessions d)" "a \<in> set (accounts d)" "row_token_sha256 r = token"
      "row_live t r" "acc_id a = row_account_id r"
      "s = \<lparr>session_account_id = acc_id a, session_username = acc_username a, session_csrf_token = row_csrf_token r\<rparr>"
    by blast
  have "find (\<lambda>s. row_token_sha256 s = token \<and> row_live t s) (sessions d) = Some r"
    using ra(1,3,4) uniq(1) by (intro find_unique) auto
  moreover have "find (\<lambda>a. acc_id a = row_account_id r) (accounts d) = Some a"
    using ra(2,5) uniq(2) by (intro find_unique) auto
  ultimately show ?l
    using ra(5,6) by (simp add: live_session_def)
qed

lemma session_alive_iff:
  assumes "db_wf d"
  shows "list_ex (\<lambda>s. row_token_sha256 s = token \<and> row_live t s) (sessions d) \<longleftrightarrow>
    live_session token t d \<noteq> None"
proof
  assume "list_ex (\<lambda>s. row_token_sha256 s = token \<and> row_live t s) (sessions d)"
  then obtain s a where "s \<in> set (sessions d)" "row_token_sha256 s = token" "row_live t s"
      "a \<in> set (accounts d)" "acc_id a = row_account_id s"
    using assms unfolding db_wf_def list_ex_iff by fastforce
  then show "live_session token t d \<noteq> None"
    using live_session_iff [OF assms, of token t] by blast
qed (auto simp: live_session_iff [OF assms] list_ex_iff)

text \<open>A session ends 24 hours after its start, whatever is called in between.\<close>

definition day_long :: "db \<Rightarrow> bool" where
  "day_long d \<longleftrightarrow> (\<forall>s\<in>set (sessions d). row_expires_at s = row_created_at s + ABSOLUTE_HOURS * 60 * MINUTE)"

interpretation day_inv: table_invariant day_long
proof unfold_locales
  have base: "keeping day_long (insert_account u h t)" "keeping day_long (insert_session new t)"
      "keeping day_long (update_password i h t)" "keeping day_long (touch_session token t)"
      "keeping day_long (delete_sessions Q)" "keeping day_long (delete_account_row i)"
    for u h t new i token Q
    by (auto simp: keeping_def day_long_def insert_account_def insert_session_def update_password_def
        touch_session_def delete_sessions_def delete_account_row_def Let_def)
  then show "keeping day_long (insert_account u h t)" "keeping day_long (insert_session new t)"
      "keeping day_long (update_password i h t)" "keeping day_long (touch_session token t)"
      "keeping day_long (delete_sessions Q)"
    for u h t new i token Q
    by blast+
  show "keeping day_long (delete_account E i)" for E i
    unfolding delete_account_def using base by (intro keeps)
qed (simp add: day_long_def)

interpretation day_run: kept_invariant db_step day_long
  by unfold_locales (rule day_inv.step_keeps)

definition empty_db :: db where
  "empty_db = \<lparr>accounts = [], sessions = [], audit_log = []\<rparr>"

lemma empty_db_wf: "db_wf empty_db" and empty_db_day: "day_long empty_db"
  by (simp_all add: empty_db_def db_wf_def day_long_def)

lemma run_migrations_Ok:
  "run_migrations E n ms s = Ok s' \<Longrightarrow> s' = s\<lparr>applied := applied s @ ms\<rparr>"
  by (induction E n ms s rule: run_migrations.induct) (auto split: option.splits)

section \<open>Properties\<close>


text \<open>
  C5: once there is an account, no sequence of calls leaves the database without one: the last account
  cannot be removed.
\<close>

theorem accounts_never_vanish:
  assumes "db_wf d" and "accounts d \<noteq> []"
  shows "accounts (fold db_step calls d) \<noteq> []"
  using some_account_run.run_inv [of d calls] assms by blast

text \<open>
  C7: the setup claim succeeds at most once: after a successful \<^verbatim>\<open>create_first_account\<close>, no later one
  succeeds, whatever calls run in between.
\<close>

theorem setup_claim_once:
  assumes "db_wf d" and "create_first_account E u h d = (Ok True, d1)"
  shows "fst (create_first_account E' u' h' (fold db_step calls d1)) \<noteq> Ok True"
proof -
  have "d1 = db_step (E, CallCreateFirst u h) d"
    using assms(2) by simp
  then have "db_wf d1"
    using schema_inv.step_keeps [OF assms(1)] by metis
  moreover have "accounts d1 \<noteq> []"
    using create_first_account_Ok [OF assms(2)] by auto
  ultimately have "accounts (fold db_step calls d1) \<noteq> []"
    using some_account_run.run_inv [of d1 calls] by blast
  then show ?thesis
    by (metis create_first_account_used prod.collapse)
qed

text \<open>
  A password change stores the new hash and ends every other session of the account, the one that
  asked for it included: afterwards only the session with the new token is live. If it fails,
  nothing has changed.
\<close>

theorem change_password_ends_sessions:
  assumes "db_wf d" and "change_password E i h current new d = (r, d')" and "new_account_id new = i"
  shows "case r of
      Err _ \<Rightarrow> d' = d
    | Ok _ \<Rightarrow>
        (\<forall>a\<in>set (accounts d'). acc_id a = i \<longrightarrow> acc_password_hash a = h) \<and>
        (\<forall>token t s. live_session token t d' = Some s \<and> session_account_id s = i \<longrightarrow> token = new_token_sha256 new) \<and>
        (\<forall>t. clock E 4 \<le> t \<and> t < clock E 4 + 60 * MINUTE \<longrightarrow>
           (\<exists>s. live_session (new_token_sha256 new) t d' = Some s \<and> session_account_id s = i))"
proof (cases r)
  case (Err e)
  then show ?thesis
    using assms(2) transaction_Err by (auto simp: change_password_def)
next
  case (Ok n)
  have d': "d' = db_step (E, CallChange i h current new) d"
    using assms(2) by simp
  have wf: "db_wf d'"
    unfolding d' by (rule schema_inv.step_keeps [OF assms(1)])
  note eff = change_password_Ok [OF assms(2) [unfolded Ok]]
  let ?row = "\<lparr>row_token_sha256 = new_token_sha256 new, row_account_id = new_account_id new,
        row_csrf_token = new_csrf_token new, row_created_at = clock E 4, row_last_seen_at = clock E 4,
        row_expires_at = clock E 4 + ABSOLUTE_HOURS * 60 * MINUTE,
        row_client_ip = Some (new_client_ip new), row_user_agent = new_user_agent new\<rparr>"
  have "?row \<in> set (sessions d')"
    by (simp add: eff)
  moreover obtain a where "a \<in> set (accounts d')" "acc_id a = i"
    using wf calculation assms(3) by (force simp: db_wf_def)
  ultimately have "\<exists>s. live_session (new_token_sha256 new) t d' = Some s \<and> session_account_id s = i"
    if "clock E 4 \<le> t" "t < clock E 4 + 60 * MINUTE" for t
    using that assms(3)
    by (auto simp: live_session_iff [OF wf] row_live_def IDLE_MINUTES_def ABSOLUTE_HOURS_def MINUTE_def
        intro!: bexI [of _ ?row] bexI [of _ a])
  then show ?thesis
    using Ok assms(3) by (auto simp: live_session_iff [OF wf] eff)
qed

text \<open>
  After a password reset no session of that account is left. A reset that fails, or that finds no
  account, changes nothing.
\<close>

theorem reset_password_ends_sessions:
  assumes "db_wf d" and "reset_password E u h d = (r, d')"
  shows "case r of
      Ok (Some _) \<Rightarrow> (\<exists>a\<in>set (accounts d'). eq_ignore_ascii_case (acc_username a) u \<and>
        acc_password_hash a = h \<and> (\<forall>s\<in>set (sessions d'). row_account_id s \<noteq> acc_id a))
    | _ \<Rightarrow> d' = d"
proof (cases r)
  case (Err e)
  then show ?thesis
    using assms(2) transaction_Err by (auto simp: reset_password_def)
next
  case (Ok x)
  show ?thesis
  proof (cases x)
    case None
    with Ok assms(2) show ?thesis
      by (auto simp: reset_password_def sql_ok split: option.splits)
  next
    case (Some n)
    with Ok assms(2) have "reset_password E u h d = (Ok (Some n), d')" by simp
    then obtain a where "find (\<lambda>a. eq_ignore_ascii_case (acc_username a) u) (accounts d) = Some a"
        "sessions d' = filter (\<lambda>s. row_account_id s \<noteq> acc_id a) (sessions d)"
        "accounts d' = map (\<lambda>b. if acc_id b = acc_id a
          then b\<lparr>acc_password_hash := h, acc_password_changed_at := clock E 2\<rparr> else b) (accounts d)"
      by (rule reset_password_Some)
    with find_SomeD [OF this(1)] Ok Some show ?thesis
      by (auto intro!: bexI [of _ "a\<lparr>acc_password_hash := h, acc_password_changed_at := clock E 2\<rparr>"])
  qed
qed

text \<open>
  C8: a session that \<^verbatim>\<open>Db::session\<close> returns started less than 24 hours ago, was used in the last 60
  minutes, and belongs to an account that exists; using it never moves its end.
\<close>

theorem session_lifetime:
  assumes "session E token (fold db_step calls empty_db) = (Ok (Some s), d')"
  shows "\<exists>r\<in>set (sessions (fold db_step calls empty_db)). row_token_sha256 r = token \<and>
      clock E 0 < row_created_at r + 24 * 60 * MINUTE \<and> clock E 0 < row_last_seen_at r + 60 * MINUTE \<and>
      (\<exists>a\<in>set (accounts d'). acc_id a = session_account_id s \<and> acc_username a = session_username s) \<and>
      map row_expires_at (sessions d') = map row_expires_at (sessions (fold db_step calls empty_db))"
proof -
  let ?d = "fold db_step calls empty_db"
  have "db_wf ?d" "day_long ?d"
    using schema_run.run_inv [OF empty_db_wf] day_run.run_inv [OF empty_db_day] by auto
  moreover have "map row_expires_at (sessions d') = map row_expires_at (sessions ?d)"
    by (simp add: session_Ok [OF assms])
  ultimately show ?thesis
    using session_Ok [OF assms]
    by (force simp: live_session_iff day_long_def row_live_def ABSOLUTE_HOURS_def IDLE_MINUTES_def)
qed

text \<open>
  \<^verbatim>\<open>session_alive\<close> gives the same verdict as \<^verbatim>\<open>session\<close> would at that moment, and it does not touch
  the database, so an open socket never prolongs a session.
\<close>

theorem session_alive_only_looks:
  assumes "db_wf d" and "session_alive E token d = (r, d')"
  shows "d' = d \<and> (\<forall>alive. r = Ok alive \<longrightarrow> (alive \<longleftrightarrow> live_session token (clock E 0) d \<noteq> None))"
  using assms(2) session_alive_iff [OF assms(1)]
  by (auto simp: session_alive_def stmt_def query_def split: option.splits)

text \<open>
  \<^verbatim>\<open>migrate\<close> runs exactly the migrations that have not run, in order, and records their number. It
  refuses a database of a newer Lodger, and a failed run leaves the schema as it was.
\<close>

theorem migrate_exact:
  assumes "migrate E ms s = (r, s')" and "0 \<le> user_version s" and "applied s = take (nat (user_version s)) ms"
  shows "case r of
      Ok _ \<Rightarrow> user_version s \<le> int (length ms) \<and> applied s' = ms \<and> user_version s' = int (length ms)
    | Err _ \<Rightarrow> s' = s"
  using assms
  by (auto simp: migrate_def Let_def dest!: run_migrations_Ok split: option.splits if_splits result.splits)

subsection \<open>Witnesses\<close>

definition at_time :: "time \<Rightarrow> sql_env" where
  "at_time t = \<lparr>fails = (\<lambda>_. None), clock = (\<lambda>_. t)\<rparr>"

definition example_session :: "digest \<Rightarrow> NewSession" where
  "example_session token = \<lparr>new_token_sha256 = token, new_account_id = 1, new_csrf_token = lit ''csrf'',
     new_client_ip = lit ''192.0.2.1'', new_user_agent = None\<rparr>"

definition example_calls :: "(sql_env \<times> db_call) list" where
  "example_calls = [(at_time 0, CallCreateFirst (lit ''admin'') (lit ''hash'')),
     (at_time 0, CallCreateSession (example_session [7]))]"

definition example_db :: db where
  "example_db = fold db_step example_calls empty_db"

lemma example_db_wf: "db_wf example_db"
  unfolding example_db_def using empty_db_wf by (rule schema_run.run_inv)

lemma example_db_account: "accounts example_db \<noteq> []"
  by code_simp

theorem accounts_never_vanish_witness:
  "accounts (fold db_step [(at_time 5, CallDelete 1)] example_db) \<noteq> []"
  using example_db_wf example_db_account by (rule accounts_never_vanish)

theorem setup_claim_once_witness:
  "fst (create_first_account (at_time 9) (lit ''eve'') (lit ''h'') (fold db_step [(at_time 5, CallDelete 1)]
     (snd (create_first_account (at_time 0) (lit ''admin'') (lit ''hash'') empty_db)))) \<noteq> Ok True"
proof -
  have "fst (create_first_account (at_time 0) (lit ''admin'') (lit ''hash'') empty_db) = Ok True"
    by code_simp
  then have "create_first_account (at_time 0) (lit ''admin'') (lit ''hash'') empty_db =
      (Ok True, snd (create_first_account (at_time 0) (lit ''admin'') (lit ''hash'') empty_db))"
    by (simp add: prod_eq_iff)
  from setup_claim_once [OF empty_db_wf this] show ?thesis by blast
qed

theorem change_password_ends_sessions_witness:
  "live_session [7] 1 (snd (change_password (at_time 1) 1 (lit ''new'') [7] (example_session [8]) example_db)) = None"
proof -
  let ?r = "change_password (at_time 1) 1 (lit ''new'') [7] (example_session [8]) example_db"
  have ok: "fst ?r = Ok 0" and id: "new_account_id (example_session [8]) = 1"
      and rows: "\<forall>s\<in>set (sessions (snd ?r)). row_account_id s = 1"
    by code_simp+
  have eq: "?r = (Ok 0, snd ?r)"
    using ok by (simp add: prod_eq_iff)
  have wf: "db_wf (snd ?r)"
    using schema_inv.step_keeps [OF example_db_wf, of "(at_time 1, CallChange 1 (lit ''new'') [7] (example_session [8]))"]
    by simp
  have "[7] = new_token_sha256 (example_session [8])" if "live_session [7] 1 (snd ?r) = Some s" for s
    using change_password_ends_sessions [OF example_db_wf eq id] that rows
    by (fastforce simp: live_session_iff [OF wf])
  then show ?thesis
    by (cases "live_session [7] 1 (snd ?r)") (auto simp: example_session_def)
qed

theorem reset_password_ends_sessions_witness:
  "\<exists>d'. reset_password (at_time 1) (lit ''ADMIN'') (lit ''new'') example_db = (Ok (Some 1), d') \<and>
     (\<exists>a\<in>set (accounts d'). acc_password_hash a = lit ''new'')"
proof -
  let ?r = "reset_password (at_time 1) (lit ''ADMIN'') (lit ''new'') example_db"
  have "fst ?r = Ok (Some 1)"
    by code_simp
  then have eq: "?r = (Ok (Some 1), snd ?r)"
    by (simp add: prod_eq_iff)
  from reset_password_ends_sessions [OF example_db_wf eq] eq show ?thesis by auto
qed

theorem session_lifetime_witness:
  "\<exists>r\<in>set (sessions example_db). row_token_sha256 r = [7] \<and> 5 < row_created_at r + 24 * 60 * MINUTE"
proof -
  have "\<exists>s. fst (session (at_time 5) [7] example_db) = Ok (Some s)"
    by (rule exI [of _ "\<lparr>session_account_id = 1, session_username = lit ''admin'', session_csrf_token = lit ''csrf''\<rparr>"])
      code_simp
  then obtain s where "session (at_time 5) [7] (fold db_step example_calls empty_db) =
      (Ok (Some s), snd (session (at_time 5) [7] example_db))"
    by (auto simp: prod_eq_iff example_db_def)
  from session_lifetime [OF this] show ?thesis
    by (auto simp: example_db_def at_time_def)
qed

theorem session_alive_only_looks_witness:
  "session_alive (at_time 5) [7] example_db = (Ok True, example_db) \<and> live_session [7] 5 example_db \<noteq> None"
proof -
  let ?r = "session_alive (at_time 5) [7] example_db"
  have "fst ?r = Ok True"
    by code_simp
  then have eq: "?r = (Ok True, snd ?r)"
    by (simp add: prod_eq_iff)
  from session_alive_only_looks [OF example_db_wf eq] eq show ?thesis
    by (auto simp: at_time_def)
qed

theorem migrate_exact_witness:
  "applied (snd (migrate (at_time 0) MIGRATIONS \<lparr>user_version = 0, applied = []\<rparr>)) = MIGRATIONS"
proof -
  have "migrate (at_time 0) MIGRATIONS \<lparr>user_version = 0, applied = []\<rparr> =
      (Ok (), \<lparr>user_version = 1, applied = MIGRATIONS\<rparr>)"
    by (simp add: migrate_def at_time_def MIGRATIONS_def)
  from migrate_exact [OF this] this show ?thesis by simp
qed

end
