(* ===== verification/Passwords.thy ===== *)
theory Passwords
  imports Database
begin

text \<open>
  \<^verbatim>\<open>lodger/src/passwords.rs\<close> and the cryptographic functions that the sources call. SHA-256, hex
  encoding and argon2id belong to other crates, so they are the parameter \<open>crypto\<close>; bytes that
  \<^verbatim>\<open>getrandom\<close> fills in are an argument of the operation that draws them.
\<close>

record crypto =
  sha256 :: "ustr \<Rightarrow> digest"
  hex_encode :: "8 word list \<Rightarrow> ustr"
  argon2_hash :: "ustr \<Rightarrow> 8 word list \<Rightarrow> (ustr, ustr) result"
  argon2_verify :: "ustr \<Rightarrow> ustr \<Rightarrow> (unit, ustr) result"

type_synonym random = "(8 word list, ustr) result"

text \<open>The salt of a new hash is drawn by the crate.\<close>

definition password_hash :: "crypto \<Rightarrow> 8 word list \<Rightarrow> ustr \<Rightarrow> (ustr, ustr) result" where
  "password_hash K salt password = argon2_hash K password salt"

definition password_verify :: "crypto \<Rightarrow> ustr \<Rightarrow> ustr \<Rightarrow> bool" where
  "password_verify K password stored = (case argon2_verify K password stored of Ok _ \<Rightarrow> True | Err _ \<Rightarrow> False)"

definition verify_nobody :: "crypto \<Rightarrow> ustr \<Rightarrow> ustr \<Rightarrow> bool" where
  "verify_nobody K dummy password = (let _ = password_verify K password dummy in False)"

text \<open>
  \<^verbatim>\<open>run\<close> gives up when the semaphore is closed or the task fails; \<open>fine\<close> says that it did not.
\<close>

definition run_blocking :: "bool \<Rightarrow> 'a \<Rightarrow> 'a option" where
  "run_blocking fine work = (if fine then Some work else None)"

end
