(* ===== verification/Ip_Net.thy ===== *)
theory Ip_Net
  imports Lodger_Prelude
begin

unbundle bit_operations_syntax

text \<open>
  IPv4 addresses and networks. \<^verbatim>\<open>std::net::Ipv4Addr\<close> is a 32-bit word. \<^verbatim>\<open>ipnet::Ipv4Net\<close> is a
  third-party type: an address with a prefix length. Its operations are the parameter
  \<open>ipnet\<close> of every definition that uses them, and \<open>ipnet_laws\<close> collects the documented
  behaviour that theorems may assume. \<open>cidr\<close> is one implementation with that behaviour; the
  witnesses use it.
\<close>

section \<open>Addresses\<close>

type_synonym u32 = "32 word"

text \<open>\<^verbatim>\<open>Ipv4Addr::new\<close>: four octets, the first one the most significant.\<close>

definition ipv4_new :: "nat \<Rightarrow> nat \<Rightarrow> nat \<Rightarrow> nat \<Rightarrow> u32" where
  "ipv4_new a b c d = of_nat (((a * 256 + b) * 256 + c) * 256 + d)"

definition octets :: "u32 \<Rightarrow> nat list" where
  "octets w = [unat w div 2 ^ 24, unat w div 2 ^ 16 mod 256, unat w div 2 ^ 8 mod 256, unat w mod 256]"

text \<open>The \<^verbatim>\<open>Display\<close> form, such as \<open>192.168.150.1\<close>.\<close>

definition ipv4_to_string :: "u32 \<Rightarrow> ustr" where
  "ipv4_to_string w = join (lit ''.'') (map dec (octets w))"

text \<open>
  \<^verbatim>\<open>Ipv4Addr::from_str\<close>: four decimal octets of one to three digits, none above 255 and none with
  a leading zero.
\<close>

definition parse_octet :: "ustr \<Rightarrow> nat option" where
  "parse_octet s =
     (if s = [] \<or> 3 < length s \<or> \<not> list_all is_digit s then None
      else if hd s = 48 \<and> 1 < length s then None
      else if dec_val s \<le> 255 then Some (dec_val s) else None)"

definition parse_ipv4 :: "ustr \<Rightarrow> u32 option" where
  "parse_ipv4 s =
     (case map parse_octet (split_on 46 s) of
        [Some a, Some b, Some c, Some d] \<Rightarrow> Some (ipv4_new a b c d)
      | _ \<Rightarrow> None)"

section \<open>Networks\<close>

datatype ipv4net = Ipv4Net (net_addr: u32) (prefix_len: nat)

record ipnet =
  net_parse :: "ustr \<Rightarrow> ipv4net option"
  net_to_string :: "ipv4net \<Rightarrow> ustr"
  net_network :: "ipv4net \<Rightarrow> u32"
  net_broadcast :: "ipv4net \<Rightarrow> u32"
  net_trunc :: "ipv4net \<Rightarrow> ipv4net"
  net_contains :: "ipv4net \<Rightarrow> ipv4net \<Rightarrow> bool"
  net_contains_addr :: "ipv4net \<Rightarrow> u32 \<Rightarrow> bool"
  net_new :: "u32 \<Rightarrow> nat \<Rightarrow> ipv4net option"
  net_with_netmask :: "u32 \<Rightarrow> u32 \<Rightarrow> ipv4net option"

definition hostmask :: "nat \<Rightarrow> u32" where
  "hostmask p = mask (32 - p)"

text \<open>The addresses of a network: from its network address to its broadcast address.\<close>

definition addresses :: "ipnet \<Rightarrow> ipv4net \<Rightarrow> u32 set" where
  "addresses N n = {net_network N n .. net_broadcast N n}"

definition ipnet_laws :: "ipnet \<Rightarrow> bool" where
  "ipnet_laws N \<longleftrightarrow>
     (\<forall>n. prefix_len n \<le> 32 \<longrightarrow>
        net_network N n = net_addr n AND NOT (hostmask (prefix_len n)) \<and>
        net_broadcast N n = net_addr n OR hostmask (prefix_len n) \<and>
        net_trunc N n = Ipv4Net (net_network N n) (prefix_len n) \<and>
        net_parse N (net_to_string N n) = Some n \<and> 0 \<notin> set (net_to_string N n)) \<and>
     (\<forall>n a. net_contains_addr N n a \<longleftrightarrow> net_network N n \<le> a \<and> a \<le> net_broadcast N n) \<and>
     (\<forall>n m. net_contains N n m \<longleftrightarrow>
        net_network N n \<le> net_network N m \<and> net_broadcast N m \<le> net_broadcast N n) \<and>
     (\<forall>s n. net_parse N s = Some n \<longrightarrow> prefix_len n \<le> 32) \<and>
     (\<forall>a p. net_new N a p = (if p \<le> 32 then Some (Ipv4Net a p) else None)) \<and>
     (\<forall>a m n. net_with_netmask N a m = Some n \<longrightarrow> net_addr n = a \<and> prefix_len n \<le> 32)"

lemma ipnet_lawsD:
  assumes "ipnet_laws N"
  shows "prefix_len n \<le> 32 \<Longrightarrow> net_network N n = net_addr n AND NOT (hostmask (prefix_len n))"
    and "prefix_len n \<le> 32 \<Longrightarrow> net_broadcast N n = net_addr n OR hostmask (prefix_len n)"
    and "prefix_len n \<le> 32 \<Longrightarrow> net_trunc N n = Ipv4Net (net_network N n) (prefix_len n)"
    and "prefix_len n \<le> 32 \<Longrightarrow> net_parse N (net_to_string N n) = Some n"
    and "net_contains_addr N n a \<longleftrightarrow> a \<in> addresses N n"
    and "net_contains N n m \<longleftrightarrow>
      net_network N n \<le> net_network N m \<and> net_broadcast N m \<le> net_broadcast N n"
    and "net_parse N s = Some n \<Longrightarrow> prefix_len n \<le> 32"
    and "prefix_len n \<le> 32 \<Longrightarrow> 0 \<notin> set (net_to_string N n)"
    and "net_new N a p = (if p \<le> 32 then Some (Ipv4Net a p) else None)"
    and "net_with_netmask N a w = Some n \<Longrightarrow> prefix_len n \<le> 32"
  using assms unfolding ipnet_laws_def addresses_def atLeastAtMost_iff by metis+

lemma network_le_broadcast:
  assumes "ipnet_laws N" and "prefix_len n \<le> 32"
  shows "net_network N n \<le> net_broadcast N n"
proof -
  have "net_addr n AND NOT (hostmask (prefix_len n)) \<le> net_addr n"
    by (rule word_and_le2)
  also have "net_addr n \<le> net_addr n OR hostmask (prefix_len n)"
    by (rule le_word_or2)
  finally show ?thesis
    using assms by (simp add: ipnet_lawsD)
qed

lemma net_contains_addresses:
  "ipnet_laws N \<Longrightarrow> net_contains N n m \<Longrightarrow> addresses N m \<subseteq> addresses N n"
  by (auto simp: ipnet_lawsD addresses_def)

text \<open>
  Two intervals meet exactly if one of them holds the start of the other, so two lookups decide
  whether two networks share an address.
\<close>

lemma intervals_meet:
  fixes a b c d :: "'a::linorder"
  assumes "a \<le> b" and "c \<le> d"
  shows "{a..b} \<inter> {c..d} \<noteq> {} \<longleftrightarrow> c \<in> {a..b} \<or> a \<in> {c..d}"
  using assms by (auto simp: disjoint_iff)

lemma networks_meet:
  assumes "ipnet_laws N" and "prefix_len n \<le> 32" and "prefix_len m \<le> 32"
  shows "addresses N n \<inter> addresses N m \<noteq> {} \<longleftrightarrow>
    net_contains_addr N n (net_network N m) \<or> net_contains_addr N m (net_network N n)"
  using intervals_meet [OF network_le_broadcast [OF assms(1,2)] network_le_broadcast [OF assms(1,3)]]
  by (simp add: ipnet_lawsD [OF assms(1)] addresses_def)

section \<open>A CIDR implementation\<close>

definition cidr_parse :: "ustr \<Rightarrow> ipv4net option" where
  "cidr_parse s =
     (case split_once 47 s of
        None \<Rightarrow> None
      | Some (a, p) \<Rightarrow>
          (case (parse_ipv4 a, parse_uint 32 p) of
             (Some w, Some n) \<Rightarrow> Some (Ipv4Net w n)
           | _ \<Rightarrow> None))"

definition cidr :: ipnet where
  "cidr = \<lparr>
     net_parse = cidr_parse,
     net_to_string = (\<lambda>n. ipv4_to_string (net_addr n) @ lit ''/'' @ dec (prefix_len n)),
     net_network = (\<lambda>n. net_addr n AND NOT (hostmask (prefix_len n))),
     net_broadcast = (\<lambda>n. net_addr n OR hostmask (prefix_len n)),
     net_trunc = (\<lambda>n. Ipv4Net (net_addr n AND NOT (hostmask (prefix_len n))) (prefix_len n)),
     net_contains = (\<lambda>n m.
       net_addr n AND NOT (hostmask (prefix_len n)) \<le> net_addr m AND NOT (hostmask (prefix_len m)) \<and>
       net_addr m OR hostmask (prefix_len m) \<le> net_addr n OR hostmask (prefix_len n)),
     net_contains_addr = (\<lambda>n a.
       net_addr n AND NOT (hostmask (prefix_len n)) \<le> a \<and> a \<le> net_addr n OR hostmask (prefix_len n)),
     net_new = (\<lambda>a p. if p \<le> 32 then Some (Ipv4Net a p) else None),
     net_with_netmask = (\<lambda>a m.
       map_option (Ipv4Net a) (find (\<lambda>p. m = NOT (hostmask p)) [0..<33]))
   \<rparr>"

lemma octets_bound: "x \<in> set (octets w) \<Longrightarrow> x \<le> 255"
proof -
  have "unat w < 2 ^ 32"
    using unsigned_less [of w, where 'a = nat] by simp
  then have "unat w div 2 ^ 24 \<le> 255" by simp
  moreover assume "x \<in> set (octets w)"
  ultimately show ?thesis
    by (auto simp: octets_def)
qed

lemma ipv4_new_octets:
  "ipv4_new (octets w ! 0) (octets w ! 1) (octets w ! 2) (octets w ! 3) = w"
proof -
  have split: "m div 256 * 256 + m mod 256 = m" for m :: nat
    by simp
  have "unat w div 2 ^ 24 * 256 + unat w div 2 ^ 16 mod 256 = unat w div 2 ^ 16"
    using split [of "unat w div 2 ^ 16"] by (simp add: div_mult2_eq [symmetric])
  moreover have "unat w div 2 ^ 16 * 256 + unat w div 2 ^ 8 mod 256 = unat w div 2 ^ 8"
    using split [of "unat w div 2 ^ 8"] by (simp add: div_mult2_eq [symmetric])
  moreover have "unat w div 2 ^ 8 * 256 + unat w mod 256 = unat w"
    using split [of "unat w"] by simp
  ultimately have "((unat w div 2 ^ 24 * 256 + unat w div 2 ^ 16 mod 256) * 256
      + unat w div 2 ^ 8 mod 256) * 256 + unat w mod 256 = unat w"
    by metis
  moreover have "octets w ! 3 = unat w mod 256"
    by (simp add: octets_def)
  ultimately show ?thesis
    unfolding ipv4_new_def octets_def by (simp del: of_nat_add of_nat_mult)
qed

lemma length_dec_le: "n \<le> 255 \<Longrightarrow> length (dec n) \<le> 3"
  by (cases "n < 10"; cases "n div 10 < 10"; cases "n div 100 < 10")
    (auto simp: dec_small dec_large div_mult2_eq [symmetric])

lemma hd_dec: "n \<noteq> 0 \<Longrightarrow> hd (dec n) \<noteq> 48"
proof (induction n rule: dec.induct)
  case (1 n)
  then show ?case
    by (cases "n < 10") (auto simp: dec_small dec_large)
qed

lemma parse_octet_dec: "n \<le> 255 \<Longrightarrow> parse_octet (dec n) = Some n"
proof -
  assume n: "n \<le> 255"
  have digits: "list_all is_digit (dec n)"
    using dec_digits by (auto simp: list_all_iff)
  show ?thesis
  proof (cases "n = 0")
    case True
    then show ?thesis by (simp add: parse_octet_def dec_small is_digit_def dec_val_def)
  next
    case False
    with hd_dec length_dec_le [OF n] digits n show ?thesis
      by (auto simp: parse_octet_def)
  qed
qed

lemma dot_not_in_dec: "46 \<notin> set (dec n)" and slash_not_in_dec: "47 \<notin> set (dec n)"
  using dec_digits by (force simp: is_digit_def)+

lemma parse_ipv4_to_string: "parse_ipv4 (ipv4_to_string w) = Some w"
proof -
  have "split_on 46 (join [46] (map dec (octets w))) = map dec (octets w)"
    by (rule split_on_join) (auto simp: octets_def dot_not_in_dec)
  then have "map parse_octet (split_on 46 (ipv4_to_string w)) = map Some (octets w)"
    using octets_bound [of _ w] by (simp add: ipv4_to_string_def lit_def parse_octet_dec)
  then show ?thesis
    using ipv4_new_octets [of w] by (simp add: parse_ipv4_def octets_def)
qed

lemma zero_not_in_dec: "0 \<notin> set (dec n)"
  using dec_digits [of 0] by (force simp: is_digit_def)

lemma slash_not_in_ipv4: "47 \<notin> set (ipv4_to_string w)" and zero_not_in_ipv4: "0 \<notin> set (ipv4_to_string w)"
  using set_join [of "lit ''.''" "map dec (octets w)"] slash_not_in_dec zero_not_in_dec
  by (auto simp: ipv4_to_string_def lit_def)

lemma cidr_parse_to_string:
  assumes "prefix_len n \<le> 32"
  shows "cidr_parse (net_to_string cidr n) = Some n"
proof -
  have "split_once 47 (net_to_string cidr n) = Some (ipv4_to_string (net_addr n), dec (prefix_len n))"
    by (simp add: split_once_Some cidr_def lit_def slash_not_in_ipv4)
  then show ?thesis
    by (simp add: cidr_parse_def parse_ipv4_to_string parse_uint_dec assms)
qed

lemma cidr_parse_prefix: "cidr_parse s = Some n \<Longrightarrow> prefix_len n \<le> 32"
  by (auto simp: cidr_parse_def parse_uint_le split: option.splits)

lemma cidr_laws: "ipnet_laws cidr"
  unfolding ipnet_laws_def
  using cidr_parse_to_string cidr_parse_prefix
  by (auto simp: cidr_def find_Some_iff zero_not_in_dec zero_not_in_ipv4 lit_def)

end
