(* ===== verification/Validate.thy ===== *)
theory Validate
  imports Ip_Net
begin

text \<open>
  The input checks of \<^verbatim>\<open>lodger-core/src/validate.rs\<close>. Every string that reaches libvirt goes
  through one of them first, because the binding panics on a NUL byte. The locale
  \<open>input_check\<close> is the contract the parsers share; it is interpreted on each of them below.
\<close>

section \<open>Model\<close>

definition NAME_MAX_LEN :: nat where
  "NAME_MAX_LEN = 64"

definition SUBNET_MAX_PREFIX :: nat where
  "SUBNET_MAX_PREFIX = 30"

definition INTERFACE_MAX_LEN :: nat where
  "INTERFACE_MAX_LEN = 15"

definition PATH_MAX_LEN :: nat where
  "PATH_MAX_LEN = 4096"

definition PRIVATE_RANGES :: "ipv4net list" where
  "PRIVATE_RANGES =
     [Ipv4Net (ipv4_new 10 0 0 0) 8, Ipv4Net (ipv4_new 172 16 0 0) 12, Ipv4Net (ipv4_new 192 168 0 0) 16]"

text \<open>A field name is a \<^verbatim>\<open>&'static str\<close> of the source, so it is an Isabelle string.\<close>

type_synonym field = string

datatype InputError =
    Nul field
  | Empty field
  | TooLong field nat nat
  | BadFirstChar field uchar
  | BadChar field uchar
  | SubnetSyntax field
  | SubnetHostBits field ipv4net
  | SubnetNotPrivate field
  | SubnetTooSmall field nat
  | SubnetOverlap field ustr ipv4net
  | PathNotAbsolute field
  | PathDotSegment field
  | PathControl field
  | SystemPath field ustr
  | HostSyntax field
  | PathInUse field ustr
  | NfsExportInUse ustr
  | InterfaceName field
  | NoSuchBridge ustr
  | SizeOutOfRange field nat nat
  | VolumeNameInUse ustr ustr

definition check_text :: "field \<Rightarrow> ustr \<Rightarrow> (ustr, InputError) result" where
  "check_text field value = (if 0 \<in> set value then Err (Nul field) else Ok value)"

text \<open>The characters of a name: letters, digits, \<open>.\<close>, \<open>_\<close> and \<open>-\<close>.\<close>

definition name_char :: "uchar \<Rightarrow> bool" where
  "name_char c \<longleftrightarrow> is_ascii_alphanumeric c \<or> c \<in> set (lit ''._-'')"

definition dot_segment :: "ustr \<Rightarrow> bool" where
  "dot_segment p \<longleftrightarrow> p = lit ''.'' \<or> p = lit ''..''"

definition parse_interface :: "field \<Rightarrow> ustr \<Rightarrow> (ustr, InputError) result" where
  "parse_interface field value =
     and_then (check_text field value) (\<lambda>_.
       if value \<noteq> [] \<and> str_len value \<le> INTERFACE_MAX_LEN \<and> list_all name_char value
          \<and> \<not> dot_segment value
       then Ok value else Err (InterfaceName field))"

definition path_control :: "uchar \<Rightarrow> bool" where
  "path_control c \<longleftrightarrow> is_control c \<or> c = 0xFFFE \<or> c = 0xFFFF"

definition path_parts :: "ustr \<Rightarrow> ustr list" where
  "path_parts value = filter (\<lambda>p. p \<noteq> []) (split_on 47 value)"

definition parse_path :: "field \<Rightarrow> ustr \<Rightarrow> (ustr, InputError) result" where
  "parse_path field value =
     and_then (check_text field value) (\<lambda>_.
       if value = [] then Err (Empty field)
       else if \<not> starts_with (lit ''/'') value then Err (PathNotAbsolute field)
       else if PATH_MAX_LEN < str_len value then Err (TooLong field (str_len value) PATH_MAX_LEN)
       else
         let parts = path_parts value in
         if list_ex dot_segment parts then Err (PathDotSegment field)
         else if list_ex path_control value then Err (PathControl field)
         else Ok (lit ''/'' @ join (lit ''/'') parts))"

definition host_char :: "uchar \<Rightarrow> bool" where
  "host_char c \<longleftrightarrow> is_ascii_alphanumeric c \<or> c \<in> set (lit ''.-:'')"

definition parse_host :: "field \<Rightarrow> ustr \<Rightarrow> (ustr, InputError) result" where
  "parse_host field value =
     and_then (check_text field value) (\<lambda>_.
       if value = [] then Err (Empty field)
       else if 253 < str_len value then Err (TooLong field (str_len value) 253)
       else if \<not> list_all host_char value \<or> starts_with (lit ''-'') value \<or> starts_with (lit ''.'') value
       then Err (HostSyntax field)
       else Ok value)"

datatype Name = Name (as_str: ustr)

definition Name_parse :: "field \<Rightarrow> ustr \<Rightarrow> (Name, InputError) result" where
  "Name_parse field value =
     and_then (check_text field value) (\<lambda>_.
       case value of
         [] \<Rightarrow> Err (Empty field)
       | first # chars \<Rightarrow>
           if \<not> is_ascii_alphanumeric first then Err (BadFirstChar field first)
           else (case find (\<lambda>c. \<not> name_char c) chars of
                   Some ch \<Rightarrow> Err (BadChar field ch)
                 | None \<Rightarrow>
                     if NAME_MAX_LEN < str_len value then Err (TooLong field (str_len value) NAME_MAX_LEN)
                     else Ok (Name value)))"

definition parse_subnet :: "ipnet \<Rightarrow> field \<Rightarrow> ustr \<Rightarrow> (ipv4net, InputError) result" where
  "parse_subnet N field value =
     and_then (check_text field value) (\<lambda>_.
     and_then (ok_or (SubnetSyntax field) (net_parse N value)) (\<lambda>net.
       if net_to_string N net \<noteq> value then Err (SubnetSyntax field)
       else if \<not> list_ex (\<lambda>range. net_contains N range net) PRIVATE_RANGES
       then Err (SubnetNotPrivate field)
       else if SUBNET_MAX_PREFIX < prefix_len net then Err (SubnetTooSmall field SUBNET_MAX_PREFIX)
       else if net_addr net \<noteq> net_network N net then Err (SubnetHostBits field (net_trunc N net))
       else Ok net))"

definition check_no_overlap ::
    "ipnet \<Rightarrow> field \<Rightarrow> ipv4net \<Rightarrow> (ustr \<times> ipv4net) list \<Rightarrow> (unit, InputError) result" where
  "check_no_overlap N field subnet existing =
     (case find (\<lambda>(_, other). net_contains_addr N subnet (net_network N other)
                             \<or> net_contains_addr N other (net_network N subnet)) existing of
        Some (name, other) \<Rightarrow> Err (SubnetOverlap field name other)
      | None \<Rightarrow> Ok ())"

section \<open>The contract of a string parser\<close>

definition nul_free :: "ustr \<Rightarrow> bool" where
  "nul_free s \<longleftrightarrow> 0 \<notin> set s"

lemma check_text_Ok [result_simps]: "check_text f v = Ok r \<longleftrightarrow> r = v \<and> nul_free v"
  by (auto simp: check_text_def nul_free_def)

lemma check_text_Err [result_simps]: "check_text f v = Err e \<longleftrightarrow> e = Nul f \<and> \<not> nul_free v"
  by (auto simp: check_text_def nul_free_def)

locale input_check =
  fixes parse :: "field \<Rightarrow> ustr \<Rightarrow> ('r, InputError) result"
    and text_of :: "'r \<Rightarrow> ustr"
  assumes nul_first: "\<not> nul_free v \<Longrightarrow> parse f v = Err (Nul f)"
    and ok_nul_free: "parse f v = Ok r \<Longrightarrow> nul_free (text_of r)"
    and stable: "parse f v = Ok r \<Longrightarrow> parse g (text_of r) = Ok r"
begin

lemma input_nul_free: "parse f v = Ok r \<Longrightarrow> nul_free v"
  using nul_first by fastforce

text \<open>The texts a parser returns are the texts it accepts unchanged, whatever the field is called.\<close>

lemma accepted_iff: "(\<exists>v f. parse f v = Ok r) \<longleftrightarrow> (\<forall>g. parse g (text_of r) = Ok r)"
  using stable by blast

lemma text_of_inject: "parse f v = Ok r \<Longrightarrow> parse g w = Ok s \<Longrightarrow> text_of r = text_of s \<Longrightarrow> r = s"
  using stable by (metis result.inject(1))

end

section \<open>Names, interfaces and hosts\<close>

lemma name_char_pos: "name_char c \<Longrightarrow> c \<noteq> 0 \<and> c < 0x80"
  by (auto simp: name_char_def is_ascii_alphanumeric_def is_digit_def lit_def)

lemma host_char_pos: "host_char c \<Longrightarrow> c \<noteq> 0 \<and> c < 0x80"
  by (auto simp: host_char_def is_ascii_alphanumeric_def is_digit_def lit_def)

lemma list_all_nul_free:
  assumes "list_all P s" and "\<And>c. P c \<Longrightarrow> c \<noteq> (0::nat) \<and> c < 0x80"
  shows "nul_free s" and "str_len s = length s"
  using assms str_len_ascii [of s] by (auto simp: nul_free_def list_all_iff)

lemma alphanumeric_name_char: "is_ascii_alphanumeric c \<Longrightarrow> name_char c"
  by (simp add: name_char_def)

lemma Name_parse_Ok:
  "Name_parse f v = Ok n \<longleftrightarrow>
     n = Name v \<and> v \<noteq> [] \<and> length v \<le> 64 \<and> is_ascii_alphanumeric (hd v) \<and> list_all name_char v"
proof (cases v)
  case (Cons c cs)
  have "list_all name_char v \<Longrightarrow> nul_free v \<and> str_len v = length v"
    using list_all_nul_free name_char_pos by blast
  moreover have "find (\<lambda>c. \<not> name_char c) cs = None \<longleftrightarrow> list_all name_char cs"
    by (auto simp: find_None_iff list_all_iff)
  ultimately show ?thesis
    using Cons
    by (auto simp: Name_parse_def result_simps NAME_MAX_LEN_def alphanumeric_name_char
        split: option.splits)
qed (simp add: Name_parse_def result_simps)

lemma parse_interface_Ok:
  "parse_interface f v = Ok r \<longleftrightarrow>
     r = v \<and> v \<noteq> [] \<and> length v \<le> 15 \<and> list_all name_char v \<and> \<not> dot_segment v"
  using list_all_nul_free [of name_char v] name_char_pos
  by (auto simp: parse_interface_def result_simps INTERFACE_MAX_LEN_def)

lemma parse_host_Ok:
  "parse_host f v = Ok r \<longleftrightarrow>
     r = v \<and> v \<noteq> [] \<and> length v \<le> 253 \<and> list_all host_char v \<and> hd v \<notin> {45, 46}"
  using list_all_nul_free [of host_char v] host_char_pos
  by (cases v) (auto simp: parse_host_def result_simps lit_def starts_with_def)

lemma nul_error:
  assumes "\<not> nul_free v"
  shows "Name_parse f v = Err (Nul f)" and "parse_interface f v = Err (Nul f)"
    and "parse_host f v = Err (Nul f)" and "parse_path f v = Err (Nul f)"
  using assms
  by (auto simp: Name_parse_def parse_interface_def parse_host_def parse_path_def check_text_def
      nul_free_def)

interpretation name: input_check Name_parse as_str
  by unfold_locales (auto simp: nul_error Name_parse_Ok list_all_nul_free(1) [OF _ name_char_pos])

interpretation interface: input_check parse_interface "\<lambda>r. r"
  by unfold_locales (auto simp: nul_error parse_interface_Ok list_all_nul_free(1) [OF _ name_char_pos])

interpretation host: input_check parse_host "\<lambda>r. r"
  by unfold_locales (auto simp: nul_error parse_host_Ok list_all_nul_free(1) [OF _ host_char_pos])

section \<open>Paths\<close>

text \<open>
  The plain form of an absolute path: one slash before each folder name, no empty name, no dot
  name, and no character that the source refuses.
\<close>

definition plain_path :: "ustr \<Rightarrow> bool" where
  "plain_path p \<longleftrightarrow>
     (\<exists>parts. p = lit ''/'' @ join (lit ''/'') parts \<and>
        (\<forall>q\<in>set parts. q \<noteq> [] \<and> 47 \<notin> set q \<and> \<not> dot_segment q))
     \<and> \<not> list_ex path_control p \<and> str_len p \<le> PATH_MAX_LEN"

lemma path_partsD: "q \<in> set (path_parts v) \<Longrightarrow> q \<noteq> [] \<and> 47 \<notin> set q \<and> set q \<subseteq> set v"
  using split_on_piece split_on_piece_subset by (fastforce simp: path_parts_def)

lemma str_len_join_filter:
  "str_len (join sep (filter P ps)) \<le> str_len (join sep ps)"
proof (induction ps)
  case (Cons p ps)
  show ?case
  proof (cases "filter P ps = []")
    case True
    then show ?thesis by (cases "ps = []") (auto simp: join_Cons)
  next
    case False
    then have "ps \<noteq> []" by auto
    with False Cons show ?thesis by (auto simp: join_Cons)
  qed
qed simp

lemma split_on_abs: "starts_with (lit ''/'') v \<Longrightarrow> split_on 47 v = [] # split_on 47 (tl v)"
  by (auto simp: starts_with_iff lit_def)

lemma path_parts_plain:
  assumes "\<And>q. q \<in> set ps \<Longrightarrow> q \<noteq> [] \<and> 47 \<notin> set q"
  shows "path_parts (lit ''/'' @ join (lit ''/'') ps) = ps"
proof -
  have "split_on 47 (lit ''/'' @ join (lit ''/'') ps) = [] # split_on 47 (join [47] ps)"
    by (simp add: lit_def)
  moreover have "filter (\<lambda>p. p \<noteq> []) (split_on 47 (join [47] ps)) = ps"
    using assms by (cases "ps = []") (auto simp: split_on_join intro: filter_True)
  ultimately show ?thesis by (simp add: path_parts_def)
qed

lemma str_len_plain:
  assumes "starts_with (lit ''/'') v"
  shows "str_len (lit ''/'' @ join (lit ''/'') (path_parts v)) \<le> str_len v"
proof -
  have v: "v = 47 # tl v"
    using assms by (auto simp: starts_with_iff lit_def)
  have "str_len (join [47] (path_parts v)) \<le> str_len (join [47] (split_on 47 (tl v)))"
    using str_len_join_filter [of "[47]" _ "split_on 47 (tl v)"]
    by (simp add: path_parts_def split_on_abs [OF assms])
  then have "str_len (47 # join [47] (path_parts v)) \<le> str_len (47 # tl v)"
    by (simp add: join_split_on)
  with v show ?thesis by (simp add: lit_def)
qed

lemma parse_path_Ok:
  "parse_path f v = Ok p \<longleftrightarrow>
     starts_with (lit ''/'') v \<and> nul_free v \<and> str_len v \<le> PATH_MAX_LEN \<and>
     \<not> list_ex dot_segment (path_parts v) \<and> \<not> list_ex path_control v \<and>
     p = lit ''/'' @ join (lit ''/'') (path_parts v)"
  by (cases "v = []")
    (auto simp: parse_path_def result_simps Let_def starts_with_def lit_def split: if_splits)

lemma set_plain: "starts_with (lit ''/'') v \<Longrightarrow>
    set (lit ''/'' @ join (lit ''/'') (path_parts v)) \<subseteq> set v"
  using set_join [of "lit ''/''" "path_parts v"] path_partsD [of _ v]
  by (fastforce simp: lit_def starts_with_iff)

lemma parse_path_plain:
  assumes "parse_path f v = Ok p"
  shows "plain_path p \<and> path_parts p = path_parts v"
proof -
  have v: "starts_with (lit ''/'') v" "str_len v \<le> PATH_MAX_LEN"
      "\<not> list_ex dot_segment (path_parts v)" "\<not> list_ex path_control v"
    and p: "p = lit ''/'' @ join (lit ''/'') (path_parts v)"
    using assms by (auto simp: parse_path_Ok)
  have "\<forall>q\<in>set (path_parts v). q \<noteq> [] \<and> 47 \<notin> set q \<and> \<not> dot_segment q"
    using path_partsD [of _ v] v(3) by (auto simp: list_ex_iff)
  moreover have "str_len p \<le> PATH_MAX_LEN"
    using str_len_plain [OF v(1)] v(2) by (simp add: p)
  moreover have "\<not> list_ex path_control p"
    using set_plain [OF v(1)] v(4) by (auto simp: p list_ex_iff)
  ultimately have "plain_path p"
    unfolding plain_path_def using p by blast
  moreover have "path_parts p = path_parts v"
    unfolding p using path_partsD [of _ v] by (intro path_parts_plain) blast
  ultimately show ?thesis by blast
qed

lemma path_control_0 [simp]: "path_control 0"
  by (simp add: path_control_def is_control_def)

lemma plain_path_fixed: "plain_path p \<Longrightarrow> parse_path f p = Ok p"
  unfolding parse_path_Ok plain_path_def
  by (auto simp: path_parts_plain nul_free_def list_ex_iff)

interpretation path: input_check parse_path "\<lambda>r. r"
proof unfold_locales
  fix f v p
  assume "parse_path f v = Ok p"
  then have "plain_path p"
    using parse_path_plain by blast
  then show "parse_path g p = Ok p" for g
    by (rule plain_path_fixed)
  then show "nul_free p"
    by (simp add: parse_path_Ok)
qed (simp add: nul_error)

section \<open>Subnets\<close>

lemma parse_subnet_Ok:
  "parse_subnet N f v = Ok n \<longleftrightarrow>
     nul_free v \<and> net_parse N v = Some n \<and> net_to_string N n = v \<and>
     (\<exists>r\<in>set PRIVATE_RANGES. net_contains N r n) \<and> prefix_len n \<le> 30 \<and> net_addr n = net_network N n"
  by (auto simp: parse_subnet_def result_simps SUBNET_MAX_PREFIX_def list_ex_iff split: if_splits)

lemma parse_subnet_HostBits:
  "parse_subnet N f v = Err (SubnetHostBits g m) \<longleftrightarrow>
     g = f \<and> nul_free v \<and> (\<exists>n. net_parse N v = Some n \<and> net_to_string N n = v \<and>
       (\<exists>r\<in>set PRIVATE_RANGES. net_contains N r n) \<and> prefix_len n \<le> 30 \<and>
       net_addr n \<noteq> net_network N n \<and> m = net_trunc N n)"
  by (auto simp: parse_subnet_def result_simps SUBNET_MAX_PREFIX_def list_ex_iff
      split: if_splits option.splits)

text \<open>The network of a truncated network is itself, and so are its addresses.\<close>

lemma trunc_bounds:
  assumes N: "ipnet_laws N" and p: "prefix_len n \<le> 32"
  shows "net_network N (net_trunc N n) = net_network N n"
    and "net_broadcast N (net_trunc N n) = net_broadcast N n"
    and "net_addr (net_trunc N n) = net_network N n"
    and "prefix_len (net_trunc N n) = prefix_len n"
proof -
  let ?h = "hostmask (prefix_len n)"
  have trunc: "net_trunc N n = Ipv4Net (net_network N n) (prefix_len n)"
    using N p by (rule ipnet_lawsD)
  have "(net_addr n AND NOT ?h) AND NOT ?h = net_addr n AND NOT ?h"
    by (simp add: and.assoc)
  moreover have "(net_addr n AND NOT ?h) OR ?h = net_addr n OR ?h"
    by (rule bit_word_eqI) (auto simp: bit_simps)
  ultimately show "net_network N (net_trunc N n) = net_network N n"
    and "net_broadcast N (net_trunc N n) = net_broadcast N n"
    and "net_addr (net_trunc N n) = net_network N n"
    and "prefix_len (net_trunc N n) = prefix_len n"
    using p by (simp_all add: trunc ipnet_lawsD(1,2) [OF N])
qed

definition overlapping :: "ipnet \<Rightarrow> ipv4net \<Rightarrow> ipv4net \<Rightarrow> bool" where
  "overlapping N n m \<longleftrightarrow> addresses N n \<inter> addresses N m \<noteq> {}"

lemma check_no_overlap_find:
  assumes "ipnet_laws N" and "prefix_len n \<le> 32" and "\<forall>(_, m)\<in>set existing. prefix_len m \<le> 32"
  shows "check_no_overlap N f n existing =
    (case find (\<lambda>(_, m). overlapping N n m) existing of
       Some (name, m) \<Rightarrow> Err (SubnetOverlap f name m) | None \<Rightarrow> Ok ())"
proof -
  have "find (\<lambda>(_, m). net_contains_addr N n (net_network N m) \<or> net_contains_addr N m (net_network N n)) existing
      = find (\<lambda>(_, m). overlapping N n m) existing"
    using assms(3) networks_meet [OF assms(1,2)] unfolding overlapping_def by (intro find_cong) blast+
  then show ?thesis by (simp add: check_no_overlap_def)
qed

section \<open>Properties\<close>

text \<open>
  C15: \<^verbatim>\<open>check_no_overlap\<close> accepts a subnet exactly if it shares no address with any existing one.
\<close>

theorem check_no_overlap_exact:
  assumes "ipnet_laws N" and "prefix_len n \<le> 32" and "\<forall>(_, m)\<in>set existing. prefix_len m \<le> 32"
  shows "check_no_overlap N f n existing = Ok () \<longleftrightarrow>
    (\<forall>(_, m)\<in>set existing. addresses N n \<inter> addresses N m = {})"
  using check_no_overlap_find [OF assms, of f]
  by (force simp: overlapping_def find_None_iff dest: find_SomeD split: option.splits)

text \<open>
  \<^verbatim>\<open>parse_subnet\<close> returns only networks in one of the three private ranges, in canonical text,
  without host bits and with room for a gateway and a VM; all addresses of such a network are
  private.
\<close>

theorem parse_subnet_sound:
  assumes "ipnet_laws N" and "parse_subnet N f v = Ok n"
  shows "net_to_string N n = v \<and> net_addr n = net_network N n \<and> prefix_len n \<le> 30 \<and>
    (\<exists>r\<in>set PRIVATE_RANGES. addresses N n \<subseteq> addresses N r)"
  using assms net_contains_addresses [of N] by (auto simp: parse_subnet_Ok)

text \<open>
  The network that a \<^verbatim>\<open>SubnetHostBits\<close> error suggests is accepted by \<^verbatim>\<open>parse_subnet\<close> when its
  text is typed in.
\<close>

theorem parse_subnet_suggestion:
  assumes N: "ipnet_laws N" and e: "parse_subnet N f v = Err (SubnetHostBits g m)"
  shows "parse_subnet N f (net_to_string N m) = Ok m"
proof -
  from e obtain n r where n: "prefix_len n \<le> 30" "m = net_trunc N n"
      and r: "r \<in> set PRIVATE_RANGES" "net_contains N r n"
    by (auto simp: parse_subnet_HostBits)
  then have bounds: "net_network N m = net_network N n" "net_broadcast N m = net_broadcast N n"
      "net_addr m = net_network N n" "prefix_len m = prefix_len n"
    using trunc_bounds [OF N, of n] by auto
  moreover have "net_contains N r m"
    using r(2) bounds by (simp add: ipnet_lawsD(6) [OF N])
  moreover have "net_parse N (net_to_string N m) = Some m"
    using n bounds(4) by (intro ipnet_lawsD(4) [OF N]) simp
  moreover have "nul_free (net_to_string N m)"
    using n bounds(4) by (simp add: nul_free_def ipnet_lawsD(8) [OF N])
  ultimately show ?thesis
    using n r(1) by (auto simp: parse_subnet_Ok)
qed

text \<open>
  \<^verbatim>\<open>Name::parse\<close> accepts exactly the texts of 1 to 64 ASCII letters, digits, dots, underscores
  and hyphens that start with a letter or a digit, and returns them unchanged.
\<close>

theorem Name_parse_exact:
  "Name_parse f v = Ok n \<longleftrightarrow>
     n = Name v \<and> v \<noteq> [] \<and> length v \<le> 64 \<and> is_ascii_alphanumeric (hd v) \<and>
     list_all (\<lambda>c. is_ascii_alphanumeric c \<or> c = 46 \<or> c = 95 \<or> c = 45) v"
  unfolding Name_parse_Ok name_char_def by (simp add: lit_def)

text \<open>
  \<^verbatim>\<open>parse_path\<close> returns the plain form of the path, with the same folder names in the same
  order, and accepts its own result unchanged.
\<close>

theorem parse_path_normalises:
  assumes "parse_path f v = Ok p"
  shows "plain_path p \<and> path_parts p = path_parts v \<and> nul_free p \<and> parse_path g p = Ok p"
  using parse_path_plain [OF assms] path.ok_nul_free [OF assms] path.stable [OF assms] by blast

theorem check_no_overlap_exact_witness:
  "check_no_overlap cidr ''subnet'' (Ipv4Net 0xC0A89600 24) [(lit ''default'', Ipv4Net 0xC0A87A00 24)] = Ok () \<longleftrightarrow>
    (\<forall>(_, m)\<in>set [(lit ''default'', Ipv4Net 0xC0A87A00 24)].
       addresses cidr (Ipv4Net 0xC0A89600 24) \<inter> addresses cidr m = {})"
  using check_no_overlap_exact [OF cidr_laws, of "Ipv4Net 0xC0A89600 24"
      "[(lit ''default'', Ipv4Net 0xC0A87A00 24)]" "''subnet''"] by simp

text \<open>The parts of the example subnet, each evaluated once.\<close>

lemma example_text:
  "net_to_string cidr (Ipv4Net 0xC0A89600 24) = lit ''192.168.150.0/24''"
  "net_to_string cidr (Ipv4Net 0xC0A89607 24) = lit ''192.168.150.7/24''"
  by (simp_all add: cidr_def ipv4_to_string_def octets_def lit_def dec.simps)

lemma example_parse:
  "net_parse cidr (lit ''192.168.150.0/24'') = Some (Ipv4Net 0xC0A89600 24)"
  "net_parse cidr (lit ''192.168.150.7/24'') = Some (Ipv4Net 0xC0A89607 24)"
  using cidr_parse_to_string [of "Ipv4Net 0xC0A89600 24"] cidr_parse_to_string [of "Ipv4Net 0xC0A89607 24"]
  unfolding example_text by (simp_all add: cidr_def)

lemma example_checked:
  "check_text f (lit ''192.168.150.0/24'') = Ok (lit ''192.168.150.0/24'')"
  "check_text f (lit ''192.168.150.7/24'') = Ok (lit ''192.168.150.7/24'')"
  by (simp_all add: check_text_def lit_def)

lemma example_masks:
  "net_network cidr (Ipv4Net 0xC0A89600 24) = 0xC0A89600"
  "net_network cidr (Ipv4Net 0xC0A89607 24) = 0xC0A89600"
  "net_trunc cidr (Ipv4Net 0xC0A89607 24) = Ipv4Net 0xC0A89600 24"
  "list_ex (\<lambda>range. net_contains cidr range (Ipv4Net 0xC0A89600 24)) PRIVATE_RANGES"
  "list_ex (\<lambda>range. net_contains cidr range (Ipv4Net 0xC0A89607 24)) PRIVATE_RANGES"
  by (simp_all add: cidr_def hostmask_def PRIVATE_RANGES_def ipv4_new_def mask_eq_exp_minus_1)

lemmas example_subnet_simps = example_checked example_parse example_text example_masks SUBNET_MAX_PREFIX_def ok_or_def

lemma subnet_example:
  "parse_subnet cidr f (lit ''192.168.150.0/24'') = Ok (Ipv4Net 0xC0A89600 24)"
  by (simp add: parse_subnet_def example_subnet_simps)

lemma host_bits_example:
  "parse_subnet cidr f (lit ''192.168.150.7/24'') = Err (SubnetHostBits f (Ipv4Net 0xC0A89600 24))"
  by (simp add: parse_subnet_def example_subnet_simps)

lemma path_example: "parse_path ''path'' (lit ''//srv//images/'') = Ok (lit ''/srv/images'')"
  by code_simp

theorem parse_subnet_sound_witness:
  "\<exists>r\<in>set PRIVATE_RANGES. addresses cidr (Ipv4Net 0xC0A89600 24) \<subseteq> addresses cidr r"
  using parse_subnet_sound [OF cidr_laws subnet_example] by blast

theorem parse_subnet_suggestion_witness:
  "parse_subnet cidr ''subnet'' (net_to_string cidr (Ipv4Net 0xC0A89600 24)) = Ok (Ipv4Net 0xC0A89600 24)"
  by (rule parse_subnet_suggestion [OF cidr_laws host_bits_example])

theorem parse_path_normalises_witness:
  "plain_path (lit ''/srv/images'') \<and> path_parts (lit ''/srv/images'') = [lit ''srv'', lit ''images'']"
proof -
  have "path_parts (lit ''//srv//images/'') = [lit ''srv'', lit ''images'']"
    by code_simp
  then show ?thesis
    using parse_path_normalises [OF path_example, of "''path''"] by simp
qed

end
