(* ===== verification/Throttle.thy ===== *)
theory Throttle
  imports Validate
begin

text \<open>
  \<^verbatim>\<open>lodger/src/throttle.rs\<close>: login throttling. Instants and durations are milliseconds, and the
  difference of two instants saturates at zero, as \<^verbatim>\<open>Instant::duration_since\<close> does. The mutex makes
  \<open>begin\<close> and \<open>succeed\<close> atomic, so a run is a sequence of them. Unicode lower-casing of the
  account name is the parameter \<open>lower\<close>.
\<close>

unbundle bit_operations_syntax

section \<open>Model\<close>

type_synonym instant = nat
type_synonym duration = nat

definition secs :: "nat \<Rightarrow> duration" where
  "secs n = n * 1000"

definition FREE_FAILURES :: nat where
  "FREE_FAILURES = 5"

definition WINDOW :: duration where
  "WINDOW = secs (15 * 60)"

definition MAX_DELAY :: duration where
  "MAX_DELAY = secs 60"

definition MAX_KEYS :: nat where
  "MAX_KEYS = 10000"

definition USIZE_MAX :: nat where
  "USIZE_MAX = 2 ^ 64 - 1"

record Entry =
  times :: "instant list"
  next_start :: "instant option"

definition entry_default :: Entry where
  "entry_default = \<lparr>times = [], next_start = None\<rparr>"

type_synonym 'k counts = "('k, Entry) hmap"

text \<open>Whether an entry still matters: its last attempt is in the window, or its next start is ahead.\<close>

definition entry_kept :: "instant \<Rightarrow> Entry \<Rightarrow> bool" where
  "entry_kept now e \<longleftrightarrow>
     (times e \<noteq> [] \<and> now - last (times e) < WINDOW) \<or> (case next_start e of None \<Rightarrow> False | Some t \<Rightarrow> t > now)"

definition prune :: "instant \<Rightarrow> Entry \<Rightarrow> Entry" where
  "prune now e = e\<lparr>times := dropWhile (\<lambda>t. now - t \<ge> WINDOW) (times e)\<rparr>"

definition counts_entry :: "'k counts \<Rightarrow> 'k \<Rightarrow> instant \<Rightarrow> 'k counts \<times> Entry option" where
  "counts_entry m key now =
     (let m1 = (if hm_len m \<ge> MAX_KEYS \<and> hm_get m key = None then hm_retain (\<lambda>_ e. entry_kept now e) m else m) in
      if hm_len m1 \<ge> MAX_KEYS \<and> hm_get m key = None then (m1, None)
      else
        let e = prune now (case hm_get m1 key of Some e \<Rightarrow> e | None \<Rightarrow> entry_default) in
        (hm_insert key e m1, Some e))"

datatype ipaddr = V4 u32 | V6 "128 word"

text \<open>\<^verbatim>\<open>IpAddr::to_canonical\<close>: an IPv4-mapped IPv6 address is the IPv4 address.\<close>

definition to_canonical :: "ipaddr \<Rightarrow> ipaddr" where
  "to_canonical a = (case a of V4 w \<Rightarrow> V4 w
     | V6 w \<Rightarrow> if drop_bit 32 w = 0xFFFF then V4 (ucast w) else V6 w)"

definition ip_key :: "ipaddr \<Rightarrow> ipaddr" where
  "ip_key a = (case to_canonical a of V6 w \<Rightarrow> V6 (w AND NOT (mask 64)) | V4 w \<Rightarrow> V4 w)"

definition account_key :: "(ustr \<Rightarrow> ustr) \<Rightarrow> ustr \<Rightarrow> ustr" where
  "account_key lower account = lower (take NAME_MAX_LEN account)"

definition delay_for :: "nat \<Rightarrow> duration" where
  "delay_for failures =
     (if failures < FREE_FAILURES then 0
      else let exponent = min (if failures - FREE_FAILURES < 2 ^ 32 then failures - FREE_FAILURES else 2 ^ 32 - 1) 6
        in min (secs (2 ^ exponent)) MAX_DELAY)"

record Counters =
  c_accounts :: "ustr counts"
  c_ips :: "ipaddr counts"

record Attempt =
  wait :: duration
  failures :: nat
  at :: instant

definition throttle_begin ::
    "(ustr \<Rightarrow> ustr) \<Rightarrow> ustr \<Rightarrow> ipaddr \<Rightarrow> instant \<Rightarrow> Counters \<Rightarrow> (Attempt, duration) result \<times> Counters" where
  "throttle_begin lower account ip now c =
     (let akey = account_key lower account;
          ikey = ip_key ip;
          (accs, aentry) = counts_entry (c_accounts c) akey now;
          (ips, ientry) = counts_entry (c_ips c) ikey now;
          fs = (case (aentry, ientry) of
                  (Some a, Some i) \<Rightarrow> max (length (times a)) (length (times i))
                | _ \<Rightarrow> USIZE_MAX);
          start0 = now + delay_for fs;
          start = (case ientry of
                     None \<Rightarrow> start0
                   | Some e \<Rightarrow> (case next_start e of None \<Rightarrow> start0 | Some n \<Rightarrow> max start0 n));
          attempt = \<lparr>wait = start - now, failures = min fs MAX_KEYS, at = now\<rparr>;
          push = (\<lambda>e. e\<lparr>times := times e @ [now]\<rparr>)
      in
      if ientry \<noteq> None \<and> start - now > MAX_DELAY
      then (Err (start - now), \<lparr>c_accounts = accs, c_ips = ips\<rparr>)
      else
        let ips' = (case ientry of
                      None \<Rightarrow> ips
                    | Some e \<Rightarrow>
                        (let e' = push e
                         in hm_insert ikey (e'\<lparr>next_start := Some (start + delay_for (length (times e')))\<rparr>) ips));
            accs' = (case hm_get accs akey of None \<Rightarrow> accs | Some e \<Rightarrow> hm_insert akey (push e) accs)
        in (Ok attempt, \<lparr>c_accounts = accs', c_ips = ips'\<rparr>))"

definition throttle_succeed ::
    "(ustr \<Rightarrow> ustr) \<Rightarrow> ustr \<Rightarrow> ipaddr \<Rightarrow> Attempt \<Rightarrow> Counters \<Rightarrow> Counters" where
  "throttle_succeed lower account ip attempt c =
     c\<lparr>c_accounts := hm_remove (account_key lower account) (c_accounts c),
       c_ips := (case hm_get (c_ips c) (ip_key ip) of
                   None \<Rightarrow> c_ips c
                 | Some e \<Rightarrow>
                     if at attempt \<in> set (times e)
                     then hm_insert (ip_key ip) (e\<lparr>times := remove1 (at attempt) (times e)\<rparr>) (c_ips c)
                     else c_ips c)\<rparr>"

definition throttle_new :: Counters where
  "throttle_new = \<lparr>c_accounts = [], c_ips = []\<rparr>"

section \<open>Counting\<close>

lemma delay_for_bound: "delay_for n \<le> MAX_DELAY"
  by (simp add: delay_for_def Let_def)

lemma delay_for_mono: "m \<le> n \<Longrightarrow> delay_for m \<le> delay_for n"
proof -
  assume "m \<le> n"
  then have "min (m - 5) 6 \<le> min (n - 5) (6::nat)" by linarith
  then have "(2::nat) ^ min (m - 5) 6 \<le> 2 ^ min (n - 5) 6"
    by (intro power_increasing) auto
  moreover have "min (if k - 5 < 2 ^ 32 then k - 5 else 2 ^ 32 - 1) 6 = min (k - 5) 6" for k :: nat
    by simp
  ultimately show ?thesis
    using \<open>m \<le> n\<close> unfolding delay_for_def FREE_FAILURES_def secs_def Let_def
    by (auto simp del: power_increasing_iff intro!: min.mono)
qed

lemma dropWhile_filter_le: "length (filter (\<lambda>t. \<not> P t) xs) \<le> length (dropWhile P xs)"
  by (induction xs) (auto intro: le_SucI order_trans [OF length_filter_le])

text \<open>A map of counts is well formed and holds at most \<^verbatim>\<open>MAX_KEYS\<close> keys.\<close>

definition counts_wf :: "'k counts \<Rightarrow> bool" where
  "counts_wf m \<longleftrightarrow> hm_wf m \<and> hm_len m \<le> MAX_KEYS"

lemma counts_entry_wf: "counts_wf m \<Longrightarrow> counts_wf (fst (counts_entry m k now))"
  using hm.len_retain [of "\<lambda>_ e. entry_kept now e" m]
  by (auto simp: counts_wf_def counts_entry_def Let_def hm.len_insert
      intro!: hm.wf_intros split: option.splits)

lemma counts_entry_Some:
  assumes "counts_entry m k now = (m', Some e)"
  shows "hm_get m' k = Some e"
    and "hm_get m k = Some e0 \<Longrightarrow> e = prune now e0"
  using assms by (auto simp: counts_entry_def Let_def hm_simps split: if_splits)

lemma counts_entry_present: "hm_get m k = Some e \<Longrightarrow> snd (counts_entry m k now) = Some (prune now e)"
  by (simp add: counts_entry_def Let_def)

lemma counts_entry_None:
  assumes "counts_entry m k now = (m', None)" and "hm_wf m"
  shows "hm_get m k = None" and "hm_get m' k = None"
  using assms by (auto simp: counts_entry_def Let_def hm.get_retain split: if_splits)

text \<open>Looking up one key keeps another key's entry, or drops an entry that no longer matters.\<close>

lemma counts_entry_other:
  assumes "hm_wf m" and "k' \<noteq> k"
  shows "hm_get (fst (counts_entry m k now)) k' = hm_get m k' \<or>
    (hm_get (fst (counts_entry m k now)) k' = None \<and> (\<exists>e. hm_get m k' = Some e \<and> \<not> entry_kept now e))"
  using assms
  by (auto simp: counts_entry_def Let_def hm_simps hm.get_retain split: option.splits)

lemma counts_wf_insert: "counts_wf m \<Longrightarrow> hm_get m k \<noteq> None \<Longrightarrow> counts_wf (hm_insert k e m)"
  by (auto simp: counts_wf_def intro: hm.wf_intros hm.insert_present_bound)

section \<open>Runs\<close>

datatype throttle_op = Begin ustr ipaddr instant | Succeed ustr ipaddr Attempt

fun throttle_step :: "(ustr \<Rightarrow> ustr) \<Rightarrow> throttle_op \<Rightarrow> Counters \<Rightarrow> Counters" where
  "throttle_step lower (Begin account ip now) c = snd (throttle_begin lower account ip now c)"
| "throttle_step lower (Succeed account ip a) c = throttle_succeed lower account ip a c"

definition counters_wf :: "Counters \<Rightarrow> bool" where
  "counters_wf c \<longleftrightarrow> counts_wf (c_accounts c) \<and> counts_wf (c_ips c)"

text \<open>The two maps that a turn leaves behind, and its answer.\<close>

lemma begin_cases:
  assumes "throttle_begin lower account ip now c = (r, c')"
  obtains (refused) w accs ips a i where
      "counts_entry (c_accounts c) (account_key lower account) now = (accs, a)"
      "counts_entry (c_ips c) (ip_key ip) now = (ips, Some i)"
      "r = Err w" "w > MAX_DELAY" "c' = \<lparr>c_accounts = accs, c_ips = ips\<rparr>"
  | (turn) accs ips a i start where
      "counts_entry (c_accounts c) (account_key lower account) now = (accs, a)"
      "counts_entry (c_ips c) (ip_key ip) now = (ips, i)"
      "r = Ok \<lparr>wait = start - now, failures = min (case (a, i) of
         (Some a, Some i) \<Rightarrow> max (length (times a)) (length (times i)) | _ \<Rightarrow> USIZE_MAX) MAX_KEYS, at = now\<rparr>"
      "i \<noteq> None \<longrightarrow> start - now \<le> MAX_DELAY"
      "start = max (now + delay_for (case (a, i) of
         (Some a, Some i) \<Rightarrow> max (length (times a)) (length (times i)) | _ \<Rightarrow> USIZE_MAX))
         (case i of None \<Rightarrow> 0 | Some e \<Rightarrow> (case next_start e of None \<Rightarrow> 0 | Some n \<Rightarrow> n))"
      "c_ips c' = (case i of None \<Rightarrow> ips | Some e \<Rightarrow>
         hm_insert (ip_key ip) (e\<lparr>times := times e @ [now],
           next_start := Some (start + delay_for (Suc (length (times e))))\<rparr>) ips)"
      "c_accounts c' = (case hm_get accs (account_key lower account) of None \<Rightarrow> accs
         | Some e \<Rightarrow> hm_insert (account_key lower account) (e\<lparr>times := times e @ [now]\<rparr>) accs)"
proof -
  obtain accs a where A: "counts_entry (c_accounts c) (account_key lower account) now = (accs, a)" by fastforce
  obtain ips i where I: "counts_entry (c_ips c) (ip_key ip) now = (ips, i)" by fastforce
  define fs where "fs = (case a of None \<Rightarrow> USIZE_MAX | Some a \<Rightarrow> case i of None \<Rightarrow> USIZE_MAX | Some i \<Rightarrow> max (length (times a)) (length (times i)))"
  define start where "start = max (now + delay_for fs)
    (case i of None \<Rightarrow> 0 | Some e \<Rightarrow> (case next_start e of None \<Rightarrow> 0 | Some n \<Rightarrow> n))"
  have start': "(case i of None \<Rightarrow> now + delay_for fs | Some e \<Rightarrow>
      (case next_start e of None \<Rightarrow> now + delay_for fs | Some n \<Rightarrow> max (now + delay_for fs) n)) = start"
    by (simp add: start_def split: option.split)
  note b = assms [unfolded throttle_begin_def Let_def A I prod.case, folded fs_def, unfolded start']
  show thesis
  proof (cases "i \<noteq> None \<and> start - now > MAX_DELAY")
    case True
    then obtain e where e: "i = Some e" by blast
    with b True show thesis
      by (intro refused [OF A I [unfolded e], of "start - now"]) simp_all
  next
    case False
    note r = b [unfolded if_not_P [OF False] prod.inject, THEN conjunct1, symmetric]
      and c' = b [unfolded if_not_P [OF False] prod.inject, THEN conjunct2, symmetric]
    show thesis
      by (rule turn [OF A I, of start]) (use False in \<open>auto simp: r c' fs_def start_def split: option.split\<close>)
  qed
qed

text \<open>A new throttle refuses nobody.\<close>

lemma throttle_new_lets: "\<exists>slot. fst (throttle_begin lower account ip now throttle_new) = Ok slot"
  by (simp add: throttle_begin_def counts_entry_def throttle_new_def Let_def hm_len_def hm_get_def entry_default_def prune_def
      MAX_KEYS_def MAX_DELAY_def delay_for_def)

lemma begin_wf: "counters_wf c \<Longrightarrow> counters_wf (snd (throttle_begin lower account ip now c))"
proof -
  assume wf: "counters_wf c"
  obtain r c' where b: "throttle_begin lower account ip now c = (r, c')"
    by (cases "throttle_begin lower account ip now c")
  have kept: "counts_wf (fst (counts_entry (c_accounts c) k now))" "counts_wf (fst (counts_entry (c_ips c) k' now))" for k k'
    using wf by (simp_all add: counters_wf_def counts_entry_wf)
  from b have "counters_wf c'"
  proof (cases rule: begin_cases)
    case (refused w accs ips a i)
    then show ?thesis
      using kept(1) [of "account_key lower account"] kept(2) [of "ip_key ip"] by (simp add: counters_wf_def)
  next
    case (turn accs ips a i start)
    have wfs: "counts_wf accs" "counts_wf ips"
      using kept(1) [of "account_key lower account"] kept(2) [of "ip_key ip"] turn(1,2) by simp_all
    have "counts_wf (c_ips c')"
      using wfs(2) turn(2) by (cases i) (simp_all add: turn(6) counts_wf_insert counts_entry_Some(1))
    moreover have "counts_wf (c_accounts c')"
      using wfs(1) by (simp add: turn(7) counts_wf_insert split: option.split)
    ultimately show ?thesis by (simp add: counters_wf_def)
  qed
  with b show ?thesis by simp
qed

lemma succeed_wf: "counters_wf c \<Longrightarrow> counters_wf (throttle_succeed lower account ip a c)"
  using hm.len_remove [of "account_key lower account" "c_accounts c"]
  by (auto simp: counters_wf_def throttle_succeed_def counts_wf_def hm.len_insert
      intro!: hm.wf_intros split: option.splits)

lemma step_wf: "counters_wf c \<Longrightarrow> counters_wf (throttle_step lower op c)"
  by (cases op) (auto intro: begin_wf succeed_wf)

interpretation throttle_run: kept_invariant "throttle_step lower" counters_wf for lower
  by unfold_locales (rule step_wf)

section \<open>The queue of an IP\<close>

text \<open>
  The clock runs forward: \<open>clock_after T ops\<close> is the time after the operations, or \<open>None\<close> if one of
  them reads an earlier time than the one before it.
\<close>

fun clock_after :: "instant \<Rightarrow> throttle_op list \<Rightarrow> instant option" where
  "clock_after T [] = Some T"
| "clock_after T (Begin account ip now # ops) = (if T \<le> now then clock_after now ops else None)"
| "clock_after T (Succeed account ip a # ops) = clock_after T ops"

text \<open>The key may not start before \<open>n\<close>: its entry says so, or \<open>n\<close> has passed.\<close>

definition held_until :: "ipaddr \<Rightarrow> instant \<Rightarrow> instant \<Rightarrow> Counters \<Rightarrow> bool" where
  "held_until k n T c \<longleftrightarrow>
     n \<le> T \<or> (\<exists>e m. hm_get (c_ips c) k = Some e \<and> next_start e = Some m \<and> n \<le> m)"

lemma prune_next [simp]: "next_start (prune now e) = next_start e"
  by (simp add: prune_def)

lemma counts_entry_held:
  assumes "hm_wf m" and "hm_get m k' = Some e" and "next_start e = Some x" and "now < x"
  shows "\<exists>e'. hm_get (fst (counts_entry m k now)) k' = Some e' \<and> next_start e' = Some x"
proof (cases "k' = k")
  case True
  then show ?thesis
    using assms by (auto simp: counts_entry_def Let_def hm_simps)
next
  case False
  then show ?thesis
    using counts_entry_other [OF assms(1), of k' k now] assms by (auto simp: entry_kept_def)
qed

lemma begin_held:
  assumes "counters_wf c" and "held_until k n T c" and "T \<le> now"
  shows "held_until k n now (snd (throttle_begin lower account ip now c))"
proof (cases "n \<le> now")
  case False
  then obtain e x where e: "hm_get (c_ips c) k = Some e" "next_start e = Some x" "now < x" "n \<le> x"
    using assms(2,3) by (auto simp: held_until_def)
  have "hm_wf (c_ips c)"
    using assms(1) by (simp add: counters_wf_def counts_wf_def)
  from counts_entry_held [OF this e(1-3), of "ip_key ip"] obtain e' where
    e': "hm_get (fst (counts_entry (c_ips c) (ip_key ip) now)) k = Some e'" "next_start e' = Some x"
    by blast
  obtain r c' where b: "throttle_begin lower account ip now c = (r, c')"
    by (cases "throttle_begin lower account ip now c")
  from b have "held_until k n now c'"
  proof (cases rule: begin_cases)
    case refused
    with e' e(4) show ?thesis by (auto simp: held_until_def)
  next
    case (turn accs ips a i start)
    have ips: "hm_get ips k = Some e'" using e'(1) turn(2) by simp
    show ?thesis
    proof (cases "ip_key ip = k")
      case True
      have "i = Some e'"
        using turn(2) ips counts_entry_Some(1) [of "c_ips c"] counts_entry_None(2) [OF _ \<open>hm_wf (c_ips c)\<close>] True
        by (cases i) force+
      then have "hm_get (c_ips c') k = Some (e'\<lparr>times := times e' @ [now], next_start := Some (start + delay_for (Suc (length (times e'))))\<rparr>)"
        and "x \<le> start"
        using True turn(5,6) e'(2) by (simp_all add: hm_simps)
      with e(4) show ?thesis by (simp add: held_until_def)
    next
      case False
      then have "hm_get (c_ips c') k = Some e'"
        using ips turn(6) by (cases i) (simp_all add: hm_simps)
      with e'(2) e(4) show ?thesis by (simp add: held_until_def)
    qed
  qed
  with b show ?thesis by simp
qed (simp add: held_until_def)

lemma succeed_held: "held_until k n T c \<Longrightarrow> held_until k n T (throttle_succeed lower account ip a c)"
  by (auto simp: held_until_def throttle_succeed_def hm_simps split: option.splits)

lemma run_held:
  "counters_wf c \<Longrightarrow> held_until k n T c \<Longrightarrow> clock_after T ops = Some T' \<Longrightarrow>
   held_until k n T' (fold (throttle_step lower) ops c)"
proof (induction T ops arbitrary: c rule: clock_after.induct)
  case (2 T account ip now ops)
  then show ?case
    using begin_held begin_wf by (auto split: if_splits)
next
  case (3 T account ip a ops)
  then show ?case
    using succeed_held succeed_wf by auto
qed auto

lemma begin_starts_after:
  assumes "counters_wf c" and "held_until (ip_key ip) n now c"
    and "throttle_begin lower account ip now c = (Ok a, c')"
  shows "n \<le> now + wait a"
  using assms(3)
proof (cases rule: begin_cases)
  case (turn accs ips ae i start)
  show ?thesis
  proof (cases "n \<le> now")
    case False
    then obtain e x where e: "hm_get (c_ips c) (ip_key ip) = Some e" "next_start e = Some x" "n \<le> x"
      using assms(2) by (auto simp: held_until_def)
    moreover have "i = Some (prune now e)"
      using turn(2) counts_entry_present [OF e(1), of now] by simp
    ultimately show ?thesis
      using turn by auto
  qed simp
qed simp

section \<open>Properties\<close>

text \<open>
  C25: however many accounts and addresses are tried, the throttle keeps at most 10 000 keys per map.
\<close>

theorem throttle_memory_bounded:
  "hm_len (c_accounts (fold (throttle_step lower) ops throttle_new)) \<le> MAX_KEYS \<and>
   hm_len (c_ips (fold (throttle_step lower) ops throttle_new)) \<le> MAX_KEYS"
proof -
  have "counters_wf throttle_new"
    by (simp add: counters_wf_def counts_wf_def throttle_new_def hm_wf_def hm_len_def)
  from throttle_run.run_inv [OF this, of lower ops] show ?thesis
    by (simp add: counters_wf_def counts_wf_def)
qed

text \<open>
  An attempt that gets a turn waits at most 60 seconds, and at least the delay for the recent
  failures of its account and of its IP. One without a turn would have waited longer than that.
\<close>

theorem throttle_wait_bounds:
  assumes "counters_wf c" and "throttle_begin lower account ip now c = (r, c')"
  shows "case r of
      Err w \<Rightarrow> MAX_DELAY < w
    | Ok a \<Rightarrow> wait a \<le> MAX_DELAY \<and>
        (\<forall>e. hm_get (c_accounts c) (account_key lower account) = Some e \<or> hm_get (c_ips c) (ip_key ip) = Some e
           \<longrightarrow> delay_for (length (filter (\<lambda>t. now - t < WINDOW) (times e))) \<le> wait a)"
  using assms(2)
proof (cases rule: begin_cases)
  case (turn accs ips a i start)
  let ?fs = "case (a, i) of (Some a, Some i) \<Rightarrow> max (length (times a)) (length (times i)) | _ \<Rightarrow> USIZE_MAX"
  have usize: "delay_for k \<le> delay_for USIZE_MAX" for k
  proof (cases "k \<le> USIZE_MAX")
    case False
    have "delay_for USIZE_MAX = MAX_DELAY"
      by (simp add: delay_for_def USIZE_MAX_def FREE_FAILURES_def MAX_DELAY_def secs_def)
    then show ?thesis by (simp add: delay_for_bound)
  qed (rule delay_for_mono)
  have "delay_for (length (filter (\<lambda>t. now - t < WINDOW) (times e))) \<le> start - now"
    if "hm_get (c_accounts c) (account_key lower account) = Some e \<or> hm_get (c_ips c) (ip_key ip) = Some e" for e
  proof -
    have "a = Some (prune now e) \<or> i = Some (prune now e)"
      using that turn(1,2) counts_entry_present by (metis snd_conv)
    then have "delay_for (length (times (prune now e))) \<le> delay_for ?fs"
      using usize by (cases a; cases i) (auto intro: delay_for_mono)
    moreover have "length (filter (\<lambda>t. now - t < WINDOW) (times e)) \<le> length (times (prune now e))"
      using dropWhile_filter_le [of "\<lambda>t. WINDOW \<le> now - t" "times e"] by (simp add: prune_def not_le)
    then have "delay_for (length (filter (\<lambda>t. now - t < WINDOW) (times e))) \<le> delay_for (length (times (prune now e)))"
      by (rule delay_for_mono)
    moreover have "delay_for ?fs \<le> start - now"
      using turn(5) by simp
    ultimately show ?thesis by linarith
  qed
  moreover have "start - now \<le> MAX_DELAY"
    using turn(4,5) delay_for_bound [of ?fs] by (cases i) auto
  ultimately show ?thesis
    unfolding turn(3) by simp
qed simp

text \<open>
  C23: attempts from one IP queue. After a counted attempt, whatever happens in between, the next
  attempt from the same IP key that gets a turn starts no earlier than the first one's start plus
  the delay for its failures so far.
\<close>

theorem throttle_ip_queue:
  assumes "counters_wf c" and first: "throttle_begin lower account ip now c = (Ok a, c')"
    and counted: "hm_get (c_ips c') (ip_key ip) = Some e"
    and "clock_after now ops = Some T" and "T \<le> now'" and "ip_key ip' = ip_key ip"
    and second: "throttle_begin lower account' ip' now' (fold (throttle_step lower) ops c') = (Ok b, c'')"
  shows "now + wait a + delay_for (length (times e)) \<le> now' + wait b"
proof -
  let ?n = "now + wait a + delay_for (length (times e))"
  have wf: "counters_wf c'"
    using begin_wf [OF assms(1), of lower account ip now] first by simp
  have "held_until (ip_key ip) ?n now c'"
    using first
  proof (cases rule: begin_cases)
    case (turn accs ips ae i start)
    have "now \<le> start" using turn(5) by simp
    moreover have "i \<noteq> None"
      using turn(2,6) counted assms(1) counts_entry_None(2) [of "c_ips c"]
      by (auto simp: counters_wf_def counts_wf_def split: option.splits)
    ultimately show ?thesis
      using turn counted by (auto simp: held_until_def hm_simps)
  qed simp
  then have "held_until (ip_key ip') ?n T (fold (throttle_step lower) ops c')"
    using run_held [OF wf] assms(4,6) by simp
  then have "held_until (ip_key ip') ?n now' (fold (throttle_step lower) ops c')"
    using assms(5) by (auto simp: held_until_def)
  then show ?thesis
    using begin_starts_after [OF throttle_run.run_inv [OF wf] _ second] by simp
qed

subsection \<open>Witnesses\<close>

definition guess :: "instant \<Rightarrow> throttle_op" where
  "guess t = Begin (lit ''admin'') (V4 0xC0000201) t"

definition guessed :: Counters where
  "guessed = fold (throttle_step (\<lambda>s. s)) (map guess [1, 2, 3, 4, 5]) throttle_new"

lemma guessed_wf: "counters_wf guessed"
  unfolding guessed_def
  by (rule throttle_run.run_inv)
    (simp add: counters_wf_def counts_wf_def throttle_new_def hm_wf_def hm_len_def)

lemma guessed_begin:
  "\<exists>c'. throttle_begin (\<lambda>s. s) (lit ''admin'') (V4 0xC0000201) 6 guessed =
     (Ok \<lparr>wait = 1000, failures = 5, at = 6\<rparr>, c')"
proof -
  have "fst (throttle_begin (\<lambda>s. s) (lit ''admin'') (V4 0xC0000201) 6 guessed) =
      Ok \<lparr>wait = 1000, failures = 5, at = 6\<rparr>"
    by code_simp
  then show ?thesis
    by (metis prod.collapse)
qed

theorem throttle_wait_bounds_witness:
  "\<exists>a c'. throttle_begin (\<lambda>s. s) (lit ''admin'') (V4 0xC0000201) 6 guessed = (Ok a, c') \<and> wait a \<le> MAX_DELAY"
  using guessed_begin throttle_wait_bounds [OF guessed_wf] by fastforce

theorem throttle_ip_queue_witness:
  "6 + 1000 + delay_for (length [1, 2, 3, 4, 5, 6 :: nat]) \<le> 7 + (2999::nat)"
proof -
  let ?c' = "snd (throttle_begin (\<lambda>s. s) (lit ''admin'') (V4 0xC0000201) 6 guessed)"
  let ?r = "throttle_begin (\<lambda>s. s) (lit ''root'') (V4 0xC0000201) 7 ?c'"
  have first: "throttle_begin (\<lambda>s. s) (lit ''admin'') (V4 0xC0000201) 6 guessed =
      (Ok \<lparr>wait = 1000, failures = 5, at = 6\<rparr>, ?c')"
    using guessed_begin by auto
  have counted: "hm_get (c_ips ?c') (ip_key (V4 0xC0000201)) =
      Some \<lparr>times = [1, 2, 3, 4, 5, 6], next_start = Some 3006\<rparr>"
    by code_simp
  have "fst ?r = Ok \<lparr>wait = 2999, failures = 6, at = 7\<rparr>"
    by code_simp
  then have "throttle_begin (\<lambda>s. s) (lit ''root'') (V4 0xC0000201) 7 (fold (throttle_step (\<lambda>s. s)) [] ?c') =
      (Ok \<lparr>wait = 2999, failures = 6, at = 7\<rparr>, snd ?r)"
    by (simp add: prod_eq_iff)
  from throttle_ip_queue [OF guessed_wf first counted _ _ _ this] show ?thesis by simp
qed

end
