(* ===== verification/Tickets.thy ===== *)
theory Tickets
  imports Passwords Throttle
begin

text \<open>
  \<^verbatim>\<open>lodger/src/tickets.rs\<close>: single-use WebSocket tickets. The mutex makes \<open>issue\<close> and \<open>redeem\<close>
  atomic; \<open>ticket_trace\<close> is the history of such calls with the map they leave.
\<close>

section \<open>Model\<close>

definition LIFETIME :: duration where
  "LIFETIME = secs 30"

definition MAX_TICKETS :: nat where
  "MAX_TICKETS = 10000"

record Ticket =
  t_session :: digest
  t_origin :: "ustr option"
  t_expires :: instant

type_synonym tickets = "(digest, Ticket) hmap"

definition ticket_hash :: "crypto \<Rightarrow> ustr \<Rightarrow> digest" where
  "ticket_hash K ticket = sha256 K ticket"

definition issue ::
    "crypto \<Rightarrow> random \<Rightarrow> digest \<Rightarrow> ustr option \<Rightarrow> instant \<Rightarrow> tickets \<Rightarrow> (ustr option, ustr) result \<times> tickets" where
  "issue K rnd s origin now by_hash =
     (case rnd of
        Err e \<Rightarrow> (Err e, by_hash)
      | Ok bytes \<Rightarrow>
          let ticket = hex_encode K bytes;
              kept = (if hm_len by_hash \<ge> MAX_TICKETS then hm_retain (\<lambda>_ t. now < t_expires t) by_hash else by_hash)
          in
          if hm_len kept \<ge> MAX_TICKETS then (Ok None, kept)
          else (Ok (Some ticket),
            hm_insert (ticket_hash K ticket) \<lparr>t_session = s, t_origin = origin, t_expires = now + LIFETIME\<rparr> kept))"

definition redeem :: "crypto \<Rightarrow> ustr \<Rightarrow> digest \<Rightarrow> ustr option \<Rightarrow> instant \<Rightarrow> tickets \<Rightarrow> bool \<times> tickets" where
  "redeem K ticket s origin now by_hash =
     ((case hm_get by_hash (ticket_hash K ticket) of
         None \<Rightarrow> False
       | Some t \<Rightarrow> t_session t = s \<and> t_origin t = origin \<and> now < t_expires t),
      hm_remove (ticket_hash K ticket) by_hash)"

section \<open>Histories\<close>

datatype ticket_event =
    Issued (ev_hash: digest) (ev_session: digest) (ev_origin: "ustr option") (ev_time: instant)
  | Refused
  | Redeemed (ev_hash: digest)

inductive ticket_trace :: "crypto \<Rightarrow> ticket_event list \<Rightarrow> tickets \<Rightarrow> bool" for K where
  start: "ticket_trace K [] []"
| issued: "ticket_trace K evs m \<Longrightarrow> issue K rnd s origin now m = (Ok (Some ticket), m') \<Longrightarrow>
    ticket_trace K (evs @ [Issued (ticket_hash K ticket) s origin now]) m'"
| refused: "ticket_trace K evs m \<Longrightarrow> issue K rnd s origin now m = (r, m') \<Longrightarrow> (\<nexists>t. r = Ok (Some t)) \<Longrightarrow>
    ticket_trace K (evs @ [Refused]) m'"
| redeemed: "ticket_trace K evs m \<Longrightarrow> redeem K ticket s origin now m = (b, m') \<Longrightarrow>
    ticket_trace K (evs @ [Redeemed (ticket_hash K ticket)]) m'"

text \<open>What issuing does to the map.\<close>

lemma issue_cases:
  assumes "issue K rnd s origin now m = (r, m')" and "hm_wf m"
  obtains (new) ticket kept where "r = Ok (Some ticket)"
      "m' = hm_insert (ticket_hash K ticket) \<lparr>t_session = s, t_origin = origin, t_expires = now + LIFETIME\<rparr> kept"
      "hm_wf kept" "hm_len kept < MAX_TICKETS" "\<And>h t. hm_get kept h = Some t \<Longrightarrow> hm_get m h = Some t"
  | (none) "\<nexists>t. r = Ok (Some t)" "hm_wf m'" "hm_len m' \<le> hm_len m" "\<And>h t. hm_get m' h = Some t \<Longrightarrow> hm_get m h = Some t"
  using assms hm.len_retain [of "\<lambda>_ t. now < t_expires t" m] hm.wf_retain [OF assms(2)]
    hm.get_retainD [OF assms(2)]
  unfolding issue_def Let_def
  by (cases rnd) (fastforce split: if_splits)+

lemma trace_wf: "ticket_trace K evs m \<Longrightarrow> hm_wf m \<and> hm_len m \<le> MAX_TICKETS"
proof (induction rule: ticket_trace.induct)
  case start
  show ?case by (simp add: hm.wf_empty hm.len_empty)
next
  case (issued evs m rnd s origin now ticket m')
  from issued.hyps(2) conjunct1 [OF issued.IH] show ?case
    by (cases rule: issue_cases) (use issued.IH in \<open>auto intro: hm.wf_intros hm.insert_below_bound\<close>)
next
  case (refused evs m rnd s origin now r m')
  from refused.hyps(2) conjunct1 [OF refused.IH] show ?case
    by (cases rule: issue_cases) (use refused in auto)
next
  case (redeemed evs m ticket s origin now b m')
  then show ?case
    using hm.len_remove [of "ticket_hash K ticket" m]
    by (auto simp: redeem_def intro: hm.wf_intros)
qed

text \<open>Every ticket in the map was issued, and not redeemed since.\<close>

definition live_issue :: "ticket_event list \<Rightarrow> digest \<Rightarrow> Ticket \<Rightarrow> bool" where
  "live_issue evs h t \<longleftrightarrow>
     (\<exists>before after now. evs = before @ Issued h (t_session t) (t_origin t) now # after \<and>
        t_expires t = now + LIFETIME \<and> Redeemed h \<notin> set after)"

lemma live_issue_append: "live_issue evs h t \<Longrightarrow> e \<noteq> Redeemed h \<Longrightarrow> live_issue (evs @ [e]) h t"
  unfolding live_issue_def by (metis Cons_eq_appendI append_assoc in_set_conv_decomp set_ConsD
      Un_iff append_Cons empty_iff empty_set set_append)

lemma live_issue_new:
  "live_issue (evs @ [Issued h s origin now]) h \<lparr>t_session = s, t_origin = origin, t_expires = now + LIFETIME\<rparr>"
  unfolding live_issue_def by force

lemma trace_issued: "ticket_trace K evs m \<Longrightarrow> hm_get m h = Some t \<Longrightarrow> live_issue evs h t"
proof (induction arbitrary: h t rule: ticket_trace.induct)
  case (issued evs m rnd s origin now ticket m')
  from issued.hyps(2) conjunct1 [OF trace_wf [OF issued.hyps(1)]] show ?case
  proof (cases rule: issue_cases)
    case (new ticket' kept)
    then show ?thesis
      using issued.prems issued.IH live_issue_append live_issue_new
      by (fastforce simp: hm_simps split: if_splits)
  qed auto
next
  case (refused evs m rnd s origin now r m')
  from refused.hyps(2) conjunct1 [OF trace_wf [OF refused.hyps(1)]] show ?case
    by (cases rule: issue_cases) (use refused live_issue_append in \<open>auto\<close>)
next
  case (redeemed evs m ticket s origin now b m')
  then show ?case
    by (auto simp: redeem_def hm_simps intro: live_issue_append split: if_splits)
qed (simp add: hm_simps)

inductive_cases ticket_traceE: "ticket_trace K evs m"

section \<open>Properties\<close>

text \<open>
  C26: a ticket opens a socket only if it was issued less than 30 seconds before, to the same session
  and with exactly the same \<open>Origin\<close>, and was not redeemed since: a second use always fails.
\<close>

theorem ticket_redeem_sound:
  assumes "ticket_trace K evs m" and "fst (redeem K ticket s origin now m)"
  shows "\<exists>before after issued. evs = before @ Issued (ticket_hash K ticket) s origin issued # after \<and>
    now < issued + LIFETIME \<and> Redeemed (ticket_hash K ticket) \<notin> set after"
proof -
  from assms(2) obtain t where t: "hm_get m (ticket_hash K ticket) = Some t"
      "t_session t = s" "t_origin t = origin" "now < t_expires t"
    by (auto simp: redeem_def split: option.splits)
  with trace_issued [OF assms(1) t(1)] show ?thesis
    unfolding live_issue_def by force
qed

text \<open>
  After a ticket was presented once, with whatever session, origin and time, presenting it again
  fails, and at most 10 000 tickets are kept.
\<close>

theorem ticket_single_use:
  assumes "ticket_trace K evs m"
  shows "\<not> fst (redeem K ticket s' origin' now' (snd (redeem K ticket s origin now m))) \<and> hm_len m \<le> MAX_TICKETS"
  using trace_wf [OF assms] by (simp add: redeem_def hm_simps)

subsection \<open>Witnesses\<close>

definition toy_crypto :: crypto where
  "toy_crypto = \<lparr>sha256 = map of_nat, hex_encode = map unat,
     argon2_hash = (\<lambda>p salt. Ok (map unat salt @ p)),
     argon2_verify = (\<lambda>p stored. if ends_with p stored then Ok () else Err (lit ''wrong''))\<rparr>"

lemma example_issue:
  "issue toy_crypto (Ok [1, 2]) [9] None 100 [] =
     (Ok (Some [1, 2]), [([1, 2], \<lparr>t_session = [9], t_origin = None, t_expires = 30100\<rparr>)])"
  by code_simp

lemma example_trace:
  "ticket_trace toy_crypto [Issued (ticket_hash toy_crypto [1, 2]) [9] None 100]
     [([1, 2], \<lparr>t_session = [9], t_origin = None, t_expires = 30100\<rparr>)]"
  using ticket_trace.issued [OF ticket_trace.start example_issue] by simp

theorem ticket_redeem_sound_witness:
  "fst (redeem toy_crypto [1, 2] [9] None 200 [([1, 2], \<lparr>t_session = [9], t_origin = None, t_expires = 30100\<rparr>)]) \<and>
   (\<exists>issued. (200::nat) < issued + LIFETIME)"
proof -
  have r: "fst (redeem toy_crypto [1, 2] [9] None 200
      [([1, 2], \<lparr>t_session = [9], t_origin = None, t_expires = 30100\<rparr>)])"
    by code_simp
  from ticket_redeem_sound [OF example_trace r] r show ?thesis by blast
qed

theorem ticket_single_use_witness:
  "\<not> fst (redeem toy_crypto [1, 2] [9] None 201 (snd (redeem toy_crypto [1, 2] [8] None 200
     [([1, 2], \<lparr>t_session = [9], t_origin = None, t_expires = 30100\<rparr>)])))"
  using ticket_single_use [OF example_trace] by blast

end
