(* ===== verification/Audit_Log.thy ===== *)
theory Audit_Log
  imports Database Throttle
begin

text \<open>
  \<^verbatim>\<open>lodger/src/audit.rs\<close>: audit entries, their journald copy and their database row. Only the
  allowlisted fields of \<open>Detail\<close> and \<open>AuditEntry\<close> can reach a row. A line of the journal is kept as the
  entry that it serialises, and \<open>detail_json\<close> as the fields that are present, in their order.
\<close>

section \<open>Entries\<close>

definition KEEP_DAYS :: nat where
  "KEEP_DAYS = 365"

record Detail =
  via :: "string option"
  sudo_user :: "ustr option"
  action :: "string option"
  reason :: "string option"

definition detail_default :: Detail where
  "detail_default = \<lparr>via = None, sudo_user = None, action = None, reason = None\<rparr>"

record AuditEntry =
  e_event :: string
  e_account :: "ustr option"
  e_client_ip :: "ipaddr option"
  e_target_kind :: "string option"
  e_target :: "ustr option"
  e_result :: string
  e_detail :: Detail

definition detail_is_empty :: "Detail \<Rightarrow> bool" where
  "detail_is_empty d \<longleftrightarrow> d = detail_default"

definition entry_ok :: "string \<Rightarrow> AuditEntry" where
  "entry_ok ev = \<lparr>e_event = ev, e_account = None, e_client_ip = None, e_target_kind = None,
     e_target = None, e_result = ''ok'', e_detail = detail_default\<rparr>"

definition entry_failed :: "string \<Rightarrow> string \<Rightarrow> AuditEntry" where
  "entry_failed ev why =
     (entry_ok ev)\<lparr>e_result := ''failed'', e_detail := detail_default\<lparr>reason := Some why\<rparr>\<rparr>"

definition entry_account :: "ustr \<Rightarrow> AuditEntry \<Rightarrow> AuditEntry" where
  "entry_account name e = e\<lparr>e_account := Some name\<rparr>"

definition entry_client_ip :: "ipaddr \<Rightarrow> AuditEntry \<Rightarrow> AuditEntry" where
  "entry_client_ip ip e = e\<lparr>e_client_ip := Some ip\<rparr>"

definition target_account :: "ustr \<Rightarrow> AuditEntry \<Rightarrow> AuditEntry" where
  "target_account name e = e\<lparr>e_target_kind := Some ''account'', e_target := Some name\<rparr>"

definition target_vm :: "ustr \<Rightarrow> AuditEntry \<Rightarrow> AuditEntry" where
  "target_vm name e = e\<lparr>e_target_kind := Some ''vm'', e_target := Some name\<rparr>"

definition target_pool :: "ustr \<Rightarrow> AuditEntry \<Rightarrow> AuditEntry" where
  "target_pool name e = e\<lparr>e_target_kind := Some ''pool'', e_target := Some name\<rparr>"

definition target_volume :: "ustr \<Rightarrow> ustr \<Rightarrow> AuditEntry \<Rightarrow> AuditEntry" where
  "target_volume pool volume e =
     e\<lparr>e_target_kind := Some ''volume'', e_target := Some (pool @ lit ''/'' @ volume)\<rparr>"

definition target_network :: "ustr \<Rightarrow> AuditEntry \<Rightarrow> AuditEntry" where
  "target_network name e = e\<lparr>e_target_kind := Some ''network'', e_target := Some name\<rparr>"

definition detail_fields :: "Detail \<Rightarrow> (string \<times> ustr) list" where
  "detail_fields d =
     List.map_filter (\<lambda>(k, v). map_option (\<lambda>t. (k, t)) v)
       [(''via'', map_option lit (via d)), (''sudo_user'', sudo_user d),
        (''action'', map_option lit (action d)), (''reason'', map_option lit (reason d))]"

definition entry_row :: "(ipaddr \<Rightarrow> ustr) \<Rightarrow> AuditEntry \<Rightarrow> AuditRow" where
  "entry_row ip_text e =
     \<lparr>ar_event = e_event e, ar_account_name = e_account e,
      ar_client_ip = map_option ip_text (e_client_ip e), ar_target_kind = e_target_kind e,
      ar_target_name = e_target e, ar_result = e_result e,
      ar_detail_json = (if detail_is_empty (e_detail e) then None else Some (detail_fields (e_detail e)))\<rparr>"

section \<open>Writing\<close>

datatype Journal = Stderr | Socket

datatype Wrote = WroteSocket | WroteStderr

record logs =
  stderr_log :: "AuditEntry list"
  socket_log :: "AuditEntry list"

text \<open>\<open>sent\<close> says whether the datagram to the journal socket went out.\<close>

definition journal_write :: "bool \<Rightarrow> Journal \<Rightarrow> AuditEntry \<Rightarrow> logs \<Rightarrow> Wrote \<times> logs" where
  "journal_write sent j line l =
     (if j = Socket \<and> sent then (WroteSocket, l\<lparr>socket_log := socket_log l @ [line]\<rparr>)
      else (WroteStderr, l\<lparr>stderr_log := stderr_log l @ [line]\<rparr>))"

definition audit_record ::
    "(ipaddr \<Rightarrow> ustr) \<Rightarrow> sql_env \<Rightarrow> bool \<Rightarrow> Journal \<Rightarrow> AuditEntry \<Rightarrow> logs \<times> db
      \<Rightarrow> (unit, SqlError) result \<times> logs \<times> db" where
  "audit_record ip_text E sent j entry st =
     (case st of (l, d) \<Rightarrow>
        let (_, l') = journal_write sent j entry l;
            (r, d') = audit E (entry_row ip_text entry) d
        in (r, l', d'))"

definition delete_old_rows_tick :: "sql_env \<Rightarrow> db \<Rightarrow> db" where
  "delete_old_rows_tick E d = snd (delete_old_audit_rows E KEEP_DAYS d)"

section \<open>Properties\<close>

lemma audit_effect:
  "audit E row d = (case fails E 0 of Some e \<Rightarrow> (Err (Fault e), d)
     | None \<Rightarrow> (Ok (), d\<lparr>audit_log := audit_log d @ [(clock E 0, row)]\<rparr>))"
  by (auto simp: audit_def stmt_def split: option.splits)

text \<open>
  An audit entry always leaves a trace: its journal copy is written even when the database refuses
  the row, and the row holds the entry's event, account, target and result unchanged. Accounts
  and sessions are not touched.
\<close>

theorem audit_record_leaves_trace:
  "\<exists>l' d'. audit_record ip_text E sent j entry (l, d) = (fst (audit E (entry_row ip_text entry) d), l', d') \<and>
     length (stderr_log l' @ socket_log l') = Suc (length (stderr_log l @ socket_log l)) \<and> entry \<in> set (stderr_log l') \<union> set (socket_log l') \<and>
     accounts d' = accounts d \<and> sessions d' = sessions d \<and>
     audit_log d' = audit_log d @ (if fails E 0 = None then [(clock E 0, entry_row ip_text entry)] else [])"
  by (auto simp: audit_record_def journal_write_def audit_effect Let_def split: option.splits)

text \<open>Every tick deletes exactly the rows that are older than 365 days.\<close>

lemma delete_old_rows_exact:
  "fails E 0 = None \<Longrightarrow> audit_log (delete_old_rows_tick E d) =
     filter (\<lambda>(ts, _). clock E 0 - 365 * 24 * 60 * MINUTE \<le> ts) (audit_log d)"
  by (auto simp: delete_old_rows_tick_def delete_old_audit_rows_def stmt_def KEEP_DAYS_def Let_def not_less
      intro!: filter_cong)

end
