(* ===== verification/Password_Policy.thy ===== *)
theory Password_Policy
  imports Lodger_Prelude
begin

text \<open>
  \<^verbatim>\<open>lodger-core/src/password/mod.rs\<close>: the password policy. The lines of \<^verbatim>\<open>common.txt\<close>, a data file, and
  Unicode lower-casing are the parameters \<open>common\<close> and \<open>lower\<close>.
\<close>

definition MIN_CHARS :: nat where
  "MIN_CHARS = 15"

definition MAX_CHARS :: nat where
  "MAX_CHARS = 1024"

datatype PasswordError = PwTooShort nat | PwTooLong nat | PwCommon

definition COMMON_SET :: "(ustr \<Rightarrow> ustr) \<Rightarrow> ustr list \<Rightarrow> ustr set" where
  "COMMON_SET lower common = lower ` set common"

definition password_check :: "(ustr \<Rightarrow> ustr) \<Rightarrow> ustr list \<Rightarrow> ustr \<Rightarrow> (unit, PasswordError) result" where
  "password_check lower common password =
     (let len = length password in
      if len < MIN_CHARS then Err (PwTooShort len)
      else if len > MAX_CHARS then Err (PwTooLong len)
      else if lower password \<in> COMMON_SET lower common then Err PwCommon
      else Ok ())"

lemma password_check_Ok [result_simps]:
  "password_check lower common p = Ok u \<longleftrightarrow>
     15 \<le> length p \<and> length p \<le> 1024 \<and> (\<forall>c\<in>set common. lower c \<noteq> lower p)"
  by (auto simp: password_check_def MIN_CHARS_def MAX_CHARS_def COMMON_SET_def Let_def image_iff
      split: if_splits)

end
