(* ===== verification/Service.thy ===== *)
theory Service
  imports Tickets Audit_Log Password_Policy
begin

text \<open>
  What every request handler shares: \<^verbatim>\<open>AppState\<close> of \<^verbatim>\<open>lodger/src/server.rs\<close>, requests and responses.

  The state that requests change is \<open>app\<close>; what is fixed at start is \<open>conf\<close>. A handler is
  asynchronous: other requests run between its accesses to the shared state. So every access is
  labelled, and the environment \<open>env\<close> says what the other requests did to the state before it,
  what the clock and the random generator returned there, and whether the database and the
  blocking pool failed. Theorems quantify over every environment, and so over every interleaving.
\<close>

section \<open>Requests and responses\<close>

datatype http_method = GET | HEAD | POST | PATCH | DELETE | OtherMethod string

text \<open>
  A \<^verbatim>\<open>HeaderMap\<close>: the first value of a header when it is text, and the values of all \<open>Cookie\<close> headers
  that are text.
\<close>

record headers =
  header :: "string \<Rightarrow> ustr option"
  cookie_headers :: "ustr list"

datatype 'x body =
    NoBody
  | Message string
  | MessageAbout string ustr
  | BadInput InputError
  | BadPassword PasswordError
  | Rejection
  | Content 'x

record 'x response =
  status :: nat
  resp_headers :: "(string \<times> ustr) list"
  body :: "'x body"

definition respond :: "nat \<Rightarrow> 'x body \<Rightarrow> 'x response" where
  "respond code b = \<lparr>status = code, resp_headers = [], body = b\<rparr>"

definition insert_header :: "string \<Rightarrow> ustr \<Rightarrow> 'x response \<Rightarrow> 'x response" where
  "insert_header name v r = r\<lparr>resp_headers := hm_insert name v (resp_headers r)\<rparr>"

definition error_response :: "nat \<Rightarrow> string \<Rightarrow> 'x response" where
  "error_response code m = respond code (Message m)"

section \<open>State, configuration and environment\<close>

record SetupToken =
  st_hash :: digest
  st_expires :: instant

record app =
  app_db :: db
  app_throttle :: Counters
  app_tickets :: tickets
  app_setup :: "SetupToken option"
  app_logs :: logs

record conf =
  trusted_proxies :: "(ipaddr \<Rightarrow> bool) list"
  public_origin :: "ustr option"
  csp_value :: ustr
  hsts :: bool
  parse_ip :: "ustr \<Rightarrow> ipaddr option"
  ip_text :: "ipaddr \<Rightarrow> ustr"
  lower :: "ustr \<Rightarrow> ustr"
  common :: "ustr list"
  crypto_of :: crypto
  dummy_hash :: ustr

record env =
  others :: "string \<Rightarrow> app \<Rightarrow> app"
  sql :: "string \<Rightarrow> sql_env"
  instant_now :: "string \<Rightarrow> instant"
  random_bytes :: "string \<Rightarrow> random"
  task_runs :: "string \<Rightarrow> bool"
  salt :: "string \<Rightarrow> 8 word list"

text \<open>One call of the database handle, after what the other requests did.\<close>

definition db_call :: "env \<Rightarrow> string \<Rightarrow> (sql_env \<Rightarrow> ('a, db) sql) \<Rightarrow> app \<Rightarrow> ('a, SqlError) result \<times> app" where
  "db_call E label op a =
     (let a = others E label a; (r, d) = op (sql E label) (app_db a) in (r, a\<lparr>app_db := d\<rparr>))"

text \<open>\<^verbatim>\<open>audit::log\<close>: a failed write is only logged.\<close>

definition audit_log_entry :: "conf \<Rightarrow> env \<Rightarrow> string \<Rightarrow> AuditEntry \<Rightarrow> app \<Rightarrow> app" where
  "audit_log_entry C E label entry a =
     (let a = others E label a;
          (_, l, d) = audit_record (ip_text C) (sql E label) False Stderr entry (app_logs a, app_db a)
      in a\<lparr>app_logs := l, app_db := d\<rparr>)"

section \<open>Accesses and the state\<close>

text \<open>No other request runs.\<close>

definition alone :: "env \<Rightarrow> bool" where
  "alone E \<longleftrightarrow> (\<forall>label a. others E label a = a)"

text \<open>The other requests keep a property of the state.\<close>

definition others_keep :: "env \<Rightarrow> (app \<Rightarrow> bool) \<Rightarrow> bool" where
  "others_keep E I \<longleftrightarrow> (\<forall>label a. I a \<longrightarrow> I (others E label a))"

lemma db_call_alone:
  "alone E \<Longrightarrow> db_call E label op a = (let (r, d) = op (sql E label) (app_db a) in (r, a\<lparr>app_db := d\<rparr>))"
  by (simp add: db_call_def alone_def)

lemma db_call_fields:
  assumes "alone E" and "db_call E label op a = (r, a')"
  shows "app_throttle a' = app_throttle a" and "app_tickets a' = app_tickets a"
    and "app_setup a' = app_setup a" and "op (sql E label) (app_db a) = (r, app_db a')"
  using assms by (auto simp: db_call_alone split: prod.splits)

lemma audit_log_entry_alone:
  assumes "alone E"
  shows "accounts (app_db (audit_log_entry C E label entry a)) = accounts (app_db a)"
    and "sessions (app_db (audit_log_entry C E label entry a)) = sessions (app_db a)"
    and "app_setup (audit_log_entry C E label entry a) = app_setup a"
    and "app_throttle (audit_log_entry C E label entry a) = app_throttle a"
  using assms
  by (auto simp: audit_log_entry_def alone_def audit_record_def audit_effect Let_def
      split: prod.splits option.splits)

end
