(* ===== verification/Client_Ip.thy ===== *)
theory Client_Ip
  imports Service
begin

text \<open>
  \<^verbatim>\<open>lodger/src/client_ip.rs\<close>: the client's address. The parser of \<^verbatim>\<open>std::net::IpAddr\<close> is the parameter
  \<open>parse_ip\<close> of the configuration, and a trusted network is the predicate of the addresses it
  contains.
\<close>

definition client_ip :: "conf \<Rightarrow> ipaddr \<Rightarrow> headers \<Rightarrow> ipaddr" where
  "client_ip C peer h =
     (if \<not> list_ex (\<lambda>net. net peer) (trusted_proxies C) then peer
      else case Option.bind (header h ''x-real-ip'') (\<lambda>v. parse_ip C (trim v)) of
        Some ip \<Rightarrow> ip
      | None \<Rightarrow>
          (case Option.bind (header h ''x-forwarded-for'') (\<lambda>v. parse_ip C (trim (last (split_on 44 v)))) of
             Some ip \<Rightarrow> ip
           | None \<Rightarrow> peer))"

text \<open>
  C27: a peer that is not a trusted proxy is the client itself: no header it sends changes the address
  that throttling and the audit log use. For a trusted proxy only the rightmost entry of
  \<^verbatim>\<open>X-Forwarded-For\<close> counts, so nothing a client puts before it matters.
\<close>

theorem client_ip_not_forged:
  assumes "44 \<notin> set entry" and "header h ''x-real-ip'' = None"
  shows "(\<not> list_ex (\<lambda>net. net peer) (trusted_proxies C) \<longrightarrow> client_ip C peer g = peer) \<and>
    client_ip C peer (h\<lparr>header := (header h)(''x-forwarded-for'' \<mapsto> forged @ [44] @ entry)\<rparr>) =
    client_ip C peer (h\<lparr>header := (header h)(''x-forwarded-for'' \<mapsto> entry)\<rparr>)"
proof -
  have "last (split_on 44 (forged @ 44 # entry)) = entry"
    using assms(1) by (simp add: split_on_append split_on_no_sep)
  with assms show ?thesis
    by (simp add: client_ip_def split_on_no_sep)
qed

definition example_conf :: conf where
  "example_conf = \<lparr>trusted_proxies = [\<lambda>ip. ip = V4 1], public_origin = None, csp_value = [], hsts = False,
     parse_ip = (\<lambda>s. map_option V4 (parse_ipv4 s)), ip_text = (\<lambda>_. []), lower = to_ascii_lowercase,
     common = [], crypto_of = toy_crypto, dummy_hash = []\<rparr>"

definition no_headers :: headers where
  "no_headers = \<lparr>header = (\<lambda>_. None), cookie_headers = []\<rparr>"

theorem client_ip_not_forged_witness:
  "client_ip example_conf (V4 2) no_headers = V4 2 \<and>
   client_ip example_conf (V4 1) (no_headers\<lparr>header := (header no_headers)
     (''x-forwarded-for'' \<mapsto> lit ''8.8.8.8'' @ [44] @ lit ''10.0.0.7'')\<rparr>) =
   client_ip example_conf (V4 1) (no_headers\<lparr>header := (header no_headers)(''x-forwarded-for'' \<mapsto> lit ''10.0.0.7'')\<rparr>)"
proof -
  have "44 \<notin> set (lit ''10.0.0.7'')" "header no_headers ''x-real-ip'' = None"
      "\<not> list_ex (\<lambda>net. net (V4 2)) (trusted_proxies example_conf)"
    by (simp_all add: lit_def no_headers_def example_conf_def)
  with client_ip_not_forged [OF this(1,2), of "V4 2" example_conf no_headers "[]"]
    client_ip_not_forged [OF this(1,2), of "V4 1" example_conf no_headers "lit ''8.8.8.8''"]
  show ?thesis by blast
qed

end
