(* ===== verification/Security.thy ===== *)
theory Security
  imports Client_Ip
begin

text \<open>
  \<^verbatim>\<open>lodger/src/security.rs\<close>: the Origin rule for state-changing requests, the Content-Security-Policy and
  the response headers. The URI parser of the \<^verbatim>\<open>http\<close> crate and base64 are parameters.
\<close>

section \<open>Origins\<close>

record authority =
  auth_text :: ustr
  auth_host :: ustr
  auth_port :: "nat option"

record uri =
  scheme_str :: "ustr option"
  uri_authority :: "authority option"

datatype OriginError = NotAUrl | NoScheme | BadScheme | NoHost | HasUserName

definition default_port :: "ustr \<Rightarrow> nat option" where
  "default_port scheme =
     (if scheme = lit ''https'' then Some 443 else if scheme = lit ''http'' then Some 80 else None)"

definition origin_of :: "(ustr \<Rightarrow> uri option) \<Rightarrow> ustr \<Rightarrow> (ustr, OriginError) result" where
  "origin_of parse_uri url =
     and_then (ok_or NotAUrl (parse_uri url)) (\<lambda>u.
     and_then (ok_or NoScheme (map_option to_ascii_lowercase (scheme_str u))) (\<lambda>scheme.
     and_then (ok_or BadScheme (default_port scheme)) (\<lambda>dport.
     and_then (ok_or NoHost (uri_authority u)) (\<lambda>auth.
       if 64 \<in> set (auth_text auth) then Err HasUserName
       else
         let host = to_ascii_lowercase (auth_host auth) in
         Ok (case auth_port auth of
               Some port \<Rightarrow>
                 if port \<noteq> dport then scheme @ lit ''://'' @ host @ lit '':'' @ dec port
                 else scheme @ lit ''://'' @ host
             | None \<Rightarrow> scheme @ lit ''://'' @ host)))))"

definition is_safe :: "http_method \<Rightarrow> bool" where
  "is_safe m \<longleftrightarrow> m = GET \<or> m = HEAD"

definition from_lodger :: "headers \<Rightarrow> ustr option \<Rightarrow> bool" where
  "from_lodger h public =
     (if header h ''sec-fetch-site'' = Some (lit ''same-origin'') then True
      else case (header h ''origin'', public) of
        (Some origin, Some p) \<Rightarrow> eq_ignore_ascii_case origin p
      | _ \<Rightarrow> False)"

definition FOREIGN :: string where
  "FOREIGN = ''this request must come from a Lodger page. If it does, your browser sends no Sec-Fetch-Site header: set public_url in the configuration file''"

definition require_same_origin ::
    "conf \<Rightarrow> http_method \<Rightarrow> headers \<Rightarrow> ('s \<Rightarrow> 'x response \<times> 's) \<Rightarrow> 's \<Rightarrow> 'x response \<times> 's" where
  "require_same_origin C m h next_run a =
     (if is_safe m \<or> from_lodger h (public_origin C) then next_run a
      else (error_response 403 FOREIGN, a))"

section \<open>Gates\<close>

text \<open>
  What a middleware in front of a handler promises: a request that it does not let through gets the same outcome whatever
  the handler is, and what is seen of the state is as before. The handlers behind it rely on nothing else.
\<close>

locale gate =
  fixes run :: "'h \<Rightarrow> 's \<Rightarrow> 'o"
    and lets :: "'s \<Rightarrow> bool"
    and view :: "'o \<Rightarrow> 'v"
    and seen :: "'s \<Rightarrow> 'v"
  assumes shut: "\<not> lets s \<Longrightarrow> run h s = run h' s"
    and kept: "\<not> lets s \<Longrightarrow> view (run h s) = seen s"
begin

lemma closed: "\<not> lets s \<Longrightarrow> \<exists>out. (\<forall>h. run h s = out) \<and> view out = seen s"
  using shut kept by blast

lemma effect_needs_pass: "view (run h s) \<noteq> seen s \<Longrightarrow> lets s"
  using kept by blast

lemma influence_needs_pass: "run h s \<noteq> run h' s \<Longrightarrow> lets s"
  using shut by blast

end

interpretation origin_gate: gate "require_same_origin C m h" "\<lambda>_. is_safe m \<or> from_lodger h (public_origin C)" snd "\<lambda>s. s" for C m h
  by unfold_locales (simp_all add: require_same_origin_def)

section \<open>The Content-Security-Policy\<close>

text \<open>\<^verbatim>\<open>str::find\<close>: the text before the first occurrence of the pattern, and the text from it on.\<close>

fun find_split :: "'a list \<Rightarrow> 'a list \<Rightarrow> ('a list \<times> 'a list) option" where
  "find_split p [] = (if p = [] then Some ([], []) else None)"
| "find_split p (x # xs) =
     (if starts_with p (x # xs) then Some ([], x # xs)
      else map_option (\<lambda>(a, b). (x # a, b)) (find_split p xs))"

lemma find_split_Some: "find_split p s = Some (a, b) \<Longrightarrow> s = a @ b \<and> starts_with p b"
  by (induction p s arbitrary: a rule: find_split.induct) (auto simp: starts_with_def split: if_splits)

lemma find_split_length: "Some (a, b) = find_split p s \<Longrightarrow> length s = length a + length b \<and> length p \<le> length b"
  by (auto dest!: sym [THEN find_split_Some] simp: starts_with_iff)

text \<open>
  The bodies of the inline scripts of a page: \<open>None\<close> if the slice between the end of a tag and
  \<^verbatim>\<open></script>\<close> is out of order, where the source panics.
\<close>

function script_bodies :: "ustr \<Rightarrow> ustr list option" where
  "script_bodies page =
     (case find_split (lit ''<script'') page of
        None \<Rightarrow> Some []
      | Some (_, rest) \<Rightarrow>
          (case (find_split (lit ''>'') rest, find_split (lit ''</script>'') rest) of
             (Some (tag, _), Some (before, close)) \<Rightarrow>
               if length before < Suc (length tag) then None
               else
                 let bodies = (if contains_str (lit '' src='') tag then [] else [drop (Suc (length tag)) before])
                 in map_option (\<lambda>bs. bodies @ bs) (script_bodies (drop 9 close))
           | _ \<Rightarrow> Some []))"
  by pat_completeness auto
termination
  by (relation "measure length") (auto dest!: find_split_length find_split_length [OF sym])

declare script_bodies.simps [simp del]

definition script_hashes :: "(ustr \<Rightarrow> ustr) \<Rightarrow> ustr \<Rightarrow> ustr list option" where
  "script_hashes sha256_base64 page =
     map_option (map (\<lambda>b. lit [CHR 0x27] @ lit ''sha256-'' @ sha256_base64 b @ lit [CHR 0x27])) (script_bodies page)"

definition csp :: "(ustr \<Rightarrow> ustr) \<Rightarrow> ustr \<Rightarrow> ustr option \<Rightarrow> ustr option" where
  "csp sha256_base64 page public =
     map_option (\<lambda>hashes.
       let self = lit [CHR 0x27] @ lit ''self'' @ lit [CHR 0x27];
           none = lit [CHR 0x27] @ lit ''none'' @ lit [CHR 0x27];
           script_src = foldl (\<lambda>s h. s @ lit '' '' @ h) self hashes;
           socket = (case public of
              None \<Rightarrow> []
            | Some origin \<Rightarrow>
                (case strip_prefix (lit ''https://'') origin of
                   Some h \<Rightarrow> lit '' wss://'' @ h
                 | None \<Rightarrow>
                     (case strip_prefix (lit ''http://'') origin of
                        Some h \<Rightarrow> lit '' ws://'' @ h
                      | None \<Rightarrow> [])))
       in lit ''default-src '' @ self @ lit ''; script-src '' @ script_src @
          lit ''; style-src '' @ self @ lit '' '' @ lit [CHR 0x27] @ lit ''unsafe-inline'' @ lit [CHR 0x27] @
          lit ''; img-src '' @ self @ lit '' data:; connect-src '' @ self @ socket @
          lit ''; object-src '' @ none @ lit ''; base-uri '' @ none @
          lit ''; form-action '' @ self @ lit ''; frame-ancestors '' @ none)
     (script_hashes sha256_base64 page)"

section \<open>Response headers\<close>

definition add_headers :: "conf \<Rightarrow> ('s \<Rightarrow> 'x response \<times> 's) \<Rightarrow> 's \<Rightarrow> 'x response \<times> 's" where
  "add_headers C next_run a =
     (let (r, a') = next_run a;
          r = insert_header ''content-security-policy'' (csp_value C) r;
          r = insert_header ''referrer-policy'' (lit ''no-referrer'') r;
          r = insert_header ''x-content-type-options'' (lit ''nosniff'') r
      in (if hsts C then insert_header ''strict-transport-security'' (lit ''max-age=31536000'') r else r, a'))"

section \<open>Which requests pass\<close>

lemma from_lodger_iff:
  "from_lodger h public \<longleftrightarrow>
     header h ''sec-fetch-site'' = Some (lit ''same-origin'') \<or>
     (\<exists>origin p. header h ''origin'' = Some origin \<and> public = Some p \<and> eq_ignore_ascii_case origin p)"
  by (auto simp: from_lodger_def split: option.splits)

text \<open>An origin is lower case, and an explicit default port does not change it.\<close>

lemma lower_idem: "to_ascii_lowercase (to_ascii_lowercase s) = to_ascii_lowercase s"
  by (simp add: to_ascii_lowercase_def)

lemma to_ascii_lowercase_append: "to_ascii_lowercase (s @ t) = to_ascii_lowercase s @ to_ascii_lowercase t"
  by (simp add: to_ascii_lowercase_def)

lemma digits_lower: "list_all is_digit s \<Longrightarrow> to_ascii_lowercase s = s"
  by (induction s) (auto simp: to_ascii_lowercase_def to_ascii_lower_def is_digit_def)

lemma dec_lower: "to_ascii_lowercase (dec n) = dec n"
  using dec_digits by (intro digits_lower) (auto simp: list_all_iff)

lemma origin_lower: "origin_of parse_uri url = Ok origin \<Longrightarrow> to_ascii_lowercase origin = origin"
  by (auto simp: origin_of_def result_simps Let_def to_ascii_lowercase_append lower_idem dec_lower
      split: if_splits option.splits)
    (simp_all add: lit_def to_ascii_lowercase_def to_ascii_lower_def)

text \<open>The header map of every response.\<close>

lemma add_headers_get:
  "hm_get (resp_headers (fst (add_headers C next_run a))) ''content-security-policy'' = Some (csp_value C)"
  "hm_get (resp_headers (fst (add_headers C next_run a))) ''x-content-type-options'' = Some (lit ''nosniff'')"
  "hm_get (resp_headers (fst (add_headers C next_run a))) ''referrer-policy'' = Some (lit ''no-referrer'')"
  "hsts C \<Longrightarrow> hm_get (resp_headers (fst (add_headers C next_run a))) ''strict-transport-security'' =
     Some (lit ''max-age=31536000'')"
  "snd (add_headers C next_run a) = snd (next_run a)"
  "status (fst (add_headers C next_run a)) = status (fst (next_run a))"
  "body (fst (add_headers C next_run a)) = body (fst (next_run a))"
  by (simp_all add: add_headers_def insert_header_def Let_def hm_simps split: prod.splits)

end
