(* ===== verification/Auth.thy ===== *)
theory Auth
  imports Security
begin

text \<open>
  \<^verbatim>\<open>lodger/src/auth.rs\<close>: login, sessions, logout, WebSocket tickets and the guard of the protected routes.
  Handlers that call \<^verbatim>\<open>expect\<close> return an option, where \<open>None\<close> is the panic.
\<close>

section \<open>Model\<close>

definition COOKIE :: string where
  "COOKIE = ''__Host-lodger_sid''"

definition CSRF_HEADER :: string where
  "CSRF_HEADER = ''x-csrf-token''"

text \<open>A parsed JSON body, or the status of axum's rejection.\<close>

datatype 'b payload = Json 'b | Rejected nat

definition unauthorized :: "'x response" where
  "unauthorized = error_response 401 ''log in first''"

definition random_token :: "conf \<Rightarrow> random \<Rightarrow> (ustr, ustr) result" where
  "random_token C bytes = map_ok (hex_encode (crypto_of C)) bytes"

definition token_hash :: "conf \<Rightarrow> ustr \<Rightarrow> digest" where
  "token_hash C token = sha256 (crypto_of C) token"

definition cookie_token :: "headers \<Rightarrow> ustr option" where
  "cookie_token h =
     map_option snd
       (find (\<lambda>(name, _). name = lit COOKIE)
         (List.map_filter (\<lambda>pair. split_once 61 (trim pair))
           (concat (map (split_on 59) (cookie_headers h)))))"

definition session_key :: "conf \<Rightarrow> headers \<Rightarrow> digest option" where
  "session_key C h = map_option (token_hash C) (cookie_token h)"

definition new_session :: "conf \<Rightarrow> env \<Rightarrow> int \<Rightarrow> ipaddr \<Rightarrow> headers \<Rightarrow> (ustr \<times> NewSession, ustr) result" where
  "new_session C E aid ip h =
     and_then (random_token C (random_bytes E ''session token'')) (\<lambda>token.
     and_then (random_token C (random_bytes E ''csrf token'')) (\<lambda>csrf.
       Ok (token,
           \<lparr>new_token_sha256 = token_hash C token, new_account_id = aid, new_csrf_token = csrf,
            new_client_ip = ip_text C ip,
            new_user_agent = map_option (take 256) (header h ''user-agent'')\<rparr>)))"

definition set_cookie :: "ustr \<Rightarrow> ustr" where
  "set_cookie token = lit COOKIE @ lit ''='' @ token @ lit ''; Path=/; Secure; HttpOnly; SameSite=Strict''"

definition clear_cookie :: ustr where
  "clear_cookie = lit COOKIE @ lit ''=; Path=/; Secure; HttpOnly; SameSite=Strict; Max-Age=0''"

definition lookup :: "conf \<Rightarrow> env \<Rightarrow> headers \<Rightarrow> app \<Rightarrow> (Session option, unit) result \<times> app" where
  "lookup C E h a =
     (case cookie_token h of
        None \<Rightarrow> (Ok None, a)
      | Some token \<Rightarrow>
          (let (r, a) = db_call E ''session lookup'' (\<lambda>e. session e (token_hash C token)) a
           in (map_err (\<lambda>_. ()) r, a)))"

definition lookup_failed :: "'x response" where
  "lookup_failed = error_response 500 ''cannot check the session''"

definition csrf_matches :: "headers \<Rightarrow> Session \<Rightarrow> bool" where
  "csrf_matches h s \<longleftrightarrow> header h CSRF_HEADER = Some (session_csrf_token s)"

text \<open>The guard of the API. The handlers behind it also work on \<open>'k\<close>, the host, which the guard does not touch.\<close>

definition require_session ::
    "conf \<Rightarrow> env \<Rightarrow> http_method \<Rightarrow> headers \<Rightarrow> (Session \<Rightarrow> app \<times> 'k \<Rightarrow> 'x response \<times> app \<times> 'k) \<Rightarrow> app \<times> 'k
      \<Rightarrow> 'x response \<times> app \<times> 'k" where
  "require_session C E m h next_run st =
     (case st of (a, k) \<Rightarrow>
      case lookup C E h a of
        (Ok (Some s), a) \<Rightarrow>
          if \<not> is_safe m \<and> \<not> csrf_matches h s
          then (error_response 403 ''missing or wrong X-CSRF-Token'', a, k)
          else next_run s (a, k)
      | (Ok None, a) \<Rightarrow> (unauthorized, a, k)
      | (Err _, a) \<Rightarrow> (lookup_failed, a, k))"

record Login =
  login_username :: ustr
  login_password :: ustr

datatype auth_content = SessionInfo ustr ustr | TicketInfo ustr

definition throttled :: "conf \<Rightarrow> env \<Rightarrow> ustr \<Rightarrow> ipaddr \<Rightarrow> app \<Rightarrow> (Attempt, 'x response) result \<times> app" where
  "throttled C E username ip a =
     (let a = others E ''throttle'' a;
          (r, c) = throttle_begin (lower C) username ip (instant_now E ''throttle'') (app_throttle a);
          a = a\<lparr>app_throttle := c\<rparr>
      in case r of
           Err retry \<Rightarrow>
             (Err (insert_header ''retry-after'' (dec (retry div 1000))
                (error_response 429 ''too many password attempts. Try again later'')), a)
         | Ok attempt \<Rightarrow>
             if wait attempt \<noteq> 0
             then (let (_, a) = db_call E ''throttle warning'' (\<lambda>e. find_account e username) a in (Ok attempt, a))
             else (Ok attempt, a))"

definition throttle_succeeds :: "conf \<Rightarrow> env \<Rightarrow> ustr \<Rightarrow> ipaddr \<Rightarrow> Attempt \<Rightarrow> app \<Rightarrow> app" where
  "throttle_succeeds C E username ip attempt a =
     (let a = others E ''throttle success'' a
      in a\<lparr>app_throttle := throttle_succeed (lower C) username ip attempt (app_throttle a)\<rparr>)"

definition LOGIN_SUCCEEDED :: string where
  "LOGIN_SUCCEEDED = ''login.succeeded''"

definition LOGIN_FAILED :: string where
  "LOGIN_FAILED = ''login.failed''"

text \<open>The check of a password under the argon2 limit; for an unknown name it runs as long and fails.\<close>

definition login_verified :: "conf \<Rightarrow> env \<Rightarrow> Account option \<Rightarrow> ustr \<Rightarrow> bool" where
  "login_verified C E account password =
     (case run_blocking (task_runs E ''verify'')
        (case account of
           Some acc \<Rightarrow> password_verify (crypto_of C) password (account_password_hash acc)
         | None \<Rightarrow> verify_nobody (crypto_of C) (dummy_hash C) password) of
        Some b \<Rightarrow> b | None \<Rightarrow> False)"

definition login_failed_entry :: "Account option \<Rightarrow> AuditEntry" where
  "login_failed_entry account =
     (case account of
        Some acc \<Rightarrow> entry_account (account_username acc) (entry_failed LOGIN_FAILED ''wrong_password'')
      | None \<Rightarrow> entry_failed LOGIN_FAILED ''no_such_account'')"

definition start_session :: "conf \<Rightarrow> env \<Rightarrow> ipaddr \<Rightarrow> headers \<Rightarrow> Account \<Rightarrow> app \<Rightarrow> auth_content response \<times> app" where
  "start_session C E ip h account a =
     (case new_session C E (account_id account) ip h of
        Err _ \<Rightarrow> (error_response 500 ''cannot start a session'', a)
      | Ok (token, new) \<Rightarrow>
          (case (case session_key C h of
                   None \<Rightarrow> (Ok (), a)
                 | Some old \<Rightarrow> db_call E ''end old session'' (\<lambda>e. delete_session e old) a) of
             (Err _, a) \<Rightarrow> (error_response 500 ''cannot start a session'', a)
           | (Ok _, a) \<Rightarrow>
               (case db_call E ''create session'' (\<lambda>e. create_session e new) a of
                  (Err _, a) \<Rightarrow> (error_response 500 ''cannot start a session'', a)
                | (Ok _, a) \<Rightarrow>
                    (let a = audit_log_entry C E ''audit login''
                           (entry_client_ip ip (entry_account (account_username account) (entry_ok LOGIN_SUCCEEDED))) a
                     in (insert_header ''set-cookie'' (set_cookie token)
                           (respond 200 (Content (SessionInfo (account_username account) (new_csrf_token new)))), a)))))"

definition login :: "conf \<Rightarrow> env \<Rightarrow> ipaddr \<Rightarrow> headers \<Rightarrow> Login payload \<Rightarrow> app \<Rightarrow> auth_content response \<times> app" where
  "login C E peer h payload a =
     (case payload of
        Rejected code \<Rightarrow> (respond code Rejection, a)
      | Json l \<Rightarrow>
          let ip = client_ip C peer h in
          (case throttled C E (login_username l) ip a of
             (Err r, a) \<Rightarrow> (r, a)
           | (Ok attempt, a) \<Rightarrow>
               (case db_call E ''find account'' (\<lambda>e. find_account e (login_username l)) a of
                  (Err _, a) \<Rightarrow> (error_response 500 ''cannot check the login'', a)
                | (Ok account, a) \<Rightarrow>
                    let verified = login_verified C E account (login_password l) in
                    (case account of
                       Some acc \<Rightarrow>
                         if verified
                         then start_session C E ip h acc (throttle_succeeds C E (login_username l) ip attempt a)
                         else
                           (error_response 401 ''wrong username or password'',
                            audit_log_entry C E ''audit login'' (entry_client_ip ip (login_failed_entry account)) a)
                     | None \<Rightarrow>
                         (error_response 401 ''wrong username or password'',
                          audit_log_entry C E ''audit login'' (entry_client_ip ip (login_failed_entry account)) a)))))"

definition current :: "Session \<Rightarrow> auth_content response" where
  "current s = respond 200 (Content (SessionInfo (session_username s) (session_csrf_token s)))"

definition logout :: "conf \<Rightarrow> env \<Rightarrow> headers \<Rightarrow> app \<Rightarrow> (auth_content response \<times> app) option" where
  "logout C E h a =
     (case cookie_token h of
        None \<Rightarrow> None
      | Some token \<Rightarrow>
          (case db_call E ''logout'' (\<lambda>e. delete_session e (token_hash C token)) a of
             (Err _, a) \<Rightarrow> Some (error_response 500 ''cannot end the session'', a)
           | (Ok _, a) \<Rightarrow> Some (insert_header ''set-cookie'' clear_cookie (respond 204 NoBody), a)))"

definition issue_ticket :: "conf \<Rightarrow> env \<Rightarrow> headers \<Rightarrow> app \<Rightarrow> (auth_content response \<times> app) option" where
  "issue_ticket C E h a =
     (case session_key C h of
        None \<Rightarrow> None
      | Some key \<Rightarrow>
          (let a = others E ''issue ticket'' a;
               (r, ts) = issue (crypto_of C) (random_bytes E ''ticket'') key (header h ''origin'')
                 (instant_now E ''issue ticket'') (app_tickets a);
               a = a\<lparr>app_tickets := ts\<rparr>
           in Some (case r of
                Ok (Some ticket) \<Rightarrow> (respond 201 (Content (TicketInfo ticket)), a)
              | Ok None \<Rightarrow> (error_response 429 ''too many open tickets'', a)
              | Err _ \<Rightarrow> (error_response 500 ''cannot make a ticket'', a))))"

definition open_socket ::
    "conf \<Rightarrow> env \<Rightarrow> headers \<Rightarrow> ustr option \<Rightarrow> app \<Rightarrow> ((digest, 'x response) result \<times> app) option" where
  "open_socket C E h query_ticket a =
     (case lookup C E h a of
        (Ok None, a) \<Rightarrow> Some (Err unauthorized, a)
      | (Err _, a) \<Rightarrow> Some (Err lookup_failed, a)
      | (Ok (Some _), a) \<Rightarrow>
          (case session_key C h of
             None \<Rightarrow> None
           | Some key \<Rightarrow>
               (let a = others E ''redeem ticket'' a;
                    ticket = (case query_ticket of None \<Rightarrow> [] | Some t \<Rightarrow> t);
                    (fine, ts) = redeem (crypto_of C) ticket key (header h ''origin'')
                      (instant_now E ''redeem ticket'') (app_tickets a);
                    a = a\<lparr>app_tickets := ts\<rparr>
                in if \<not> fine
                   then Some (Err (error_response 403
                     ''missing, used, or expired ticket, or a page from another origin''), a)
                   else Some (Ok key, a))))"

text \<open>
  The loop of \<^verbatim>\<open>session_ended\<close>: poll \<open>k\<close> asks the database as the other tasks left it then. It returns the
  number of the poll that ends it, if that comes within the fuel.
\<close>

fun session_ended :: "(nat \<Rightarrow> sql_env) \<Rightarrow> (nat \<Rightarrow> db) \<Rightarrow> digest \<Rightarrow> nat \<Rightarrow> nat \<Rightarrow> nat option" where
  "session_ended envs dbs key k 0 = None"
| "session_ended envs dbs key k (Suc fuel) =
     (case fst (session_alive (envs k) key (dbs k)) of
        Ok True \<Rightarrow> session_ended envs dbs key (Suc k) fuel
      | _ \<Rightarrow> Some k)"

section \<open>The guard\<close>

definition looked_up :: "conf \<Rightarrow> env \<Rightarrow> headers \<Rightarrow> app \<Rightarrow> Session option" where
  "looked_up C E h a =
     Option.bind (session_key C h) (\<lambda>key.
       live_session key (clock (sql E ''session lookup'') 0) (app_db (others E ''session lookup'' a)))"

lemma lookup_Some: "lookup C E h a = (Ok (Some s), a') \<Longrightarrow> looked_up C E h a = Some s"
  by (auto simp: lookup_def looked_up_def session_key_def db_call_def result_simps Let_def
      dest!: session_Ok(1) split: option.splits prod.splits)

lemma lookup_None_alone:
  "alone E \<Longrightarrow> looked_up C E h a = None \<Longrightarrow> lookup C E h a = (r, a') \<Longrightarrow>
   r \<in> {Ok None, Err ()} \<and> a' = a"
  by (auto simp: lookup_def looked_up_def session_key_def db_call_alone session_def sql_bind_def stmt_def
      query_def sql_return_def Let_def alone_def split: option.splits prod.splits result.splits)

section \<open>Logins\<close>

text \<open>What a login that nobody interferes with does to the state, step by step.\<close>

lemma throttled_alone:
  assumes "alone E" and "throttled C E u ip a = (r, a')"
  shows "app_db a' = app_db a" and "app_logs a' = app_logs a" and "app_tickets a' = app_tickets a"
    and "r = Err resp \<Longrightarrow> status resp = 429"
  using assms
  by (auto simp: throttled_def db_call_alone alone_def find_account_def stmt_def query_def Let_def
      insert_header_def error_response_def respond_def split: prod.splits result.splits if_splits option.splits)

lemma find_account_alone:
  assumes "alone E" and "db_call E label (\<lambda>e. find_account e u) a = (r, a')"
  shows "a' = a"
    and "r = Ok x \<Longrightarrow> x = map_option account_of (find (\<lambda>acc. eq_ignore_ascii_case (acc_username acc) u) (accounts (app_db a)))"
  using assms
  by (auto simp: db_call_alone find_account_def stmt_def query_def split: option.splits prod.splits)

lemma delete_session_effect:
  "delete_session e token d = (r, d') \<Longrightarrow>
     (r = Ok () \<and> d' = d\<lparr>sessions := filter (\<lambda>s. row_token_sha256 s \<noteq> token) (sessions d)\<rparr>) \<or>
     (\<exists>x. r = Err x) \<and> d' = d"
  by (auto simp: delete_session_def sql_bind_def stmt_def delete_sessions_def sql_return_def
      split: option.splits)

lemma create_session_effect:
  assumes "create_session e new d = (r, d')"
  shows "(r = Ok () \<and> (\<exists>kept row. sessions d' = kept @ [row] \<and> set kept \<subseteq> set (sessions d) \<and>
      row_token_sha256 row = new_token_sha256 new \<and> row_account_id row = new_account_id new \<and>
      row_csrf_token row = new_csrf_token new \<and>
      row_last_seen_at row = clock e 1 \<and> row_expires_at row = clock e 1 + 24 * 60 * MINUTE)) \<or>
    (\<exists>x. r = Err x) \<and> set (sessions d') \<subseteq> set (sessions d)"
    and "accounts d' = accounts d"
  using assms
  by (auto simp: create_session_def sql_bind_def stmt_def delete_sessions_def insert_session_def sql_return_def
      ABSOLUTE_HOURS_def split: option.splits if_splits)

text \<open>The old session ends before the new one starts.\<close>

lemma end_old_alone:
  assumes "alone E"
    and "(case session_key C h of None \<Rightarrow> (Ok (), a)
      | Some old \<Rightarrow> db_call E ''end old session'' (\<lambda>e. delete_session e old) a) = (r, a')"
  shows "accounts (app_db a') = accounts (app_db a)" and "set (sessions (app_db a')) \<subseteq> set (sessions (app_db a))"
    and "r = Ok u \<Longrightarrow> s \<in> set (sessions (app_db a')) \<Longrightarrow> session_key C h \<noteq> Some (row_token_sha256 s)"
  using assms
  by (auto simp: db_call_alone split: option.splits prod.splits dest!: delete_session_effect)

text \<open>
  A session has started: the response sets a cookie with a new token, the database holds a row with
  the hash of that token for this account, and the session the browser had before is gone.
\<close>

definition session_started ::
    "conf \<Rightarrow> env \<Rightarrow> ipaddr \<Rightarrow> headers \<Rightarrow> Account \<Rightarrow> auth_content response \<Rightarrow> session_row list \<Rightarrow> session_row list \<Rightarrow> bool" where
  "session_started C E ip h acc r before after \<longleftrightarrow>
     (\<exists>token new kept row. new_session C E (account_id acc) ip h = Ok (token, new) \<and>
        after = kept @ [row] \<and> set kept \<subseteq> set before \<and>
        (\<forall>old\<in>set kept. session_key C h \<noteq> Some (row_token_sha256 old)) \<and>
        row_token_sha256 row = token_hash C token \<and> row_account_id row = account_id acc \<and>
        row_csrf_token row = new_csrf_token new \<and>
        row_last_seen_at row = clock (sql E ''create session'') 1 \<and>
        row_expires_at row = clock (sql E ''create session'') 1 + 24 * 60 * MINUTE \<and>
        r = insert_header ''set-cookie'' (set_cookie token)
          (respond 200 (Content (SessionInfo (account_username acc) (new_csrf_token new)))))"

lemma session_startedI:
  assumes "new_session C E (account_id acc) ip h = Ok (token, new)"
    and "create_session (sql E ''create session'') new d = (Ok u, d')"
    and "set (sessions d) \<subseteq> set before"
    and "\<And>s. s \<in> set (sessions d) \<Longrightarrow> session_key C h \<noteq> Some (row_token_sha256 s)"
  shows "session_started C E ip h acc
    (insert_header ''set-cookie'' (set_cookie token)
      (respond 200 (Content (SessionInfo (account_username acc) (new_csrf_token new))))) before (sessions d')"
proof -
  have "new_token_sha256 new = token_hash C token" "new_account_id new = account_id acc"
    using assms(1) by (auto simp: new_session_def result_simps)
  with create_session_effect(1) [OF assms(2)] assms(1,3,4) show ?thesis
    unfolding session_started_def by (intro exI [of _ token] exI [of _ new]) fastforce
qed

lemma start_session_alone:
  assumes E: "alone E" and s: "start_session C E ip h acc a = (r, a')"
  shows "accounts (app_db a') = accounts (app_db a) \<and>
    (status r = 500 \<and> set (sessions (app_db a')) \<subseteq> set (sessions (app_db a)) \<or>
     session_started C E ip h acc r (sessions (app_db a)) (sessions (app_db a')))"
proof (cases "new_session C E (account_id acc) ip h")
  case (Err e)
  with s show ?thesis by (auto simp: start_session_def error_response_def respond_def)
next
  case (Ok tn)
  obtain token new where tn: "tn = (token, new)" by (cases tn)
  obtain r1 a1 where old: "(case session_key C h of None \<Rightarrow> (Ok (), a)
      | Some old \<Rightarrow> db_call E ''end old session'' (\<lambda>e. delete_session e old) a) = (r1, a1)"
    by fastforce
  note eff1 = end_old_alone [OF E old]
  obtain r2 a2 where create: "db_call E ''create session'' (\<lambda>e. create_session e new) a1 = (r2, a2)"
    by fastforce
  note call2 = db_call_fields(4) [OF E create]
  note eff2 = create_session_effect [OF call2]
  show ?thesis
  proof (cases "\<exists>u v. r1 = Ok u \<and> r2 = Ok v")
    case True
    then obtain u v where uv: "r1 = Ok u" "r2 = Ok v" by blast
    from s Ok tn old create uv have
      r: "r = insert_header ''set-cookie'' (set_cookie token)
        (respond 200 (Content (SessionInfo (account_username acc) (new_csrf_token new))))"
      and a': "a' = audit_log_entry C E ''audit login''
        (entry_client_ip ip (entry_account (account_username acc) (entry_ok LOGIN_SUCCEEDED))) a2"
      by (auto simp: start_session_def Let_def)
    show ?thesis
      using session_startedI [OF Ok [unfolded tn] call2 [unfolded uv] eff1(2) eff1(3) [OF uv(1)]] eff1(1) eff2(2)
      by (simp add: r a' audit_log_entry_alone [OF E])
  next
    case False
    with s Ok tn old create eff1 eff2 show ?thesis
      by (cases r1; cases r2) (auto simp: start_session_def error_response_def respond_def)
  qed
qed

text \<open>The outcome of a login, for the account that carries the name.\<close>

definition named_account :: "ustr \<Rightarrow> app \<Rightarrow> Account option" where
  "named_account u a =
     map_option account_of (find (\<lambda>acc. eq_ignore_ascii_case (acc_username acc) u) (accounts (app_db a)))"

lemma login_alone:
  assumes E: "alone E" and l: "login C E peer h (Json l) a = (r, a')"
  shows "accounts (app_db a') = accounts (app_db a) \<and>
    (status r \<noteq> 200 \<and> set (sessions (app_db a')) \<subseteq> set (sessions (app_db a)) \<or>
     (\<exists>acc. named_account (login_username l) a = Some acc \<and>
        password_verify (crypto_of C) (login_password l) (account_password_hash acc) \<and>
        session_started C E (client_ip C peer h) h acc r (sessions (app_db a)) (sessions (app_db a'))))"
proof -
  let ?ip = "client_ip C peer h"
  obtain r1 a1 where t: "throttled C E (login_username l) ?ip a = (r1 :: (Attempt, auth_content response) result, a1)"
    by fastforce
  note eff1 = throttled_alone [OF E t]
  obtain r2 a2 where f: "db_call E ''find account'' (\<lambda>e. find_account e (login_username l)) a1 = (r2, a2)"
    by fastforce
  note eff2 = find_account_alone [OF E f]
  have succ: "app_db (throttle_succeeds C E u ip at a) = app_db a" for u ip at a
    using E by (simp add: throttle_succeeds_def alone_def)
  show ?thesis
  proof (cases "\<exists>attempt acc. r1 = Ok attempt \<and> r2 = Ok (Some acc) \<and> login_verified C E (Some acc) (login_password l)")
    case True
    then obtain attempt acc where x: "r1 = Ok attempt" "r2 = Ok (Some acc)"
        "login_verified C E (Some acc) (login_password l)"
      by blast
    then have "start_session C E ?ip h acc (throttle_succeeds C E (login_username l) ?ip attempt a2) = (r, a')"
      using l t f by (simp add: login_def Let_def)
    moreover have "named_account (login_username l) a = Some acc"
      using eff1(1) eff2 x(2) by (simp add: named_account_def)
    moreover have "password_verify (crypto_of C) (login_password l) (account_password_hash acc)"
      using x(3) by (auto simp: login_verified_def run_blocking_def split: if_splits)
    ultimately show ?thesis
      using start_session_alone [OF E] eff1(1) eff2(1) by (force simp: succ)
  next
    case False
    with l t f eff1 eff2(1) show ?thesis
      by (cases r1; cases r2)
        (auto simp: login_def Let_def error_response_def respond_def audit_log_entry_alone [OF E]
          split: option.splits if_splits)
  qed
qed

lemma require_session_cases:
  "(\<exists>s a1. looked_up C E h a = Some s \<and> (is_safe m \<or> header h CSRF_HEADER = Some (session_csrf_token s)) \<and>
      (\<forall>handler. require_session C E m h handler (a, k) = handler s (a1, k))) \<or>
   (\<exists>r a1. status r \<in> {401, 403, 500} \<and> (\<forall>handler. require_session C E m h handler (a, k) = (r, a1, k)))"
proof (cases "lookup C E h a")
  case (Pair r a1)
  show ?thesis
  proof (cases "\<exists>s. r = Ok (Some s) \<and> (is_safe m \<or> csrf_matches h s)")
    case True
    then obtain s where s: "r = Ok (Some s)" "is_safe m \<or> csrf_matches h s" by blast
    with Pair lookup_Some have "looked_up C E h a = Some s" by blast
    with s Pair show ?thesis
      by (auto simp: require_session_def csrf_matches_def)
  next
    case False
    consider (none) "r = Ok None" | (other) s where "r = Ok (Some s)" | (err) e where "r = Err e"
      by (metis option.exhaust result.exhaust)
    then have "\<exists>r' a1'. status r' \<in> {401, 403, 500} \<and> (\<forall>handler. require_session C E m h handler (a, k) = (r', a1', k))"
      by cases (use False Pair in \<open>auto simp: require_session_def unauthorized_def lookup_failed_def
        error_response_def respond_def\<close>)
    then show ?thesis by blast
  qed
qed

text \<open>The guard as a gate: what it lets through, and that a refused request leaves what is behind the database alone.\<close>

definition guard_lets :: "conf \<Rightarrow> env \<Rightarrow> http_method \<Rightarrow> headers \<Rightarrow> app \<Rightarrow> bool" where
  "guard_lets C E m h a \<longleftrightarrow>
     (case looked_up C E h a of
        None \<Rightarrow> False
      | Some s \<Rightarrow> is_safe m \<or> header h CSRF_HEADER = Some (session_csrf_token s))"

lemma require_session_shut:
  assumes "\<not> guard_lets C E m h a"
  shows "\<exists>r a1. \<forall>handler. require_session C E m h handler (a, k) = (r, a1, k)"
  using require_session_cases [of C E h a m k] assms by (auto simp: guard_lets_def)

interpretation session_gate: gate "require_session C E m h" "\<lambda>st. guard_lets C E m h (fst st)" "\<lambda>out. snd (snd out)" snd for C E m h
proof
  fix handler handler' :: "Session \<Rightarrow> app \<times> 'k \<Rightarrow> 'x response \<times> app \<times> 'k" and st :: "app \<times> 'k"
  assume shut: "\<not> guard_lets C E m h (fst st)"
  obtain a k where st: "st = (a, k)" by fastforce
  obtain r :: "'x response" and a1 where "\<And>Z. require_session C E m h Z (a, k) = (r, a1, k)"
    using require_session_shut [of C E m h a k] shut st by auto
  then show "require_session C E m h handler st = require_session C E m h handler' st"
    and "snd (snd (require_session C E m h handler st)) = snd st" by (simp_all add: st)
qed

lemma open_socket_cases:
  "\<exists>r a'. open_socket C E h q a = Some (r, a') \<and>
     (case r of Err _ \<Rightarrow> True | Ok key \<Rightarrow> session_key C h = Some key \<and> looked_up C E h a \<noteq> None \<and>
        (\<exists>ts. fst (redeem (crypto_of C) (case q of None \<Rightarrow> [] | Some t \<Rightarrow> t) key (header h ''origin'')
           (instant_now E ''redeem ticket'') ts)))"
proof (cases "lookup C E h a")
  case (Pair r a1)
  show ?thesis
  proof (cases "\<exists>s. r = Ok (Some s)")
    case True
    then obtain s where s: "r = Ok (Some s)" by blast
    with Pair lookup_Some have live: "looked_up C E h a = Some s" by blast
    then obtain key where "session_key C h = Some key"
      by (auto simp: looked_up_def bind_eq_Some_conv)
    with s Pair live show ?thesis
      by (auto simp: open_socket_def Let_def prod_eq_iff split: prod.splits)
  next
    case False
    with Pair show ?thesis
      by (cases r) (auto simp: open_socket_def split: option.splits)
  qed
qed

section \<open>Properties\<close>

text \<open>
  A protected handler runs only for a request whose cookie names a session that is live in the
  database at that moment and, unless the method is GET or HEAD, whose \<^verbatim>\<open>X-CSRF-Token\<close> is that
  session's token. For any other request the answer is 401, 403 or 500, and nothing of the handler
  runs: the outcome is the same for every handler.
\<close>

theorem protected_needs_session:
  "(\<exists>s a1. looked_up C E h a = Some s \<and> (is_safe m \<or> header h CSRF_HEADER = Some (session_csrf_token s)) \<and>
      (\<forall>handler. require_session C E m h handler (a, k) = handler s (a1, k))) \<or>
   (\<exists>r a1. status r \<in> {401, 403, 500} \<and> (\<forall>handler. require_session C E m h handler (a, k) = (r, a1, k)))"
  by (rule require_session_cases)

text \<open>
  C18: a login answers 200 only if the account with that name has a stored hash that the password
  verifies against. Then the cookie carries a new token, only its hash is stored, and the session the
  browser had before is gone. Any other outcome adds no session. No login changes an account.
\<close>

theorem login_needs_password:
  assumes "alone E" and "login C E peer h (Json l) a = (r, a')"
  shows "accounts (app_db a') = accounts (app_db a) \<and>
    (if status r = 200
     then \<exists>acc. named_account (login_username l) a = Some acc \<and>
        password_verify (crypto_of C) (login_password l) (account_password_hash acc) \<and>
        session_started C E (client_ip C peer h) h acc r (sessions (app_db a)) (sessions (app_db a'))
     else set (sessions (app_db a')) \<subseteq> set (sessions (app_db a)))"
  using login_alone [OF assms] by (auto simp: session_started_def insert_header_def respond_def)

text \<open>
  After a logout that answered 204, the same cookie no longer opens any protected route: the answer
  is 401, or 500 if the database fails, and no handler runs.
\<close>

theorem logout_ends_session:
  assumes E: "alone E" "alone E'" and wf: "db_wf (app_db a)"
    and "logout C E h a = Some (r, a')" and "status r = 204"
  shows "\<exists>r'. status r' \<in> {401, 500} \<and> (\<forall>handler. require_session C E' m h handler (a', k) = (r', a', k))"
proof -
  from assms(4) obtain token where token: "cookie_token h = Some token"
    by (auto simp: logout_def split: option.splits)
  obtain r1 where d: "db_call E ''logout'' (\<lambda>e. delete_session e (token_hash C token)) a = (r1, a')" "r1 = Ok ()"
    using assms(4,5) token
    by (auto simp: logout_def error_response_def respond_def split: prod.splits result.splits)
  have rows: "sessions (app_db a') = filter (\<lambda>s. row_token_sha256 s \<noteq> token_hash C token) (sessions (app_db a))"
    using delete_session_effect [OF db_call_fields(4) [OF E(1) d(1)]] d(2) by auto
  have "live_session (token_hash C token) t (app_db a') = None" for t
  proof -
    have "find (\<lambda>s. row_token_sha256 s = token_hash C token \<and> row_live t s) (sessions (app_db a')) = None"
      by (auto simp: rows find_None_iff)
    then show ?thesis by (simp add: live_session_def)
  qed
  then have none: "looked_up C E' h a' = None"
    using E(2) token by (simp add: looked_up_def session_key_def alone_def)
  obtain r2 a2 where "lookup C E' h a' = (r2, a2)" by fastforce
  with lookup_None_alone [OF E(2) none this] show ?thesis
    by (auto simp: require_session_def unauthorized_def lookup_failed_def error_response_def respond_def)
qed

text \<open>
  A WebSocket upgrade is accepted only with a live session and with a ticket that the ticket store
  accepts for exactly that session and that \<open>Origin\<close>; the ticket is used up in any case. The
  handlers never panic behind the guard.
\<close>

theorem open_socket_sound:
  "\<exists>r a'. open_socket C E h q a = Some (r, a') \<and>
     (case r of Err _ \<Rightarrow> True | Ok key \<Rightarrow> session_key C h = Some key \<and> looked_up C E h a \<noteq> None \<and>
        (\<exists>ts. fst (redeem (crypto_of C) (case q of None \<Rightarrow> [] | Some t \<Rightarrow> t) key (header h ''origin'')
           (instant_now E ''redeem ticket'') ts)))"
  by (rule open_socket_cases)

text \<open>
  C19: an open socket ends at the first poll that finds its session not live, or that the database
  refuses; it ends then, and not earlier.
\<close>

theorem socket_ends_with_session:
  assumes "\<forall>i. db_wf (dbs i)" and "\<forall>i<n. fails (envs i) 0 = None \<and> live_session key (clock (envs i) 0) (dbs i) \<noteq> None"
    and "fails (envs n) 0 \<noteq> None \<or> live_session key (clock (envs n) 0) (dbs n) = None"
  shows "session_ended envs dbs key 0 (Suc n) = Some n"
proof -
  have alive: "fst (session_alive (envs i) key (dbs i)) = Ok True \<longleftrightarrow>
      fails (envs i) 0 = None \<and> live_session key (clock (envs i) 0) (dbs i) \<noteq> None" for i
  proof -
    have "fails (envs i) 0 = None \<Longrightarrow> fst (session_alive (envs i) key (dbs i)) =
        Ok (list_ex (\<lambda>s. row_token_sha256 s = key \<and> row_live (clock (envs i) 0) s) (sessions (dbs i)))"
      by (simp add: session_alive_def stmt_def query_def)
    then show ?thesis
      using session_alive_iff [of "dbs i" key "clock (envs i) 0"] assms(1)
      by (cases "fails (envs i) 0") (auto simp: session_alive_def stmt_def)
  qed
  have "session_ended envs dbs key k (Suc m) = Some (k + m)"
    if "k + m = n" for k m
    using that
  proof (induction m arbitrary: k)
    case 0
    with alive [of n] assms(3) have "fst (session_alive (envs k) key (dbs k)) \<noteq> Ok True" by auto
    then show ?case by (auto split: result.splits bool.splits)
  next
    case (Suc m)
    then have "fst (session_alive (envs k) key (dbs k)) = Ok True"
      using alive [of k] assms(2) by auto
    with Suc show ?case by simp
  qed
  from this [of 0 n] show ?thesis by simp
qed

subsection \<open>Witnesses\<close>

definition quiet_env :: "time \<Rightarrow> env" where
  "quiet_env t = \<lparr>others = (\<lambda>_ a. a), sql = (\<lambda>_. at_time t), instant_now = (\<lambda>_. 0),
     random_bytes = (\<lambda>label. Ok (if label = ''session token'' then [21] else [22])),
     task_runs = (\<lambda>_. True), salt = (\<lambda>_. [1])\<rparr>"

definition example_app :: app where
  "example_app = \<lparr>app_db = example_db, app_throttle = throttle_new, app_tickets = [], app_setup = None,
     app_logs = \<lparr>stderr_log = [], socket_log = []\<rparr>\<rparr>"

definition with_cookie :: "ustr \<Rightarrow> headers" where
  "with_cookie token = \<lparr>header = (\<lambda>_. None), cookie_headers = [lit COOKIE @ lit ''='' @ token]\<rparr>"

lemma quiet_alone: "alone (quiet_env t)"
  by (simp add: alone_def quiet_env_def)

theorem login_needs_password_witness:
  "\<exists>acc. named_account (lit ''Admin'') example_app = Some acc \<and>
     password_verify toy_crypto (lit ''hash'') (account_password_hash acc)"
proof -
  let ?r = "login example_conf (quiet_env 5) (V4 2) no_headers
    (Json \<lparr>login_username = lit ''Admin'', login_password = lit ''hash''\<rparr>) example_app"
  have ok: "status (fst ?r) = 200"
    by code_simp
  have "?r = (fst ?r, snd ?r)" by simp
  from login_needs_password [OF quiet_alone this] ok show ?thesis
    by (auto simp: example_conf_def)
qed

theorem logout_ends_session_witness:
  "\<exists>r'. status r' \<in> {401, 500} \<and>
     (\<forall>handler. require_session example_conf (quiet_env 6) GET (with_cookie [7]) handler
        (snd (the (logout example_conf (quiet_env 5) (with_cookie [7]) example_app)), ()) =
        (r', snd (the (logout example_conf (quiet_env 5) (with_cookie [7]) example_app)), ()))"
proof -
  let ?l = "logout example_conf (quiet_env 5) (with_cookie [7]) example_app"
  have "?l \<noteq> None \<and> status (fst (the ?l)) = 204"
    by code_simp
  then have l: "?l = Some (fst (the ?l), snd (the ?l))" "status (fst (the ?l)) = 204"
    by auto
  have "db_wf (app_db example_app)"
    using example_db_wf by (simp add: example_app_def)
  from logout_ends_session [OF quiet_alone quiet_alone this l, where k = "()"] show ?thesis by blast
qed

theorem socket_ends_with_session_witness:
  "session_ended (\<lambda>i. at_time (5 + int i)) (\<lambda>i. if i = 0 then example_db else empty_db) [7] 0 2 = Some 1"
proof -
  have live: "live_session [7] 5 example_db \<noteq> None"
    by code_simp
  have gone: "live_session [7] t empty_db = None" for t
    by (simp add: live_session_def empty_db_def)
  have "session_ended (\<lambda>i. at_time (5 + int i)) (\<lambda>i. if i = 0 then example_db else empty_db) [7] 0 (Suc 1) = Some 1"
    by (rule socket_ends_with_session)
      (use live in \<open>auto simp: example_db_wf empty_db_wf at_time_def gone\<close>)
  then show ?thesis by (simp add: numeral_2_eq_2)
qed

end
