(* ===== verification/Setup.thy ===== *)
theory Setup
  imports Auth
begin

text \<open>
  \<^verbatim>\<open>lodger/src/setup.rs\<close>: the one-time token that claims a new install.
\<close>

section \<open>Model\<close>

definition TOKEN_LIFETIME :: duration where
  "TOKEN_LIFETIME = secs (60 * 60)"

definition generate :: "conf \<Rightarrow> random \<Rightarrow> instant \<Rightarrow> (ustr \<times> SetupToken, ustr) result" where
  "generate C bytes now =
     map_ok (\<lambda>b. let text = hex_encode (crypto_of C) b in
       (text, \<lparr>st_hash = sha256 (crypto_of C) text, st_expires = now + TOKEN_LIFETIME\<rparr>)) bytes"

definition token_matches :: "conf \<Rightarrow> SetupToken \<Rightarrow> ustr \<Rightarrow> bool" where
  "token_matches C token submitted \<longleftrightarrow> st_hash token = sha256 (crypto_of C) (trim submitted)"

datatype setup_content = SetupOpen | SetupCreated ustr

definition setup_status :: "env \<Rightarrow> app \<Rightarrow> setup_content response \<times> app" where
  "setup_status E a =
     (let a = others E ''setup status'' a in
      (case app_setup a of
         Some t \<Rightarrow>
           if instant_now E ''setup status'' < st_expires t then respond 200 (Content SetupOpen) else respond 404 NoBody
       | None \<Rightarrow> respond 404 NoBody, a))"

record Claim =
  claim_token :: ustr
  claim_username :: ustr
  claim_password :: ustr

text \<open>The account's own rules, and then the first account in one transaction.\<close>

definition create_claimed :: "conf \<Rightarrow> env \<Rightarrow> ipaddr \<Rightarrow> headers \<Rightarrow> Claim \<Rightarrow> app \<Rightarrow> setup_content response \<times> app" where
  "create_claimed C E peer h c a =
     (case Name_parse ''username'' (claim_username c) of
        Err e \<Rightarrow> (respond 422 (BadInput e), a)
      | Ok username \<Rightarrow>
          (case password_check (lower C) (common C) (claim_password c) of
             Err e \<Rightarrow> (respond 422 (BadPassword e), a)
           | Ok _ \<Rightarrow>
               (case run_blocking (task_runs E ''hash'')
                  (password_hash (crypto_of C) (salt E ''hash'') (claim_password c)) of
                  Some (Ok hash) \<Rightarrow>
                    (case db_call E ''create first account'' (\<lambda>e. create_first_account e (as_str username) hash) a of
                       (Ok True, a) \<Rightarrow>
                         (let a = (others E ''close setup'' a)\<lparr>app_setup := None\<rparr>;
                              ip = client_ip C peer h;
                              a = audit_log_entry C E ''audit setup''
                                (entry_client_ip ip (entry_account (as_str username) (entry_ok ''setup.completed''))) a
                          in (respond 201 (Content (SetupCreated (as_str username))), a))
                     | (Ok False, a) \<Rightarrow> (respond 404 NoBody, a)
                     | (Err _, a) \<Rightarrow> (error_response 500 ''cannot create the account'', a))
                | _ \<Rightarrow> (error_response 500 ''cannot hash the password'', a))))"

definition claim :: "conf \<Rightarrow> env \<Rightarrow> ipaddr \<Rightarrow> headers \<Rightarrow> Claim payload \<Rightarrow> app \<Rightarrow> setup_content response \<times> app" where
  "claim C E peer h payload a =
     (let a = others E ''setup open'' a in
      if app_setup a = None then (respond 404 NoBody, a)
      else case payload of
        Rejected code \<Rightarrow> (respond code Rejection, a)
      | Json c \<Rightarrow>
          (let a = others E ''setup token'' a in
           case app_setup a of
             None \<Rightarrow> (respond 404 NoBody, a)
           | Some token \<Rightarrow>
               if \<not> token_matches C token (claim_token c) then (error_response 403 ''wrong setup token'', a)
               else if instant_now E ''setup token'' \<ge> st_expires token
               then (error_response 403 ''the setup token expired. Restart Lodger to write a new one to the log'', a)
               else create_claimed C E peer h c a))"

section \<open>Claims\<close>

lemma create_first_account_tables:
  assumes "create_first_account e u h d = (r, d')"
  shows "sessions d' = sessions d \<and> (r \<noteq> Ok True \<longrightarrow> d' = d)"
    and "r = Ok True \<Longrightarrow> accounts d = [] \<and>
      accounts d' = [\<lparr>acc_id = 1, acc_username = u, acc_password_hash = h, acc_created_at = clock e 2,
        acc_password_changed_at = clock e 2\<rparr>]"
proof -
  show "sessions d' = sessions d \<and> (r \<noteq> Ok True \<longrightarrow> d' = d)"
  proof (cases r)
    case (Err x)
    with assms have "d' = d"
      by (auto simp: create_first_account_def dest: transaction_Err)
    then show ?thesis by simp
  qed (use assms in \<open>auto simp: create_first_account_def sql_ok insert_account_def Let_def split: if_splits\<close>)
qed (use assms in \<open>auto simp: create_first_account_def sql_ok insert_account_def Let_def new_rowid_def
    split: if_splits\<close>)

lemma create_claimed_alone:
  assumes E: "alone E" and c: "create_claimed C E peer h c a = (r, a')"
  shows "(status r \<noteq> 201 \<and> a' = a) \<or>
    (\<exists>n hash. status r = 201 \<and> Name_parse ''username'' (claim_username c) = Ok n \<and>
       password_check (lower C) (common C) (claim_password c) = Ok () \<and>
       password_hash (crypto_of C) (salt E ''hash'') (claim_password c) = Ok hash \<and>
       accounts (app_db a) = [] \<and> app_setup a' = None \<and>
       map (\<lambda>x. (acc_username x, acc_password_hash x)) (accounts (app_db a')) = [(as_str n, hash)])"
proof (cases "\<exists>n hash. Name_parse ''username'' (claim_username c) = Ok n \<and>
    password_check (lower C) (common C) (claim_password c) = Ok () \<and>
    run_blocking (task_runs E ''hash'') (password_hash (crypto_of C) (salt E ''hash'') (claim_password c)) = Some (Ok hash)")
  case True
  then obtain n hash where n: "Name_parse ''username'' (claim_username c) = Ok n"
      "password_check (lower C) (common C) (claim_password c) = Ok ()"
      "run_blocking (task_runs E ''hash'') (password_hash (crypto_of C) (salt E ''hash'') (claim_password c)) = Some (Ok hash)"
    by blast
  obtain r1 a1 where d: "db_call E ''create first account'' (\<lambda>e. create_first_account e (as_str n) hash) a = (r1, a1)"
    by fastforce
  note eff = create_first_account_tables [OF db_call_fields(4) [OF E d]]
  show ?thesis
  proof (cases "r1 = Ok True")
    case True
    have hash: "password_hash (crypto_of C) (salt E ''hash'') (claim_password c) = Ok hash"
      using n(3) by (simp add: run_blocking_def split: if_splits)
    have "accounts (app_db a') = accounts (app_db a1) \<and> app_setup a' = None \<and> status r = 201"
      using c n d True E
      by (auto simp: create_claimed_def Let_def respond_def audit_log_entry_alone [OF E] alone_def)
    with eff(2) [OF True] n hash show ?thesis by auto
  next
    case False
    have "a1 = a"
      using d eff(1) False E by (auto simp: db_call_alone split: prod.splits)
    with c n d False show ?thesis
      by (auto simp: create_claimed_def error_response_def respond_def split: result.splits bool.splits)
  qed
next
  case False
  with c show ?thesis
    by (auto simp: create_claimed_def error_response_def respond_def split: result.splits option.splits)
qed

section \<open>Properties\<close>

text \<open>
  C20: a setup claim answers 201 only with the token that was generated, before it expires, on a database
  without accounts, with a valid name and a password that meets the policy. It then creates exactly that
  account and closes setup. Any other answer leaves the state as it was.
\<close>

theorem setup_claim_needs_token:
  assumes E: "alone E" and c: "claim C E peer h (Json c) a = (r, a')"
  shows "if status r = 201
    then \<exists>token n hash. app_setup a = Some token \<and> st_hash token = sha256 (crypto_of C) (trim (claim_token c)) \<and>
      instant_now E ''setup token'' < st_expires token \<and>
      Name_parse ''username'' (claim_username c) = Ok n \<and>
      password_check (lower C) (common C) (claim_password c) = Ok () \<and>
      accounts (app_db a) = [] \<and> app_setup a' = None \<and>
      map (\<lambda>x. (acc_username x, acc_password_hash x)) (accounts (app_db a')) = [(as_str n, hash)]
    else a' = a"
proof (cases "\<exists>token. app_setup a = Some token \<and> token_matches C token (claim_token c) \<and>
    instant_now E ''setup token'' < st_expires token")
  case True
  then have "create_claimed C E peer h c a = (r, a')"
    using c E by (auto simp: claim_def alone_def)
  with create_claimed_alone [OF E this] True show ?thesis
    by (auto simp: token_matches_def)
next
  case False
  with c E show ?thesis
    by (auto simp: claim_def alone_def respond_def error_response_def not_less split: option.splits if_splits)
qed

theorem setup_claim_needs_token_witness:
  "\<exists>r a'. claim example_conf (quiet_env 5) (V4 2) no_headers
      (Json \<lparr>claim_token = [7], claim_username = lit ''admin'', claim_password = lit ''correct horse battery''\<rparr>)
      (example_app\<lparr>app_db := empty_db, app_setup := Some \<lparr>st_hash = [7], st_expires = 1\<rparr>\<rparr>) = (r, a') \<and>
     status r = 201 \<and> app_setup a' = None"
proof -
  let ?a = "example_app\<lparr>app_db := empty_db, app_setup := Some \<lparr>st_hash = [7], st_expires = 1\<rparr>\<rparr>"
  let ?r = "claim example_conf (quiet_env 5) (V4 2) no_headers
      (Json \<lparr>claim_token = [7], claim_username = lit ''admin'', claim_password = lit ''correct horse battery''\<rparr>) ?a"
  have ok: "status (fst ?r) = 201"
    by code_simp
  have eq: "?r = (fst ?r, snd ?r)" by simp
  from setup_claim_needs_token [OF quiet_alone eq] ok have "app_setup (snd ?r) = None" by auto
  with ok eq show ?thesis by blast
qed

end
