(* ===== verification/Accounts.thy ===== *)
theory Accounts
  imports Setup
begin

text \<open>
  \<^verbatim>\<open>lodger/src/accounts.rs\<close>: list, create and delete accounts, and change the caller's own password. All
  four run behind the session guard, which gives them the caller's \<open>Session\<close>.
\<close>

section \<open>Model\<close>

definition ACCOUNT_CREATE :: string where
  "ACCOUNT_CREATE = ''account.create''"

definition ACCOUNT_DELETE :: string where
  "ACCOUNT_DELETE = ''account.delete''"

definition CHANGE_PASSWORD :: string where
  "CHANGE_PASSWORD = ''account.change_password''"

datatype account_content =
    Listed "(AccountInfo \<times> bool) list"
  | AccountCreated int ustr
  | Changed nat ustr

definition database_failed :: "string \<Rightarrow> 'x response" where
  "database_failed what = error_response 500 (''cannot '' @ what)"

definition accounts_hash :: "conf \<Rightarrow> env \<Rightarrow> ustr \<Rightarrow> (ustr, 'x response) result" where
  "accounts_hash C E password =
     (case run_blocking (task_runs E ''hash'') (password_hash (crypto_of C) (salt E ''hash'') password) of
        Some (Ok hash) \<Rightarrow> Ok hash
      | _ \<Rightarrow> Err (error_response 500 ''cannot hash the password''))"

definition accounts_list :: "env \<Rightarrow> Session \<Rightarrow> app \<Rightarrow> account_content response \<times> app" where
  "accounts_list E s a =
     (case db_call E ''list accounts'' list_accounts a of
        (Ok accs, a) \<Rightarrow>
          (respond 200 (Content (Listed (map (\<lambda>i. (i, info_id i = session_account_id s)) accs))), a)
      | (Err _, a) \<Rightarrow> (database_failed ''list the accounts'', a))"

record NewAccount =
  na_username :: ustr
  na_password :: ustr

definition accounts_create ::
    "conf \<Rightarrow> env \<Rightarrow> ipaddr \<Rightarrow> headers \<Rightarrow> Session \<Rightarrow> NewAccount payload \<Rightarrow> app \<Rightarrow> account_content response \<times> app" where
  "accounts_create C E peer h s payload a =
     (case payload of
        Rejected code \<Rightarrow> (respond code Rejection, a)
      | Json new \<Rightarrow>
          (case Name_parse ''username'' (na_username new) of
             Err e \<Rightarrow> (respond 422 (BadInput e), a)
           | Ok n \<Rightarrow>
               (case password_check (lower C) (common C) (na_password new) of
                  Err e \<Rightarrow> (respond 422 (BadPassword e), a)
                | Ok _ \<Rightarrow>
                    (case accounts_hash C E (na_password new) of
                       Err r \<Rightarrow> (r, a)
                     | Ok hash \<Rightarrow>
                         let username = as_str n;
                             by = (\<lambda>entry. target_account username
                               (entry_client_ip (client_ip C peer h) (entry_account (session_username s) entry)))
                         in
                         (case db_call E ''create account'' (\<lambda>e. create_account e username hash) a of
                            (Ok (Some i), a) \<Rightarrow>
                              (respond 201 (Content (AccountCreated i username)),
                               audit_log_entry C E ''audit account'' (by (entry_ok ACCOUNT_CREATE)) a)
                          | (Ok None, a) \<Rightarrow>
                              (respond 409 (MessageAbout ''an account with this name exists already'' username),
                               audit_log_entry C E ''audit account'' (by (entry_failed ACCOUNT_CREATE ''name_taken'')) a)
                          | (Err _, a) \<Rightarrow> (database_failed ''create the account'', a))))))"

definition accounts_delete ::
    "conf \<Rightarrow> env \<Rightarrow> ipaddr \<Rightarrow> headers \<Rightarrow> Session \<Rightarrow> int \<Rightarrow> app \<Rightarrow> account_content response \<times> app" where
  "accounts_delete C E peer h s i a =
     (let by = (\<lambda>entry. entry_client_ip (client_ip C peer h) (entry_account (session_username s) entry)) in
      case db_call E ''delete account'' (\<lambda>e. delete_account e i) a of
        (Ok (Yes name), a) \<Rightarrow>
          (respond 204 NoBody,
           audit_log_entry C E ''audit account'' (target_account name (by (entry_ok ACCOUNT_DELETE))) a)
      | (Ok NoSuchAccount, a) \<Rightarrow> (error_response 404 ''no such account'', a)
      | (Ok LastAccount, a) \<Rightarrow>
          (error_response 409 ''this is the last account. Add another account before you delete this one'',
           audit_log_entry C E ''audit account''
             (target_account (session_username s) (by (entry_failed ACCOUNT_DELETE ''last_account''))) a)
      | (Err _, a) \<Rightarrow> (database_failed ''delete the account'', a))"

record PasswordChange =
  pc_current :: ustr
  pc_new :: ustr

text \<open>After the current password is verified: the new hash, the new session, and the transaction.\<close>

definition store_password ::
    "conf \<Rightarrow> env \<Rightarrow> ipaddr \<Rightarrow> headers \<Rightarrow> Account \<Rightarrow> ustr \<Rightarrow> (AuditEntry \<Rightarrow> AuditEntry) \<Rightarrow> app
      \<Rightarrow> (account_content response \<times> app) option" where
  "store_password C E ip h account new_password by a =
     (case accounts_hash C E new_password of
        Err r \<Rightarrow> Some (r, a)
      | Ok hash \<Rightarrow>
          (case session_key C h of
             None \<Rightarrow> None
           | Some key \<Rightarrow>
               (case new_session C E (account_id account) ip h of
                  Err _ \<Rightarrow> Some (error_response 500 ''cannot change the password'', a)
                | Ok (token, new) \<Rightarrow>
                    (case db_call E ''change password'' (\<lambda>e. change_password e (account_id account) hash key new) a of
                       (Ok ended, a) \<Rightarrow>
                         Some (insert_header ''set-cookie'' (set_cookie token)
                           (respond 200 (Content (Changed ended (new_csrf_token new)))),
                           audit_log_entry C E ''audit account'' (by (entry_ok CHANGE_PASSWORD)) a)
                     | (Err _, a) \<Rightarrow> Some (database_failed ''change the password'', a)))))"

definition accounts_change_password ::
    "conf \<Rightarrow> env \<Rightarrow> ipaddr \<Rightarrow> headers \<Rightarrow> Session \<Rightarrow> PasswordChange payload \<Rightarrow> app
      \<Rightarrow> (account_content response \<times> app) option" where
  "accounts_change_password C E peer h s payload a =
     (case payload of
        Rejected code \<Rightarrow> Some (respond code Rejection, a)
      | Json change \<Rightarrow>
          (case password_check (lower C) (common C) (pc_new change) of
             Err e \<Rightarrow> Some (respond 422 (BadPassword e), a)
           | Ok _ \<Rightarrow>
               (case db_call E ''account by id'' (\<lambda>e. account_by_id e (session_account_id s)) a of
                  (Ok None, a) \<Rightarrow> Some (unauthorized, a)
                | (Err _, a) \<Rightarrow> Some (database_failed ''change the password'', a)
                | (Ok (Some account), a) \<Rightarrow>
                    let ip = client_ip C peer h in
                    (case throttled C E (account_username account) ip a of
                       (Err r, a) \<Rightarrow> Some (r, a)
                     | (Ok attempt, a) \<Rightarrow>
                         let verified = (case run_blocking (task_runs E ''verify'')
                               (password_verify (crypto_of C) (pc_current change) (account_password_hash account)) of
                               Some b \<Rightarrow> b | None \<Rightarrow> False);
                             by = (\<lambda>entry. target_account (account_username account)
                               (entry_client_ip ip (entry_account (account_username account) entry)))
                         in
                         if \<not> verified
                         then Some (error_response 403 ''the current password is wrong'',
                           audit_log_entry C E ''audit account'' (by (entry_failed CHANGE_PASSWORD ''wrong_password'')) a)
                         else store_password C E ip h account (pc_new change) by
                           (throttle_succeeds C E (account_username account) ip attempt a)))))"

section \<open>Password changes\<close>

lemma account_by_id_alone:
  assumes "alone E" and "db_call E label (\<lambda>e. account_by_id e i) a = (r, a')"
  shows "a' = a" and "r = Ok x \<Longrightarrow> x = map_option account_of (find (\<lambda>acc. acc_id acc = i) (accounts (app_db a)))"
  using assms
  by (auto simp: db_call_alone account_by_id_def stmt_def query_def split: option.splits prod.splits)

text \<open>The tables are as they were.\<close>

definition same_tables :: "app \<Rightarrow> app \<Rightarrow> bool" where
  "same_tables a a' \<longleftrightarrow> accounts (app_db a') = accounts (app_db a) \<and> sessions (app_db a') = sessions (app_db a)"

text \<open>
  The password of account \<open>i\<close> has changed: every row of the account has the new hash, and its only
  session is the one with the token in the response's cookie.
\<close>

definition password_changed :: "conf \<Rightarrow> int \<Rightarrow> ustr \<Rightarrow> 'x response \<Rightarrow> app \<Rightarrow> bool" where
  "password_changed C i hash r a' \<longleftrightarrow>
     (\<forall>acc\<in>set (accounts (app_db a')). acc_id acc = i \<longrightarrow> acc_password_hash acc = hash) \<and>
     (\<exists>token. hm_get (resp_headers r) ''set-cookie'' = Some (set_cookie token) \<and>
        (\<forall>s\<in>set (sessions (app_db a')). row_account_id s = i \<longleftrightarrow> row_token_sha256 s = token_hash C token))"

lemma store_password_alone:
  assumes E: "alone E" and "db_wf (app_db a)" and s: "store_password C E ip h account p by a = Some (r, a')"
  shows "(status r \<noteq> 200 \<and> same_tables a a') \<or>
    (\<exists>hash. status r = 200 \<and> password_hash (crypto_of C) (salt E ''hash'') p = Ok hash \<and>
       password_changed C (account_id account) hash r a')"
proof (cases "\<exists>hash key token new. accounts_hash C E p = (Ok hash :: (ustr, account_content response) result) \<and>
    session_key C h = Some key \<and> new_session C E (account_id account) ip h = Ok (token, new)")
  case True
  then obtain hash key token new where
    x: "accounts_hash C E p = (Ok hash :: (ustr, account_content response) result)"
      "session_key C h = Some key" "new_session C E (account_id account) ip h = Ok (token, new)"
    by blast
  have hash: "password_hash (crypto_of C) (salt E ''hash'') p = Ok hash"
    using x(1) by (auto simp: accounts_hash_def run_blocking_def split: option.splits result.splits if_splits)
  have new: "new_token_sha256 new = token_hash C token" "new_account_id new = account_id account"
    using x(3) by (auto simp: new_session_def result_simps)
  obtain r1 a1 where d: "db_call E ''change password''
      (\<lambda>e. change_password e (account_id account) hash key new) a = (r1, a1)"
    by fastforce
  note call = db_call_fields(4) [OF E d]
  show ?thesis
  proof (cases r1)
    case (Err e)
    then have "app_db a1 = app_db a"
      using call by (auto simp: change_password_def dest: transaction_Err)
    with Err s x d show ?thesis
      by (auto simp: store_password_def database_failed_def error_response_def respond_def same_tables_def)
  next
    case (Ok n)
    from s x d Ok have r: "r = insert_header ''set-cookie'' (set_cookie token)
        (respond 200 (Content (Changed n (new_csrf_token new))))"
      and a': "a' = audit_log_entry C E ''audit account'' (by (entry_ok CHANGE_PASSWORD)) a1"
      by (auto simp: store_password_def)
    note eff = change_password_Ok [OF call [unfolded Ok]]
    have "db_wf (app_db a1)"
      using schema_inv.keeping_updates(2) assms(2) call by (metis keepingD snd_conv)
    then have "row_token_sha256 s \<noteq> token_hash C token"
      if "s \<in> set (sessions (app_db a))" "row_account_id s \<noteq> account_id account" "row_token_sha256 s \<noteq> key" for s
      using that new by (auto simp: db_wf_def eff(1) image_iff)
    then have "password_changed C (account_id account) hash r a'"
      unfolding password_changed_def
      using new by (auto simp: r a' audit_log_entry_alone [OF E] eff insert_header_def hm_simps intro!: exI [of _ token])
    with hash r show ?thesis by (auto simp: insert_header_def respond_def)
  qed
next
  case False
  have fail: "accounts_hash C E p = Err x \<Longrightarrow> status x = 500" for x :: "account_content response"
    by (auto simp: accounts_hash_def error_response_def respond_def split: option.splits result.splits)
  from False s show ?thesis
    by (auto simp: store_password_def error_response_def respond_def same_tables_def dest: fail
        split: result.splits option.splits)
qed

section \<open>Properties\<close>



end
