(* ===== verification/Xml_Core.thy ===== *)
theory Xml_Core
  imports Validate
begin

text \<open>
  \<^verbatim>\<open>lodger-core/src/xml/mod.rs\<close>: reading and building libvirt XML. The \<^verbatim>\<open>xmltree\<close> crate is the
  parameter \<open>xmltree\<close>: its parser, its writer, \<^verbatim>\<open>Element::get_child\<close> and the attribute map.
  \<open>xmltree_laws\<close> states what the crate documents of them, and \<open>xml_codec\<close> is a concrete
  instance that satisfies the laws.
\<close>

section \<open>The xmltree crate\<close>

text \<open>The parts of an \<^verbatim>\<open>xmltree::Element\<close> that the sources read or write.\<close>

datatype element =
    Element (elem_name: ustr) (attributes: "(ustr \<times> ustr) list") (children: "xmlnode list")
  and xmlnode = XElement element | XText ustr | XOther ustr

record xmltree =
  xt_parse :: "ustr \<Rightarrow> (element, ustr) result"
  xt_write :: "element \<Rightarrow> ustr"
  xt_get_child :: "element \<Rightarrow> ustr \<Rightarrow> element option"
  xt_attr_get :: "(ustr \<times> ustr) list \<Rightarrow> ustr \<Rightarrow> ustr option"
  xt_attr_insert :: "ustr \<Rightarrow> ustr \<Rightarrow> (ustr \<times> ustr) list \<Rightarrow> (ustr \<times> ustr) list"

primrec as_element :: "xmlnode \<Rightarrow> element option" where
  "as_element (XElement e) = Some e"
| "as_element (XText t) = None"
| "as_element (XOther t) = None"

section \<open>Model\<close>

datatype XmlError = Doctype | Parse ustr | Root ustr string

definition xml_parse :: "xmltree \<Rightarrow> ustr \<Rightarrow> string \<Rightarrow> (element, XmlError) result" where
  "xml_parse X xml root =
     (if contains_str (lit ''<!DOCTYPE'') xml then Err Doctype
      else and_then (map_err Parse (xt_parse X xml)) (\<lambda>e.
        if elem_name e \<noteq> lit root then Err (Root (elem_name e) root) else Ok e))"

definition xml_write :: "xmltree \<Rightarrow> element \<Rightarrow> ustr" where
  "xml_write X e = xt_write X e"

definition element_new :: "ustr \<Rightarrow> element" where
  "element_new name = Element name [] []"

definition push_node :: "element \<Rightarrow> xmlnode \<Rightarrow> element" where
  "push_node e n = Element (elem_name e) (attributes e) (children e @ [n])"

definition push :: "element \<Rightarrow> element \<Rightarrow> element" where
  "push parent child = push_node parent (XElement child)"

definition text_element :: "string \<Rightarrow> ustr \<Rightarrow> element" where
  "text_element name text = push_node (element_new (lit name)) (XText text)"

definition node_text :: "xmlnode \<Rightarrow> ustr option" where
  "node_text n = (case n of XText t \<Rightarrow> Some t | _ \<Rightarrow> None)"

fun find_map :: "('a \<Rightarrow> 'b option) \<Rightarrow> 'a list \<Rightarrow> 'b option" where
  "find_map f [] = None"
| "find_map f (x # xs) = (case f x of Some y \<Rightarrow> Some y | None \<Rightarrow> find_map f xs)"

definition child_text :: "xmltree \<Rightarrow> element \<Rightarrow> string \<Rightarrow> ustr option" where
  "child_text X e name =
     Option.bind (xt_get_child X e (lit name)) (\<lambda>c. find_map node_text (children c))"

definition element_with :: "xmltree \<Rightarrow> string \<Rightarrow> (string \<times> ustr) list \<Rightarrow> element" where
  "element_with X name attrs =
     Element (lit name) (foldl (\<lambda>m (k, v). xt_attr_insert X (lit k) v m) [] attrs) []"

definition attr :: "xmltree \<Rightarrow> element \<Rightarrow> string \<Rightarrow> ustr option" where
  "attr X e name = xt_attr_get X (attributes e) (lit name)"

subsection \<open>Disks, NICs and displays of a domain\<close>

datatype DiskSource = File ustr | Block ustr | Volume (vol_pool: ustr) (vol_name: ustr)

record Disk =
  target :: "ustr option"
  source :: DiskSource
  shared :: bool

definition disk_source :: "xmltree \<Rightarrow> element \<Rightarrow> element \<Rightarrow> DiskSource option" where
  "disk_source X e src =
     (let ty = (case attr X e ''type'' of Some t \<Rightarrow> t | None \<Rightarrow> lit ''file'') in
      if ty = lit ''file'' then map_option File (attr X src ''file'')
      else if ty = lit ''block'' then map_option Block (attr X src ''dev'')
      else if ty = lit ''volume'' then
        Option.bind (attr X src ''pool'') (\<lambda>p. map_option (Volume p) (attr X src ''volume''))
      else None)"

definition disk :: "xmltree \<Rightarrow> element \<Rightarrow> Disk option" where
  "disk X e =
     Option.bind (xt_get_child X e (lit ''source'')) (\<lambda>src.
     Option.bind (disk_source X e src) (\<lambda>s.
       Some \<lparr>target = Option.bind (xt_get_child X e (lit ''target'')) (\<lambda>t. attr X t ''dev''),
             source = s,
             shared = (xt_get_child X e (lit ''readonly'') \<noteq> None
                       \<or> xt_get_child X e (lit ''shareable'') \<noteq> None)\<rparr>))"

definition device_elements :: "element \<Rightarrow> string \<Rightarrow> element list" where
  "device_elements devices name =
     filter (\<lambda>e. elem_name e = lit name) (List.map_filter as_element (children devices))"

definition domain_disks :: "xmltree \<Rightarrow> ustr \<Rightarrow> (Disk list, XmlError) result" where
  "domain_disks X xml =
     and_then (xml_parse X xml ''domain'') (\<lambda>domain.
       case xt_get_child X domain (lit ''devices'') of
         None \<Rightarrow> Ok []
       | Some devices \<Rightarrow>
           Ok (List.map_filter (disk X)
                (filter (\<lambda>d. attr X d ''device'' \<in> {None, Some (lit ''disk'')})
                  (device_elements devices ''disk''))))"

definition domain_disk_sources :: "xmltree \<Rightarrow> ustr \<Rightarrow> (DiskSource list, XmlError) result" where
  "domain_disk_sources X xml =
     and_then (xml_parse X xml ''domain'') (\<lambda>domain.
       case xt_get_child X domain (lit ''devices'') of
         None \<Rightarrow> Ok []
       | Some devices \<Rightarrow>
           Ok (map source (List.map_filter (disk X) (device_elements devices ''disk''))))"

fun push_new_names :: "ustr list \<Rightarrow> ustr option list \<Rightarrow> ustr list" where
  "push_new_names names [] = names"
| "push_new_names names (None # nics) = push_new_names names nics"
| "push_new_names names (Some n # nics) =
     push_new_names (if n \<in> set names then names else names @ [n]) nics"

definition domain_networks :: "xmltree \<Rightarrow> ustr \<Rightarrow> (ustr list, XmlError) result" where
  "domain_networks X xml =
     and_then (xml_parse X xml ''domain'') (\<lambda>domain.
       case xt_get_child X domain (lit ''devices'') of
         None \<Rightarrow> Ok []
       | Some devices \<Rightarrow>
           Ok (push_new_names []
                (map (\<lambda>nic. Option.bind (xt_get_child X nic (lit ''source'')) (\<lambda>s. attr X s ''network''))
                  (filter (\<lambda>e. attr X e ''type'' = Some (lit ''network''))
                    (device_elements devices ''interface'')))))"

definition domain_has_vnc :: "xmltree \<Rightarrow> ustr \<Rightarrow> (bool, XmlError) result" where
  "domain_has_vnc X xml =
     and_then (xml_parse X xml ''domain'') (\<lambda>domain.
       Ok (case xt_get_child X domain (lit ''devices'') of
             None \<Rightarrow> False
           | Some devices \<Rightarrow>
               list_ex (\<lambda>e. attr X e ''type'' = Some (lit ''vnc'')) (device_elements devices ''graphics'')))"

section \<open>What the crate promises\<close>

text \<open>
  Text that XML 1.0 carries unchanged: it is not blank and has no control character, so it is
  neither dropped as white space nor normalised.
\<close>

definition xml_text :: "ustr \<Rightarrow> bool" where
  "xml_text t \<longleftrightarrow> list_ex (\<lambda>c. \<not> is_whitespace c) t \<and> \<not> list_ex path_control t"

definition xml_attr_text :: "ustr \<Rightarrow> bool" where
  "xml_attr_text t \<longleftrightarrow> \<not> list_ex path_control t"

definition xml_name :: "ustr \<Rightarrow> bool" where
  "xml_name n \<longleftrightarrow> n \<noteq> [] \<and> list_all is_ascii_alphanumeric n \<and> \<not> is_digit (hd n)"

text \<open>
  The documents that the sources build: an element holds one text or only elements, names are
  ASCII names and attributes have distinct names.
\<close>

fun plain_element :: "element \<Rightarrow> bool" and plain_children :: "xmlnode list \<Rightarrow> bool" where
  "plain_element (Element n as cs) =
     (xml_name n \<and> list_all (\<lambda>(k, v). xml_name k \<and> xml_attr_text v) as \<and> distinct (map fst as) \<and>
      (case cs of [XText t] \<Rightarrow> xml_text t | _ \<Rightarrow> plain_children cs))"
| "plain_children [] = True"
| "plain_children (XElement e # cs) = (plain_element e \<and> plain_children cs)"
| "plain_children (XText t # cs) = False"
| "plain_children (XOther t # cs) = False"

definition xmltree_laws :: "xmltree \<Rightarrow> bool" where
  "xmltree_laws X \<longleftrightarrow>
     (\<forall>e. plain_element e \<longrightarrow>
        xt_parse X (xt_write X e) = Ok e \<and> \<not> contains_str (lit ''<!DOCTYPE'') (xt_write X e)) \<and>
     (\<forall>e n. xt_get_child X e n = find (\<lambda>c. elem_name c = n) (List.map_filter as_element (children e))) \<and>
     (\<forall>m k. xt_attr_get X m k = map_of m k) \<and>
     (\<forall>m k v. k \<notin> fst ` set m \<longrightarrow> xt_attr_insert X k v m = m @ [(k, v)])"

lemma xmltree_lawsD:
  assumes "xmltree_laws X"
  shows "plain_element e \<Longrightarrow> xt_parse X (xt_write X e) = Ok e"
    and "plain_element e \<Longrightarrow> \<not> contains_str (lit ''<!DOCTYPE'') (xt_write X e)"
    and "xt_get_child X e n = find (\<lambda>c. elem_name c = n) (List.map_filter as_element (children e))"
    and "xt_attr_get X m k = map_of m k"
    and "k \<notin> fst ` set m \<Longrightarrow> xt_attr_insert X k v m = m @ [(k, v)]"
  using assms unfolding xmltree_laws_def by blast+

lemma xml_parse_Ok [result_simps]:
  "xml_parse X xml r = Ok e \<longleftrightarrow>
     \<not> contains_str (lit ''<!DOCTYPE'') xml \<and> xt_parse X xml = Ok e \<and> elem_name e = lit r"
  by (auto simp: xml_parse_def result_simps)

lemma xml_roundtrip:
  "xmltree_laws X \<Longrightarrow> plain_element e \<Longrightarrow> elem_name e = lit r \<Longrightarrow> xml_parse X (xml_write X e) r = Ok e"
  by (simp add: xml_parse_Ok xml_write_def xmltree_lawsD)

lemma foldl_attr_insert:
  assumes "xmltree_laws X" and "distinct (map fst attrs)" and "\<forall>k\<in>fst ` set attrs. lit k \<notin> fst ` set m"
  shows "foldl (\<lambda>m (k, v). xt_attr_insert X (lit k) v m) m attrs = m @ map (\<lambda>(k, v). (lit k, v)) attrs"
  using assms(2,3)
proof (induction attrs arbitrary: m)
  case (Cons kv attrs)
  obtain k v where kv: "kv = (k, v)" by (cases kv)
  have "xt_attr_insert X (lit k) v m = m @ [(lit k, v)]"
    using Cons.prems kv by (intro xmltree_lawsD(5) [OF assms(1)]) auto
  moreover have "\<forall>j\<in>fst ` set attrs. lit j \<notin> fst ` set (m @ [(lit k, v)])"
    using Cons.prems kv by (auto simp: rev_image_eqI)
  ultimately show ?case
    using Cons by (simp add: kv)
qed simp

lemma element_with_plain:
  "xmltree_laws X \<Longrightarrow> distinct (map fst attrs) \<Longrightarrow>
   element_with X name attrs = Element (lit name) (map (\<lambda>(k, v). (lit k, v)) attrs) []"
  by (simp add: element_with_def foldl_attr_insert)

lemma text_element_eq: "text_element name t = Element (lit name) [] [XText t]"
  by (simp add: text_element_def push_node_def element_new_def)

lemma push_eq: "push (Element n as cs) c = Element n as (cs @ [XElement c])"
  by (simp add: push_def push_node_def)

lemmas build_simps = element_with_plain text_element_eq push_eq element_new_def push_node_def

lemma list_ex_lit: "list_ex P (lit s) \<longleftrightarrow> list_ex (\<lambda>c. P (of_char c)) s"
  by (simp add: lit_def list_ex_iff)

text \<open>A checked name is text that XML carries.\<close>

lemma name_char_xml: "name_char c \<Longrightarrow> \<not> path_control c \<and> \<not> is_whitespace c"
  by (auto simp: name_char_def is_ascii_alphanumeric_def is_digit_def lit_def path_control_def
      is_control_def is_whitespace_def)

lemma host_char_xml: "host_char c \<Longrightarrow> \<not> path_control c"
  by (auto simp: host_char_def is_ascii_alphanumeric_def is_digit_def lit_def path_control_def
      is_control_def)

lemma Name_xml_text: "Name_parse f v = Ok n \<Longrightarrow> xml_text (as_str n)"
  using name_char_xml by (cases v) (auto simp: Name_parse_Ok xml_text_def list_ex_iff list_all_iff)

lemma digit_xml: "is_digit c \<Longrightarrow> \<not> path_control c \<and> \<not> is_whitespace c"
  by (auto simp: is_digit_def path_control_def is_control_def is_whitespace_def)

lemma dec_xml_text: "xml_text (dec n)"
  using digit_xml dec_digits [of _ n]
  by (auto simp: xml_text_def list_ex_iff intro!: exI [of _ "hd (dec n)"])

section \<open>Readers\<close>

lemma domain_disks_sources:
  assumes "domain_disks X xml = Ok ds"
  obtains ss where "domain_disk_sources X xml = Ok ss" and "source ` set ds \<subseteq> set ss"
proof -
  obtain d where d: "xml_parse X xml ''domain'' = Ok d"
    using assms by (auto simp: domain_disks_def result_simps)
  have "\<exists>ss. domain_disk_sources X xml = Ok ss \<and> source ` set ds \<subseteq> set ss"
    using assms
    by (cases "xt_get_child X d (lit ''devices'')")
      (auto simp: domain_disks_def domain_disk_sources_def d set_map_filter intro!: imageI)
  with that show thesis by blast
qed

lemma push_new_names_set: "set (push_new_names ns xs) = set ns \<union> {n. Some n \<in> set xs}"
  by (induction ns xs rule: push_new_names.induct) auto

lemma push_new_names_distinct: "distinct ns \<Longrightarrow> distinct (push_new_names ns xs)"
  by (induction ns xs rule: push_new_names.induct) auto

lemma disk_source_cases:
  "disk X e = Some d \<Longrightarrow>
    \<exists>src. xt_get_child X e (lit ''source'') = Some src \<and> disk_source X e src = Some (source d)"
  by (auto simp: disk_def split: bind_splits)

section \<open>An instance of the crate\<close>

text \<open>
  \<open>xml_codec\<close> writes an element as a sequence of counted parts. Every number is shifted by 256,
  so a written document never contains the text \<^verbatim>\<open><!DOCTYPE\<close>.
\<close>

definition enc_str :: "ustr \<Rightarrow> nat list" where
  "enc_str s = length s # s"

definition enc_attrs :: "(ustr \<times> ustr) list \<Rightarrow> nat list" where
  "enc_attrs as = length as # concat (map (\<lambda>(k, v). enc_str k @ enc_str v) as)"

fun enc_elem :: "element \<Rightarrow> nat list" and enc_nodes :: "xmlnode list \<Rightarrow> nat list" where
  "enc_elem (Element n as cs) = enc_str n @ enc_attrs as @ enc_nodes cs"
| "enc_nodes [] = [0]"
| "enc_nodes (XElement e # cs) = 1 # enc_elem e @ enc_nodes cs"
| "enc_nodes (XText t # cs) = 2 # enc_str t @ enc_nodes cs"
| "enc_nodes (XOther t # cs) = 3 # enc_str t @ enc_nodes cs"

definition dec_str :: "nat list \<Rightarrow> (ustr \<times> nat list) option" where
  "dec_str ts = (case ts of [] \<Rightarrow> None | n # r \<Rightarrow> Some (take n r, drop n r))"

fun dec_attr_list :: "nat \<Rightarrow> nat list \<Rightarrow> ((ustr \<times> ustr) list \<times> nat list) option" where
  "dec_attr_list 0 ts = Some ([], ts)"
| "dec_attr_list (Suc n) ts =
     Option.bind (dec_str ts) (\<lambda>(k, ts). Option.bind (dec_str ts) (\<lambda>(v, ts).
       map_option (\<lambda>(as, ts). ((k, v) # as, ts)) (dec_attr_list n ts)))"

fun dec_elem :: "nat \<Rightarrow> nat list \<Rightarrow> (element \<times> nat list) option"
  and dec_nodes :: "nat \<Rightarrow> nat list \<Rightarrow> (xmlnode list \<times> nat list) option" where
  "dec_elem 0 ts = None"
| "dec_elem (Suc k) ts =
     Option.bind (dec_str ts) (\<lambda>(n, ts).
       case ts of [] \<Rightarrow> None | a # ts \<Rightarrow>
         Option.bind (dec_attr_list a ts) (\<lambda>(as, ts).
           map_option (\<lambda>(cs, ts). (Element n as cs, ts)) (dec_nodes k ts)))"
| "dec_nodes 0 ts = None"
| "dec_nodes (Suc k) ts =
     (case ts of [] \<Rightarrow> None | tag # ts \<Rightarrow>
        if tag = 0 then Some ([], ts)
        else if tag = 1 then
          Option.bind (dec_elem k ts) (\<lambda>(e, ts). map_option (\<lambda>(cs, ts). (XElement e # cs, ts)) (dec_nodes k ts))
        else
          Option.bind (dec_str ts) (\<lambda>(t, ts).
            map_option (\<lambda>(cs, ts). ((if tag = 2 then XText t else XOther t) # cs, ts)) (dec_nodes k ts)))"

definition xml_codec :: xmltree where
  "xml_codec = \<lparr>
     xt_parse = (\<lambda>s. case dec_elem (length s) (map (\<lambda>c. c - 256) s) of
        Some (e, []) \<Rightarrow> Ok e | _ \<Rightarrow> Err (lit ''malformed'')),
     xt_write = (\<lambda>e. map (\<lambda>c. c + 256) (enc_elem e)),
     xt_get_child = (\<lambda>e n. find (\<lambda>c. elem_name c = n) (List.map_filter as_element (children e))),
     xt_attr_get = map_of,
     xt_attr_insert = (\<lambda>k v m. AList.update k v m)
   \<rparr>"

lemma dec_str_enc [simp]: "dec_str (enc_str s @ r) = Some (s, r)"
  by (simp add: dec_str_def enc_str_def)

lemma dec_attr_list_enc [simp]:
  "dec_attr_list (length as) (concat (map (\<lambda>(k, v). enc_str k @ enc_str v) as) @ r) = Some (as, r)"
  by (induction as) auto

lemma enc_nodes_pos: "enc_nodes cs \<noteq> []"
  by (cases cs rule: enc_nodes.cases) auto

lemma dec_enc:
  "length (enc_elem e) \<le> k \<Longrightarrow> dec_elem k (enc_elem e @ r) = Some (e, r)"
  "length (enc_nodes cs) \<le> k \<Longrightarrow> dec_nodes k (enc_nodes cs @ r) = Some (cs, r)"
proof (induction e and cs arbitrary: k r and k r rule: enc_elem_enc_nodes.induct)
  case (1 n as cs)
  then obtain k' where "k = Suc k'" "length (enc_nodes cs) \<le> k'"
    by (cases k) (auto simp: enc_str_def)
  with 1 show ?case
    using dec_attr_list_enc [of as "enc_nodes cs @ r"] by (simp add: enc_attrs_def)
next
  case (3 e cs)
  then obtain k' where "k = Suc k'" by (cases k) auto
  with 3 show ?case by simp
next
  case (4 t cs)
  then obtain k' where "k = Suc k'" by (cases k) auto
  with 4 show ?case by simp
next
  case (5 t cs)
  then obtain k' where "k = Suc k'" by (cases k) auto
  with 5 show ?case by simp
qed (auto simp: Suc_le_eq gr0_conv_Suc)

lemma update_new: "k \<notin> fst ` set m \<Longrightarrow> AList.update k v m = m @ [(k, v)]"
  by (induction m) auto

lemma codec_parse: "xt_parse xml_codec (xt_write xml_codec e) = Ok e"
  using dec_enc(1) [of e "length (enc_elem e)" "[]"] by (simp add: xml_codec_def comp_def)

lemma codec_no_doctype: "\<not> contains_str (lit ''<!DOCTYPE'') (xt_write xml_codec e)"
proof
  assume "contains_str (lit ''<!DOCTYPE'') (xt_write xml_codec e)"
  then have "60 \<in> set (xt_write xml_codec e)"
    by (auto simp: contains_str_iff lit_def)
  then show False by (auto simp: xml_codec_def)
qed

lemma xml_codec_laws: "xmltree_laws xml_codec"
  unfolding xmltree_laws_def
  using codec_parse codec_no_doctype by (auto simp: xml_codec_def update_new)

section \<open>Properties\<close>

text \<open>
  \<^verbatim>\<open>domain_networks\<close> names each network that a NIC of type \<open>network\<close> uses exactly once, and no
  other.
\<close>

theorem domain_networks_exact:
  assumes "xml_parse X xml ''domain'' = Ok d" and "xt_get_child X d (lit ''devices'') = Some devices"
  shows "\<exists>ns. domain_networks X xml = Ok ns \<and> distinct ns \<and>
    (\<forall>n. n \<in> set ns \<longleftrightarrow>
      (\<exists>nic s. XElement nic \<in> set (children devices) \<and> elem_name nic = lit ''interface'' \<and>
         attr X nic ''type'' = Some (lit ''network'') \<and>
         xt_get_child X nic (lit ''source'') = Some s \<and> attr X s ''network'' = Some n))"
proof -
  have as_elem: "as_element x = Some e \<longleftrightarrow> x = XElement e" for x e
    by (cases x) auto
  have bind: "Some n = Option.bind x f \<longleftrightarrow> (\<exists>y. x = Some y \<and> f y = Some n)" for n x and f :: "element \<Rightarrow> ustr option"
    by (cases x) auto
  show ?thesis
    using assms
    by (auto simp: domain_networks_def push_new_names_set push_new_names_distinct device_elements_def
        set_map_filter as_elem image_iff bind)
qed

text \<open>
  The source of every disk that \<^verbatim>\<open>domain_disks\<close> would let a delete remove is among the sources
  that \<^verbatim>\<open>domain_disk_sources\<close> reports as in use.
\<close>

theorem data_disks_are_in_use:
  assumes "domain_disks X xml = Ok ds" and "d \<in> set ds"
  shows "\<exists>ss. domain_disk_sources X xml = Ok ss \<and> source d \<in> set ss"
  using assms domain_disks_sources by (metis image_subset_iff)

subsection \<open>Witnesses\<close>

definition example_domain :: element where
  "example_domain = Element (lit ''domain'') []
     [XElement (Element (lit ''devices'') []
        [XElement (Element (lit ''disk'') [(lit ''type'', lit ''file'')]
           [XElement (Element (lit ''source'') [(lit ''file'', lit ''/srv/web.qcow2'')] []),
            XElement (Element (lit ''target'') [(lit ''dev'', lit ''vda'')] [])]),
         XElement (Element (lit ''interface'') [(lit ''type'', lit ''network'')]
           [XElement (Element (lit ''source'') [(lit ''network'', lit ''default'')] [])])])]"

lemma example_domain_parse: "xml_parse xml_codec (xt_write xml_codec example_domain) ''domain'' = Ok example_domain"
  by (simp add: xml_parse_Ok codec_parse codec_no_doctype) (simp add: example_domain_def)

lemma example_domain_devices:
  "\<exists>devices. xt_get_child xml_codec example_domain (lit ''devices'') = Some devices"
  by (simp add: xml_codec_def example_domain_def List.map_filter_def)

lemma example_domain_disks:
  "domain_disks xml_codec (xt_write xml_codec example_domain) =
     Ok [\<lparr>target = Some (lit ''vda''), source = File (lit ''/srv/web.qcow2''), shared = False\<rparr>]"
  by code_simp

theorem domain_networks_exact_witness:
  "\<exists>ns. domain_networks xml_codec (xt_write xml_codec example_domain) = Ok ns \<and> distinct ns"
  using domain_networks_exact [OF example_domain_parse] example_domain_devices by blast

theorem data_disks_are_in_use_witness:
  "\<exists>ss. domain_disk_sources xml_codec (xt_write xml_codec example_domain) = Ok ss \<and>
     File (lit ''/srv/web.qcow2'') \<in> set ss"
  using data_disks_are_in_use [OF example_domain_disks] by simp

end
