(* ===== verification/Xml_Pool.thy ===== *)
theory Xml_Pool
  imports Xml_Core
begin

text \<open>
  \<^verbatim>\<open>lodger-core/src/xml/pool.rs\<close>: a new directory or NFS pool with every input checked, its XML,
  the readers of an existing pool document, and the check of a new pool against existing ones.
\<close>

section \<open>Model\<close>

definition SYSTEM_TREES :: "string list" where
  "SYSTEM_TREES =
     [''/bin'', ''/boot'', ''/dev'', ''/etc'', ''/lib'', ''/lib32'', ''/lib64'', ''/proc'', ''/root'',
      ''/run'', ''/sbin'', ''/sys'', ''/tmp'', ''/usr'']"

definition SYSTEM_FOLDERS :: "string list" where
  "SYSTEM_FOLDERS =
     [''/'', ''/home'', ''/media'', ''/mnt'', ''/opt'', ''/srv'', ''/var'', ''/var/lib'', ''/var/lib/libvirt'']"

datatype PoolSource = Dir | Nfs (nfs_host: ustr) (nfs_export: ustr)

record NewPool =
  pool_name :: Name
  pool_path :: ustr
  pool_source :: PoolSource

definition target_path :: "ustr \<Rightarrow> (ustr, InputError) result" where
  "target_path value =
     and_then (parse_path ''Pool folder'' value) (\<lambda>path.
       let in_tree = list_ex (\<lambda>tree. path = lit tree \<or> starts_with (lit tree @ lit ''/'') path) SYSTEM_TREES in
       if in_tree \<or> path \<in> set (map lit SYSTEM_FOLDERS) then Err (SystemPath ''Pool folder'' path)
       else Ok path)"

definition NewPool_dir :: "Name \<Rightarrow> ustr \<Rightarrow> (NewPool, InputError) result" where
  "NewPool_dir name path =
     and_then (target_path path) (\<lambda>p. Ok \<lparr>pool_name = name, pool_path = p, pool_source = Dir\<rparr>)"

definition NewPool_nfs :: "Name \<Rightarrow> ustr \<Rightarrow> ustr \<Rightarrow> ustr \<Rightarrow> (NewPool, InputError) result" where
  "NewPool_nfs name host export path =
     and_then (target_path path) (\<lambda>p.
     and_then (parse_host ''NFS server'' host) (\<lambda>h.
     and_then (parse_path ''NFS export'' export) (\<lambda>e.
       Ok \<lparr>pool_name = name, pool_path = p, pool_source = Nfs h e\<rparr>)))"

definition pool_element :: "xmltree \<Rightarrow> NewPool \<Rightarrow> element" where
  "pool_element X p =
     (let kind = (case pool_source p of Dir \<Rightarrow> lit ''dir'' | Nfs _ _ \<Rightarrow> lit ''netfs'');
          pool = element_with X ''pool'' [(''type'', kind)];
          pool = push pool (text_element ''name'' (as_str (pool_name p)));
          pool = (case pool_source p of
             Dir \<Rightarrow> pool
           | Nfs host export \<Rightarrow>
               (let src = element_new (lit ''source'');
                    src = push src (element_with X ''host'' [(''name'', host)]);
                    src = push src (element_with X ''dir'' [(''path'', export)]);
                    src = push src (element_with X ''format'' [(''type'', lit ''nfs'')])
                in push pool src));
          tgt = push (element_new (lit ''target'')) (text_element ''path'' (pool_path p))
      in push pool tgt)"

definition NewPool_to_xml :: "xmltree \<Rightarrow> NewPool \<Rightarrow> ustr" where
  "NewPool_to_xml X p = xml_write X (pool_element X p)"

text \<open>An existing pool document.\<close>

datatype PoolXml = PoolXml element

definition PoolXml_parse :: "xmltree \<Rightarrow> ustr \<Rightarrow> (PoolXml, XmlError) result" where
  "PoolXml_parse X xml = map_ok PoolXml (xml_parse X xml ''pool'')"

fun PoolXml_pool_type :: "xmltree \<Rightarrow> PoolXml \<Rightarrow> ustr option" where
  "PoolXml_pool_type X (PoolXml e) = attr X e ''type''"

fun PoolXml_name :: "xmltree \<Rightarrow> PoolXml \<Rightarrow> ustr option" where
  "PoolXml_name X (PoolXml e) = child_text X e ''name''"

fun PoolXml_target_path :: "xmltree \<Rightarrow> PoolXml \<Rightarrow> ustr option" where
  "PoolXml_target_path X (PoolXml e) =
     Option.bind (xt_get_child X e (lit ''target'')) (\<lambda>t. child_text X t ''path'')"

fun PoolXml_nfs_source :: "xmltree \<Rightarrow> PoolXml \<Rightarrow> (ustr \<times> ustr) option" where
  "PoolXml_nfs_source X (PoolXml e) =
     (if PoolXml_pool_type X (PoolXml e) \<noteq> Some (lit ''netfs'') then None
      else Option.bind (xt_get_child X e (lit ''source'')) (\<lambda>src.
        let format = Option.bind (xt_get_child X src (lit ''format'')) (\<lambda>f. attr X f ''type'') in
        if (case format of None \<Rightarrow> False | Some f \<Rightarrow> f \<noteq> lit ''nfs'' \<and> f \<noteq> lit ''auto'') then None
        else
          Option.bind (Option.bind (xt_get_child X src (lit ''host'')) (\<lambda>h. attr X h ''name'')) (\<lambda>host.
          map_option (\<lambda>export. (host, export))
            (Option.bind (xt_get_child X src (lit ''dir'')) (\<lambda>d. attr X d ''path'')))))"

fun PoolXml_to_xml :: "xmltree \<Rightarrow> PoolXml \<Rightarrow> ustr" where
  "PoolXml_to_xml X (PoolXml e) = xml_write X e"

definition plain :: "ustr \<Rightarrow> ustr option" where
  "plain path = ok (parse_path ''path'' path)"

definition nfs_clash :: "xmltree \<Rightarrow> NewPool \<Rightarrow> PoolXml \<Rightarrow> bool" where
  "nfs_clash X p other =
     (case (pool_source p, PoolXml_nfs_source X other) of
        (Nfs host export, Some (other_host, other_export)) \<Rightarrow>
          eq_ignore_ascii_case host other_host \<and> plain other_export = Some export
      | _ \<Rightarrow> False)"

fun NewPool_check_against :: "xmltree \<Rightarrow> NewPool \<Rightarrow> (ustr \<times> PoolXml) list \<Rightarrow> (unit, InputError) result" where
  "NewPool_check_against X p [] = Ok ()"
| "NewPool_check_against X p ((name, other) # existing) =
     (if Option.bind (PoolXml_target_path X other) plain = Some (pool_path p)
      then Err (PathInUse ''Pool folder'' name)
      else if nfs_clash X p other then Err (NfsExportInUse name)
      else NewPool_check_against X p existing)"

lemmas pool_readers = PoolXml_pool_type.simps PoolXml_name.simps PoolXml_target_path.simps
  PoolXml_nfs_source.simps PoolXml_to_xml.simps

declare pool_readers [simp del]

section \<open>Checked pools\<close>

definition checked_name :: "Name \<Rightarrow> bool" where
  "checked_name n \<longleftrightarrow> (\<exists>f. Name_parse f (as_str n) = Ok n)"

definition pool_wf :: "NewPool \<Rightarrow> bool" where
  "pool_wf p \<longleftrightarrow> checked_name (pool_name p) \<and> plain_path (pool_path p) \<and>
     (case pool_source p of Dir \<Rightarrow> True | Nfs h e \<Rightarrow> parse_host ''NFS server'' h = Ok h \<and> plain_path e)"

lemma target_path_Ok:
  "target_path v = Ok p \<longleftrightarrow> parse_path ''Pool folder'' v = Ok p \<and>
     (\<forall>t\<in>set SYSTEM_TREES. p \<noteq> lit t \<and> \<not> starts_with (lit t @ lit ''/'') p) \<and> p \<notin> lit ` set SYSTEM_FOLDERS"
  by (auto simp: target_path_def result_simps Let_def list_ex_iff split: if_splits)

lemma NewPool_dir_wf: "checked_name n \<Longrightarrow> NewPool_dir n path = Ok p \<Longrightarrow> pool_wf p"
  using parse_path_plain by (auto simp: NewPool_dir_def pool_wf_def result_simps target_path_Ok)

lemma NewPool_nfs_wf: "checked_name n \<Longrightarrow> NewPool_nfs n h e path = Ok p \<Longrightarrow> pool_wf p"
  using parse_path_plain host.stable
  by (auto simp: NewPool_nfs_def pool_wf_def result_simps target_path_Ok)

text \<open>The folder names of a system tree: there is one, so the tree holds exactly the paths that start with it.\<close>

lemma system_tree_parts: "t \<in> set SYSTEM_TREES \<Longrightarrow> \<exists>q. lit t = lit ''/'' @ q \<and> path_parts (lit t) = [q]"
  by (auto simp: SYSTEM_TREES_def path_parts_def lit_def)

lemma below_tree:
  assumes "plain_path p" and "lit t = lit ''/'' @ q" and "starts_with [q] (path_parts p)"
  shows "p = lit t \<or> starts_with (lit t @ lit ''/'') p"
proof -
  from assms(1) obtain parts where p: "p = lit ''/'' @ join (lit ''/'') parts"
      and "\<forall>r\<in>set parts. r \<noteq> [] \<and> 47 \<notin> set r"
    by (auto simp: plain_path_def)
  then have "path_parts p = parts"
    by (simp add: path_parts_plain)
  with assms(3) obtain rest where "parts = q # rest"
    by (auto simp: starts_with_iff)
  with p assms(2) show ?thesis
    by (cases "rest = []") (auto simp: join_Cons starts_with_iff)
qed

section \<open>Reading back a pool\<close>

lemma plain_path_xml: "plain_path p \<Longrightarrow> xml_text p \<and> xml_attr_text p"
  by (auto simp: plain_path_def xml_text_def xml_attr_text_def lit_def is_whitespace_def)

lemma host_xml: "parse_host f h = Ok h \<Longrightarrow> xml_attr_text h"
  using host_char_xml by (auto simp: parse_host_Ok xml_attr_text_def list_ex_iff list_all_iff)

lemma checked_name_xml: "checked_name n \<Longrightarrow> xml_text (as_str n)"
  using Name_xml_text by (auto simp: checked_name_def)

lemma xml_name_lit: "xml_name (lit s) \<longleftrightarrow> s \<noteq> [] \<and> list_all (\<lambda>c. is_ascii_alphanumeric (of_char c)) s
    \<and> \<not> is_digit (of_char (hd s))"
  by (cases s) (auto simp: xml_name_def lit_def list.pred_map comp_def)

lemma xml_attr_text_lit: "xml_attr_text (lit s) \<longleftrightarrow> \<not> list_ex (\<lambda>c. path_control (of_char c)) s"
  by (simp add: xml_attr_text_def list_ex_lit)

lemmas xml_lit_simps = xml_name_lit xml_attr_text_lit is_ascii_alphanumeric_def is_digit_def
  path_control_def is_control_def

lemma pool_element_plain: "xmltree_laws X \<Longrightarrow> pool_wf p \<Longrightarrow> plain_element (pool_element X p)"
  by (cases "pool_source p")
    (auto simp: pool_element_def build_simps pool_wf_def xml_lit_simps plain_path_xml host_xml
      checked_name_xml)

lemma pool_element_name: "xmltree_laws X \<Longrightarrow> elem_name (pool_element X p) = lit ''pool''"
  by (cases "pool_source p") (simp_all add: pool_element_def build_simps)

lemma PoolXml_parse_to_xml:
  "xmltree_laws X \<Longrightarrow> pool_wf p \<Longrightarrow> PoolXml_parse X (NewPool_to_xml X p) = Ok (PoolXml (pool_element X p))"
  by (simp add: PoolXml_parse_def NewPool_to_xml_def xml_roundtrip pool_element_plain pool_element_name)

lemma pool_element_reads:
  assumes "xmltree_laws X"
  shows "PoolXml_name X (PoolXml (pool_element X p)) = Some (as_str (pool_name p))"
    and "PoolXml_target_path X (PoolXml (pool_element X p)) = Some (pool_path p)"
    and "PoolXml_nfs_source X (PoolXml (pool_element X p)) =
      (case pool_source p of Dir \<Rightarrow> None | Nfs h e \<Rightarrow> Some (h, e))"
  using assms
  by (cases "pool_source p";
      simp add: pool_readers pool_element_def build_simps child_text_def node_text_def attr_def xmltree_lawsD
        List.map_filter_def)+

lemma check_against_Ok:
  "NewPool_check_against X p existing = Ok () \<longleftrightarrow>
     (\<forall>(_, other)\<in>set existing.
        Option.bind (PoolXml_target_path X other) plain \<noteq> Some (pool_path p) \<and> \<not> nfs_clash X p other)"
  by (induction X p existing rule: NewPool_check_against.induct) auto

lemma plain_fixed: "plain_path p \<Longrightarrow> plain p = Some p"
  by (simp add: plain_def plain_path_fixed)

section \<open>Properties\<close>

text \<open>
  C16: an accepted pool folder is in plain form, is none of the protected folders, and is neither a
  system tree nor anywhere below one, folder name by folder name.
\<close>

theorem target_path_safe:
  assumes "target_path v = Ok p"
  shows "plain_path p \<and> p \<notin> lit ` set SYSTEM_FOLDERS \<and>
    (\<forall>t\<in>set SYSTEM_TREES. \<not> starts_with (path_parts (lit t)) (path_parts p))"
proof -
  have "plain_path p"
    using assms parse_path_plain by (auto simp: target_path_Ok)
  moreover have "\<not> starts_with (path_parts (lit t)) (path_parts p)" if "t \<in> set SYSTEM_TREES" for t
    using that assms system_tree_parts [OF that] below_tree [OF \<open>plain_path p\<close>]
    unfolding target_path_Ok by metis
  ultimately show ?thesis
    using assms by (auto simp: target_path_Ok)
qed

text \<open>
  The XML of a new pool parses as a pool document that gives back its name, its folder and, for
  NFS, its server and export.
\<close>

theorem pool_xml_roundtrip:
  assumes "xmltree_laws X" and "pool_wf p"
  shows "\<exists>d. PoolXml_parse X (NewPool_to_xml X p) = Ok d \<and>
    PoolXml_name X d = Some (as_str (pool_name p)) \<and> PoolXml_target_path X d = Some (pool_path p) \<and>
    PoolXml_nfs_source X d = (case pool_source p of Dir \<Rightarrow> None | Nfs h e \<Rightarrow> Some (h, e))"
  using assms by (simp add: PoolXml_parse_to_xml pool_element_reads)

text \<open>
  Against pools that Lodger itself wrote, \<^verbatim>\<open>check_against\<close> accepts a new pool exactly if no other
  pool has its folder and no NFS pool mounts its export from the same server, whatever the case of
  the server's name.
\<close>

theorem pool_check_against_exact:
  assumes X: "xmltree_laws X" and wf: "pool_wf p" "\<forall>q\<in>set qs. pool_wf q"
  shows "NewPool_check_against X p (map (\<lambda>q. (as_str (pool_name q), PoolXml (pool_element X q))) qs) = Ok () \<longleftrightarrow>
    (\<forall>q\<in>set qs. pool_path q \<noteq> pool_path p \<and>
       \<not> (\<exists>h e h'. pool_source p = Nfs h e \<and> pool_source q = Nfs h' e \<and> eq_ignore_ascii_case h h'))"
proof -
  have "plain (pool_path q) = Some (pool_path q)" if "q \<in> set qs" for q
    using wf(2) that by (simp add: pool_wf_def plain_fixed)
  moreover have "nfs_clash X p (PoolXml (pool_element X q)) \<longleftrightarrow>
      (\<exists>h e h'. pool_source p = Nfs h e \<and> pool_source q = Nfs h' e \<and> eq_ignore_ascii_case h h')"
    if "q \<in> set qs" for q
    using wf(2) that
    by (cases "pool_source p"; cases "pool_source q")
      (auto simp: nfs_clash_def pool_element_reads [OF X] pool_wf_def plain_fixed)
  ultimately show ?thesis
    by (auto simp: check_against_Ok pool_element_reads [OF X])
qed

subsection \<open>Witnesses\<close>

definition example_dir_pool :: NewPool where
  "example_dir_pool = \<lparr>pool_name = Name (lit ''images''), pool_path = lit ''/srv/images'', pool_source = Dir\<rparr>"

definition example_nfs_pool :: NewPool where
  "example_nfs_pool = \<lparr>pool_name = Name (lit ''nas''), pool_path = lit ''/srv/nas'',
     pool_source = Nfs (lit ''nas.lan'') (lit ''/export/vm'')\<rparr>"

lemma example_pools_built:
  "NewPool_dir (Name (lit ''images'')) (lit ''/srv//images/'') = Ok example_dir_pool"
  "NewPool_nfs (Name (lit ''nas'')) (lit ''nas.lan'') (lit ''/export/vm'') (lit ''/srv/nas'') = Ok example_nfs_pool"
  by code_simp+

lemma example_names: "checked_name (Name (lit ''images''))" "checked_name (Name (lit ''nas''))"
  unfolding checked_name_def by (rule exI [of _ "''pool name''"], code_simp)+

lemmas example_pools_wf =
  NewPool_dir_wf [OF example_names(1) example_pools_built(1)]
  NewPool_nfs_wf [OF example_names(2) example_pools_built(2)]

theorem target_path_safe_witness:
  "target_path (lit ''/srv//images/'') = Ok (lit ''/srv/images'') \<and> plain_path (lit ''/srv/images'')"
proof -
  have "target_path (lit ''/srv//images/'') = Ok (lit ''/srv/images'')"
    by code_simp
  with target_path_safe [OF this] show ?thesis by blast
qed

theorem pool_xml_roundtrip_witness:
  "\<exists>d. PoolXml_parse xml_codec (NewPool_to_xml xml_codec example_nfs_pool) = Ok d \<and>
     PoolXml_nfs_source xml_codec d = Some (lit ''nas.lan'', lit ''/export/vm'')"
  using pool_xml_roundtrip [OF xml_codec_laws example_pools_wf(2)] by (auto simp: example_nfs_pool_def)

theorem pool_check_against_exact_witness:
  "NewPool_check_against xml_codec example_nfs_pool
     [(lit ''images'', PoolXml (pool_element xml_codec example_dir_pool))] = Ok ()"
  using pool_check_against_exact [OF xml_codec_laws example_pools_wf(2), of "[example_dir_pool]"] example_pools_wf(1)
  by (simp add: example_dir_pool_def example_nfs_pool_def)

end
