(* ===== verification/Xml_Network.thy ===== *)
theory Xml_Network
  imports Xml_Pool
begin

text \<open>
  \<^verbatim>\<open>lodger-core/src/xml/network.rs\<close>: a new NAT, isolated or bridge network with every input checked,
  its XML with the gateway and the DHCP range, the readers of an existing network document, and the
  overlap check against existing networks.
\<close>

unbundle bit_operations_syntax

section \<open>Model\<close>

datatype NetworkMode = Nat ipv4net | Isolated ipv4net | Bridge ustr

record NewNetwork =
  net_name :: Name
  net_mode :: NetworkMode

definition NewNetwork_nat :: "ipnet \<Rightarrow> Name \<Rightarrow> ustr \<Rightarrow> (NewNetwork, InputError) result" where
  "NewNetwork_nat N name subnet =
     and_then (parse_subnet N ''Subnet'' subnet) (\<lambda>s. Ok \<lparr>net_name = name, net_mode = Nat s\<rparr>)"

definition NewNetwork_isolated :: "ipnet \<Rightarrow> Name \<Rightarrow> ustr \<Rightarrow> (NewNetwork, InputError) result" where
  "NewNetwork_isolated N name subnet =
     and_then (parse_subnet N ''Subnet'' subnet) (\<lambda>s. Ok \<lparr>net_name = name, net_mode = Isolated s\<rparr>)"

definition NewNetwork_bridge :: "Name \<Rightarrow> ustr \<Rightarrow> ustr list \<Rightarrow> (NewNetwork, InputError) result" where
  "NewNetwork_bridge name bridge host_bridges =
     and_then (parse_interface ''Host bridge'' bridge) (\<lambda>b.
       if b \<notin> set host_bridges then Err (NoSuchBridge b)
       else Ok \<lparr>net_name = name, net_mode = Bridge b\<rparr>)"

definition NewNetwork_subnet :: "NewNetwork \<Rightarrow> ipv4net option" where
  "NewNetwork_subnet n = (case net_mode n of Nat s \<Rightarrow> Some s | Isolated s \<Rightarrow> Some s | Bridge _ \<Rightarrow> None)"

definition gateway_of :: "ipnet \<Rightarrow> ipv4net \<Rightarrow> u32" where
  "gateway_of N subnet = net_network N subnet + 1"

definition dhcp_start :: "ipnet \<Rightarrow> ipv4net \<Rightarrow> u32" where
  "dhcp_start N subnet = net_network N subnet + 2"

definition dhcp_end :: "ipnet \<Rightarrow> ipv4net \<Rightarrow> u32" where
  "dhcp_end N subnet = net_broadcast N subnet - 1"

definition ip :: "xmltree \<Rightarrow> ipnet \<Rightarrow> ipv4net \<Rightarrow> element" where
  "ip X N subnet =
     (let gateway = ipv4_to_string (gateway_of N subnet);
          start = ipv4_to_string (dhcp_start N subnet);
          stop = ipv4_to_string (dhcp_end N subnet);
          prefix = dec (prefix_len subnet);
          ip = element_with X ''ip'' [(''address'', gateway), (''prefix'', prefix)];
          dhcp = push (element_new (lit ''dhcp'')) (element_with X ''range'' [(''start'', start), (''end'', stop)])
      in push ip dhcp)"

definition network_element :: "xmltree \<Rightarrow> ipnet \<Rightarrow> NewNetwork \<Rightarrow> element" where
  "network_element X N n =
     (let network = push (element_new (lit ''network'')) (text_element ''name'' (as_str (net_name n))) in
      case net_mode n of
        Nat subnet \<Rightarrow>
          push (push network (element_with X ''forward'' [(''mode'', lit ''nat'')])) (ip X N subnet)
      | Isolated subnet \<Rightarrow> push network (ip X N subnet)
      | Bridge bridge \<Rightarrow>
          push (push network (element_with X ''forward'' [(''mode'', lit ''bridge'')]))
            (element_with X ''bridge'' [(''name'', bridge)]))"

definition NewNetwork_to_xml :: "xmltree \<Rightarrow> ipnet \<Rightarrow> NewNetwork \<Rightarrow> ustr" where
  "NewNetwork_to_xml X N n = xml_write X (network_element X N n)"

definition classful_prefix :: "u32 \<Rightarrow> nat" where
  "classful_prefix address =
     (let a = hd (octets address) in if a \<le> 127 then 8 else if a \<le> 191 then 16 else 24)"

datatype NetworkXml = NetworkXml (network_root: element)

definition NetworkXml_parse :: "xmltree \<Rightarrow> ustr \<Rightarrow> (NetworkXml, XmlError) result" where
  "NetworkXml_parse X xml = map_ok NetworkXml (xml_parse X xml ''network'')"

definition NetworkXml_name :: "xmltree \<Rightarrow> NetworkXml \<Rightarrow> ustr option" where
  "NetworkXml_name X d =
     Option.bind (xt_get_child X (network_root d) (lit ''name'')) (\<lambda>c. find_map node_text (children c))"

definition NetworkXml_forward_mode :: "xmltree \<Rightarrow> NetworkXml \<Rightarrow> ustr option" where
  "NetworkXml_forward_mode X d =
     map_option (\<lambda>forward. case attr X forward ''mode'' of None \<Rightarrow> lit ''nat'' | Some m \<Rightarrow> m)
       (xt_get_child X (network_root d) (lit ''forward''))"

definition NetworkXml_bridge :: "xmltree \<Rightarrow> NetworkXml \<Rightarrow> ustr option" where
  "NetworkXml_bridge X d =
     Option.bind (xt_get_child X (network_root d) (lit ''bridge'')) (\<lambda>b. attr X b ''name'')"

definition ip_subnet :: "xmltree \<Rightarrow> ipnet \<Rightarrow> element \<Rightarrow> ipv4net option" where
  "ip_subnet X N e =
     Option.bind (Option.bind (attr X e ''address'') parse_ipv4) (\<lambda>address.
     map_option (net_trunc N)
       (case (attr X e ''prefix'', attr X e ''netmask'') of
          (Some prefix, _) \<Rightarrow> Option.bind (parse_uint 255 prefix) (net_new N address)
        | (None, Some m) \<Rightarrow> Option.bind (parse_ipv4 m) (net_with_netmask N address)
        | (None, None) \<Rightarrow> net_new N address (classful_prefix address)))"

definition NetworkXml_subnets :: "xmltree \<Rightarrow> ipnet \<Rightarrow> NetworkXml \<Rightarrow> ipv4net list" where
  "NetworkXml_subnets X N d =
     List.map_filter (ip_subnet X N) (device_elements (network_root d) ''ip'')"

definition NetworkXml_to_xml :: "xmltree \<Rightarrow> NetworkXml \<Rightarrow> ustr" where
  "NetworkXml_to_xml X d = xml_write X (network_root d)"

definition NewNetwork_check_against ::
    "xmltree \<Rightarrow> ipnet \<Rightarrow> NewNetwork \<Rightarrow> (ustr \<times> NetworkXml) list \<Rightarrow> (unit, InputError) result" where
  "NewNetwork_check_against X N n existing =
     (case NewNetwork_subnet n of
        None \<Rightarrow> Ok ()
      | Some subnet \<Rightarrow>
          check_no_overlap N ''Subnet'' subnet
            (concat (map (\<lambda>(name, xml). map (\<lambda>net. (name, net)) (NetworkXml_subnets X N xml)) existing)))"

section \<open>Addresses of a checked subnet\<close>

definition subnet_wf :: "ipnet \<Rightarrow> ipv4net \<Rightarrow> bool" where
  "subnet_wf N s \<longleftrightarrow> prefix_len s \<le> 30 \<and> net_addr s = net_network N s"

definition network_wf :: "ipnet \<Rightarrow> NewNetwork \<Rightarrow> bool" where
  "network_wf N n \<longleftrightarrow> checked_name (net_name n) \<and>
     (case net_mode n of Nat s \<Rightarrow> subnet_wf N s | Isolated s \<Rightarrow> subnet_wf N s
      | Bridge b \<Rightarrow> parse_interface ''Host bridge'' b = Ok b)"

lemma NewNetwork_nat_wf: "checked_name m \<Longrightarrow> NewNetwork_nat N m s = Ok n \<Longrightarrow> network_wf N n"
  and NewNetwork_isolated_wf: "checked_name m \<Longrightarrow> NewNetwork_isolated N m s = Ok n \<Longrightarrow> network_wf N n"
  by (auto simp: NewNetwork_nat_def NewNetwork_isolated_def result_simps network_wf_def subnet_wf_def
      parse_subnet_Ok)

lemma NewNetwork_bridge_wf: "checked_name m \<Longrightarrow> NewNetwork_bridge m b bs = Ok n \<Longrightarrow> network_wf N n"
  using interface.stable
  by (auto simp: NewNetwork_bridge_def result_simps network_wf_def split: if_splits)

text \<open>A subnet of at most 30 prefix bits has at least four addresses, so the offsets do not wrap.\<close>

lemma subnet_room:
  assumes N: "ipnet_laws N" and s: "prefix_len s \<le> 30"
  shows "unat (net_network N s) + 3 \<le> unat (net_broadcast N s)"
proof -
  let ?p = "prefix_len s" and ?h = "hostmask (prefix_len s)"
  have "net_addr s OR ?h = (net_addr s AND NOT ?h) OR ?h"
    by (rule bit_word_eqI) (auto simp: bit_simps)
  also have "\<dots> = (net_addr s AND NOT ?h) + ?h"
    by (rule disjunctive_add [symmetric]) (auto simp: bit_simps)
  finally have eq: "net_broadcast N s = net_network N s + ?h"
    using s by (simp add: ipnet_lawsD(1,2) [OF N])
  have "net_network N s \<le> net_network N s + ?h"
    using network_le_broadcast [OF N, of s] s by (simp add: eq)
  then have "unat (net_broadcast N s) = unat (net_network N s) + unat ?h"
    unfolding eq by (meson unat_plus_simple)
  moreover have "3 \<le> unat ?h"
  proof -
    have "?h = mask 2 OR ?h"
      using s by (intro bit_word_eqI) (auto simp: bit_simps hostmask_def)
    then have "mask 2 \<le> ?h"
      by (metis le_word_or2)
    then show ?thesis
      by (simp add: mask_eq_exp_minus_1 word_le_nat_alt)
  qed
  ultimately show ?thesis by simp
qed

lemma subnet_offsets:
  assumes N: "ipnet_laws N" and s: "prefix_len s \<le> 30"
  shows "unat (gateway_of N s) = unat (net_network N s) + 1"
    and "unat (dhcp_start N s) = unat (net_network N s) + 2"
    and "unat (dhcp_end N s) = unat (net_broadcast N s) - 1"
proof -
  have room: "unat (net_network N s) + 3 \<le> unat (net_broadcast N s)"
    by (rule subnet_room [OF assms])
  moreover have "unat (net_broadcast N s) < 2 ^ 32"
    using unsigned_less [of "net_broadcast N s", where 'a = nat] by simp
  ultimately have small: "unat (net_network N s) + 3 < 2 ^ 32" by simp
  then show "unat (gateway_of N s) = unat (net_network N s) + 1"
    and "unat (dhcp_start N s) = unat (net_network N s) + 2"
    by (simp_all add: gateway_of_def dhcp_start_def unat_word_ariths)
  have "1 \<le> net_broadcast N s"
    using room by (simp add: word_le_nat_alt)
  then show "unat (dhcp_end N s) = unat (net_broadcast N s) - 1"
    unfolding dhcp_end_def by (subst unat_sub) auto
qed

text \<open>The gateway lies in its own subnet: with the subnet's prefix it truncates to the subnet.\<close>

lemma network_of_gateway:
  assumes N: "ipnet_laws N" and s: "subnet_wf N s"
  shows "gateway_of N s AND NOT (hostmask (prefix_len s)) = net_network N s"
proof -
  let ?h = "hostmask (prefix_len s)"
  have p: "prefix_len s \<le> 30" using s by (simp add: subnet_wf_def)
  have net: "net_network N s = net_addr s AND NOT ?h"
    using p by (simp add: ipnet_lawsD(1) [OF N])
  have "gateway_of N s = net_network N s OR 1"
    unfolding gateway_of_def net
    using p by (intro disjunctive_add) (auto simp: bit_simps hostmask_def bit_1_iff)
  then have "gateway_of N s AND NOT ?h = ((net_addr s AND NOT ?h) OR 1) AND NOT ?h"
    by (simp add: net)
  also have "\<dots> = net_addr s AND NOT ?h"
    using p by (intro bit_word_eqI) (auto simp: bit_simps hostmask_def bit_1_iff)
  finally show ?thesis by (simp add: net)
qed

section \<open>Reading back a network\<close>

lemma ipv4_xml: "xml_attr_text (ipv4_to_string w)"
proof -
  have "c = 46 \<or> is_digit c" if "c \<in> set (ipv4_to_string w)" for c
    using that set_join [of "lit ''.''" "map dec (octets w)"] dec_digits
    by (fastforce simp: ipv4_to_string_def lit_def)
  then have "\<not> path_control c" if "c \<in> set (ipv4_to_string w)" for c
    using that digit_xml by (force simp: path_control_def is_control_def)
  then show ?thesis
    by (auto simp: xml_attr_text_def list_ex_iff)
qed

lemma interface_xml: "parse_interface f b = Ok b \<Longrightarrow> xml_attr_text b"
  using name_char_xml by (auto simp: parse_interface_Ok xml_attr_text_def list_ex_iff list_all_iff)

lemma dec_attr_text: "xml_attr_text (dec n)"
  using dec_xml_text [of n] by (simp add: xml_text_def xml_attr_text_def)

lemmas network_build_simps = network_element_def ip_def build_simps Let_def

lemma network_element_plain: "xmltree_laws X \<Longrightarrow> network_wf N n \<Longrightarrow> plain_element (network_element X N n)"
  by (cases "net_mode n")
    (auto simp: network_build_simps network_wf_def xml_lit_simps checked_name_xml ipv4_xml
      interface_xml dec_attr_text)

lemma NetworkXml_parse_to_xml:
  assumes "xmltree_laws X" and "network_wf N n"
  shows "NetworkXml_parse X (NewNetwork_to_xml X N n) = Ok (NetworkXml (network_element X N n))"
proof -
  have "elem_name (network_element X N n) = lit ''network''"
    using assms(1) by (cases "net_mode n") (simp_all add: network_build_simps)
  with assms show ?thesis
    by (simp add: NetworkXml_parse_def NewNetwork_to_xml_def xml_roundtrip network_element_plain)
qed

lemma ip_subnet_ip:
  assumes X: "xmltree_laws X" and N: "ipnet_laws N" and s: "subnet_wf N s"
  shows "ip_subnet X N (ip X N s) = Some s"
proof -
  have p: "prefix_len s \<le> 30" "net_addr s = net_network N s"
    using s by (auto simp: subnet_wf_def)
  have new: "net_new N a k = (if k \<le> 32 then Some (Ipv4Net a k) else None)" for a k
    using N by (simp add: ipnet_laws_def)
  have "net_trunc N (Ipv4Net (gateway_of N s) (prefix_len s)) = s"
    using p network_of_gateway [OF N s] by (cases s) (simp add: ipnet_lawsD(1,3) [OF N])
  with p new show ?thesis
    by (simp add: ip_subnet_def ip_def Let_def build_simps X attr_def xmltree_lawsD [OF X]
        parse_ipv4_to_string parse_uint_dec)
qed

lemma ip_name: "xmltree_laws X \<Longrightarrow> elem_name (ip X N s) = lit ''ip''"
  by (simp add: ip_def Let_def build_simps)

lemma network_element_reads:
  assumes X: "xmltree_laws X"
  shows "NetworkXml_name X (NetworkXml (network_element X N n)) = Some (as_str (net_name n))"
    and "NetworkXml_forward_mode X (NetworkXml (network_element X N n)) =
      (case net_mode n of Nat _ \<Rightarrow> Some (lit ''nat'') | Isolated _ \<Rightarrow> None | Bridge _ \<Rightarrow> Some (lit ''bridge''))"
    and "NetworkXml_bridge X (NetworkXml (network_element X N n)) =
      (case net_mode n of Bridge b \<Rightarrow> Some b | _ \<Rightarrow> None)"
  using X ip_name [OF X, of N]
  by (cases "net_mode n";
      simp add: network_element_def Let_def build_simps NetworkXml_name_def NetworkXml_forward_mode_def
        NetworkXml_bridge_def node_text_def attr_def xmltree_lawsD List.map_filter_def)+

lemma network_element_subnets:
  assumes X: "xmltree_laws X" and N: "ipnet_laws N" and n: "network_wf N n"
  shows "NetworkXml_subnets X N (NetworkXml (network_element X N n)) =
    (case NewNetwork_subnet n of None \<Rightarrow> [] | Some s \<Rightarrow> [s])"
  using n ip_subnet_ip [OF X N] ip_name [OF X, of N]
  by (cases "net_mode n")
    (simp_all add: NetworkXml_subnets_def device_elements_def network_element_def Let_def build_simps X
      List.map_filter_def network_wf_def NewNetwork_subnet_def)

lemma NetworkXml_subnets_prefix:
  assumes N: "ipnet_laws N" and "m \<in> set (NetworkXml_subnets X N d)"
  shows "prefix_len m \<le> 32"
proof -
  obtain e where "ip_subnet X N e = Some m"
    using assms(2) by (auto simp: NetworkXml_subnets_def set_map_filter)
  then obtain k where "m = net_trunc N k" "prefix_len k \<le> 32"
    using ipnet_lawsD(10) [OF N]
    by (fastforce simp: ip_subnet_def ipnet_lawsD(9) [OF N] split: bind_splits option.splits if_splits)
  then show ?thesis by (simp add: ipnet_lawsD(3) [OF N])
qed

text \<open>What \<^verbatim>\<open>check_against\<close> means for the addresses.\<close>

lemma check_against_disjoint:
  assumes N: "ipnet_laws N" and "network_wf N n" and "NewNetwork_subnet n = Some s"
  shows "NewNetwork_check_against X N n existing = Ok () \<longleftrightarrow>
    (\<forall>(name, d)\<in>set existing. \<forall>m\<in>set (NetworkXml_subnets X N d). addresses N s \<inter> addresses N m = {})"
proof -
  let ?others = "concat (map (\<lambda>(name, xml). map (\<lambda>net. (name, net)) (NetworkXml_subnets X N xml)) existing)"
  have "prefix_len s \<le> 32"
    using assms(2,3) by (auto simp: network_wf_def subnet_wf_def NewNetwork_subnet_def split: NetworkMode.splits)
  moreover have "\<forall>(_, m)\<in>set ?others. prefix_len m \<le> 32"
    using NetworkXml_subnets_prefix [OF N] by fastforce
  ultimately have "NewNetwork_check_against X N n existing =
      (case find (\<lambda>(_, m). overlapping N s m) ?others of
         Some (name, m) \<Rightarrow> Err (SubnetOverlap ''Subnet'' name m) | None \<Rightarrow> Ok ())"
    using assms(3) check_no_overlap_find [OF N] by (simp add: NewNetwork_check_against_def)
  then have "NewNetwork_check_against X N n existing = Ok () \<longleftrightarrow> find (\<lambda>(_, m). overlapping N s m) ?others = None"
    by (simp split: option.split prod.split)
  also have "\<dots> \<longleftrightarrow> (\<forall>(name, d)\<in>set existing. \<forall>m\<in>set (NetworkXml_subnets X N d). \<not> overlapping N s m)"
    by (fastforce simp: find_None_iff)
  finally show ?thesis by (simp add: overlapping_def)
qed

section \<open>Properties\<close>

text \<open>
  In a checked subnet the gateway and the DHCP range do not wrap around: they lie strictly between
  the network and the broadcast address, and every address there is either the gateway or handed
  out by DHCP, never both.
\<close>

theorem dhcp_covers_subnet:
  assumes "ipnet_laws N" and "parse_subnet N f v = Ok s"
  shows "net_network N s < gateway_of N s \<and> gateway_of N s < dhcp_start N s \<and>
    dhcp_start N s \<le> dhcp_end N s \<and> dhcp_end N s < net_broadcast N s \<and>
    (\<forall>a. net_network N s < a \<and> a < net_broadcast N s \<longleftrightarrow>
       a = gateway_of N s \<or> dhcp_start N s \<le> a \<and> a \<le> dhcp_end N s)"
proof -
  have "prefix_len s \<le> 30"
    using assms(2) by (simp add: parse_subnet_Ok)
  from subnet_offsets [OF assms(1) this] subnet_room [OF assms(1) this] show ?thesis
    by (auto simp: word_less_nat_alt word_le_nat_alt word_unat_eq_iff)
qed

text \<open>
  C17: the XML of a new network parses as a network document that gives back its name, its forward
  mode, its bridge and exactly its subnet.
\<close>

theorem network_xml_roundtrip:
  assumes "xmltree_laws X" and "ipnet_laws N" and "network_wf N n"
  shows "\<exists>d. NetworkXml_parse X (NewNetwork_to_xml X N n) = Ok d \<and>
    NetworkXml_name X d = Some (as_str (net_name n)) \<and>
    NetworkXml_bridge X d = (case net_mode n of Bridge b \<Rightarrow> Some b | _ \<Rightarrow> None) \<and>
    NetworkXml_subnets X N d = (case NewNetwork_subnet n of None \<Rightarrow> [] | Some s \<Rightarrow> [s])"
  using assms by (simp add: NetworkXml_parse_to_xml network_element_reads network_element_subnets)

text \<open>
  A new network passes \<^verbatim>\<open>check_against\<close> exactly if its subnet shares no address with any subnet
  that the existing network documents declare.
\<close>

theorem network_check_against_exact:
  assumes "ipnet_laws N" and "network_wf N n" and "NewNetwork_subnet n = Some s"
  shows "NewNetwork_check_against X N n existing = Ok () \<longleftrightarrow>
    (\<forall>(name, d)\<in>set existing. \<forall>m\<in>set (NetworkXml_subnets X N d). addresses N s \<inter> addresses N m = {})"
  using assms by (rule check_against_disjoint)

subsection \<open>Witnesses\<close>

definition example_nat :: NewNetwork where
  "example_nat = \<lparr>net_name = Name (lit ''images''), net_mode = Nat (Ipv4Net 0xC0A89600 24)\<rparr>"

lemma example_nat_built: "NewNetwork_nat cidr (Name (lit ''images'')) (lit ''192.168.150.0/24'') = Ok example_nat"
  by (simp add: NewNetwork_nat_def subnet_example example_nat_def)

lemmas example_nat_wf = NewNetwork_nat_wf [OF example_names(1) example_nat_built]

theorem dhcp_covers_subnet_witness:
  "dhcp_start cidr (Ipv4Net 0xC0A89600 24) \<le> dhcp_end cidr (Ipv4Net 0xC0A89600 24) \<and>
   gateway_of cidr (Ipv4Net 0xC0A89600 24) = 0xC0A89601 \<and> dhcp_end cidr (Ipv4Net 0xC0A89600 24) = 0xC0A896FE"
proof -
  from dhcp_covers_subnet [OF cidr_laws subnet_example]
  have "dhcp_start cidr (Ipv4Net 0xC0A89600 24) \<le> dhcp_end cidr (Ipv4Net 0xC0A89600 24)"
    by blast
  moreover have "gateway_of cidr (Ipv4Net 0xC0A89600 24) = 0xC0A89601"
      "dhcp_end cidr (Ipv4Net 0xC0A89600 24) = 0xC0A896FE"
    by code_simp+
  ultimately show ?thesis by blast
qed

theorem network_xml_roundtrip_witness:
  "\<exists>d. NetworkXml_parse xml_codec (NewNetwork_to_xml xml_codec cidr example_nat) = Ok d \<and>
     NetworkXml_subnets xml_codec cidr d = [Ipv4Net 0xC0A89600 24]"
  using network_xml_roundtrip [OF xml_codec_laws cidr_laws example_nat_wf]
  by (auto simp: example_nat_def NewNetwork_subnet_def)

theorem network_check_against_exact_witness:
  "NewNetwork_check_against xml_codec cidr example_nat [] = Ok ()"
  using network_check_against_exact [OF cidr_laws example_nat_wf, of "Ipv4Net 0xC0A89600 24" xml_codec "[]"]
  by (simp add: example_nat_def NewNetwork_subnet_def)

end
