(* ===== verification/Xml_Volume.thy ===== *)
theory Xml_Volume
  imports Xml_Pool
begin

text \<open>
  \<^verbatim>\<open>lodger-core/src/xml/volume.rs\<close>: a new qcow2 or raw volume, its XML and the readers of an existing
  volume document. Sizes are 64-bit words.
\<close>

section \<open>Model\<close>

type_synonym u64 = "64 word"

definition MIN_BYTES :: u64 where
  "MIN_BYTES = push_bit 20 1"

definition MAX_BYTES :: u64 where
  "MAX_BYTES = push_bit 50 1"

datatype VolumeFormat = Qcow2 | Raw

primrec VolumeFormat_as_str :: "VolumeFormat \<Rightarrow> string" where
  "VolumeFormat_as_str Qcow2 = ''qcow2''"
| "VolumeFormat_as_str Raw = ''raw''"

record NewVolume =
  volume_name :: Name
  volume_format :: VolumeFormat
  capacity_bytes :: u64

definition NewVolume_new :: "Name \<Rightarrow> VolumeFormat \<Rightarrow> u64 \<Rightarrow> (NewVolume, InputError) result" where
  "NewVolume_new name format bytes =
     (if \<not> (MIN_BYTES \<le> bytes \<and> bytes \<le> MAX_BYTES)
      then Err (SizeOutOfRange ''size'' (unat MIN_BYTES) (unat MAX_BYTES))
      else Ok \<lparr>volume_name = name, volume_format = format, capacity_bytes = bytes\<rparr>)"

definition volume_element :: "xmltree \<Rightarrow> NewVolume \<Rightarrow> element" where
  "volume_element X v =
     (let volume = push (element_new (lit ''volume'')) (text_element ''name'' (as_str (volume_name v)));
          capacity = push_node (element_with X ''capacity'' [(''unit'', lit ''bytes'')])
            (XText (dec (unat (capacity_bytes v))));
          volume = push volume capacity;
          tgt = push (element_new (lit ''target''))
            (element_with X ''format'' [(''type'', lit (VolumeFormat_as_str (volume_format v)))])
      in push volume tgt)"

definition NewVolume_to_xml :: "xmltree \<Rightarrow> NewVolume \<Rightarrow> ustr" where
  "NewVolume_to_xml X v = xml_write X (volume_element X v)"

definition NewVolume_check_against :: "NewVolume \<Rightarrow> ustr \<Rightarrow> ustr list \<Rightarrow> (unit, InputError) result" where
  "NewVolume_check_against v pool existing =
     (if list_ex (\<lambda>name. name = as_str (volume_name v)) existing
      then Err (VolumeNameInUse pool (as_str (volume_name v))) else Ok ())"

datatype VolumeXml = VolumeXml (volume_root: element)

definition VolumeXml_parse :: "xmltree \<Rightarrow> ustr \<Rightarrow> (VolumeXml, XmlError) result" where
  "VolumeXml_parse X xml = map_ok VolumeXml (xml_parse X xml ''volume'')"

definition VolumeXml_name :: "xmltree \<Rightarrow> VolumeXml \<Rightarrow> ustr option" where
  "VolumeXml_name X d = child_text X (volume_root d) ''name''"

definition VolumeXml_path :: "xmltree \<Rightarrow> VolumeXml \<Rightarrow> ustr option" where
  "VolumeXml_path X d =
     Option.bind (xt_get_child X (volume_root d) (lit ''target'')) (\<lambda>t. child_text X t ''path'')"

definition VolumeXml_backing_path :: "xmltree \<Rightarrow> VolumeXml \<Rightarrow> ustr option" where
  "VolumeXml_backing_path X d =
     Option.bind (xt_get_child X (volume_root d) (lit ''backingStore'')) (\<lambda>b. child_text X b ''path'')"

definition VolumeXml_format :: "xmltree \<Rightarrow> VolumeXml \<Rightarrow> ustr option" where
  "VolumeXml_format X d =
     Option.bind (xt_get_child X (volume_root d) (lit ''target'')) (\<lambda>t.
     Option.bind (xt_get_child X t (lit ''format'')) (\<lambda>f. attr X f ''type''))"

section \<open>Reading back a volume\<close>

lemma volume_element_plain:
  "xmltree_laws X \<Longrightarrow> checked_name (volume_name v) \<Longrightarrow> plain_element (volume_element X v)"
  by (cases "volume_format v")
    (auto simp: volume_element_def Let_def build_simps xml_lit_simps checked_name_xml dec_xml_text)

lemma volume_element_reads:
  assumes X: "xmltree_laws X"
  shows "elem_name (volume_element X v) = lit ''volume''"
    and "VolumeXml_name X (VolumeXml (volume_element X v)) = Some (as_str (volume_name v))"
    and "VolumeXml_format X (VolumeXml (volume_element X v)) = Some (lit (VolumeFormat_as_str (volume_format v)))"
    and "Option.bind (child_text X (volume_element X v) ''capacity'') (parse_uint (2 ^ 64 - 1)) =
      Some (unat (capacity_bytes v))"
proof -
  have "unat (capacity_bytes v) \<le> 2 ^ 64 - 1"
    using unsigned_less [of "capacity_bytes v", where 'a = nat] by simp
  then show "Option.bind (child_text X (volume_element X v) ''capacity'') (parse_uint (2 ^ 64 - 1)) =
      Some (unat (capacity_bytes v))"
    by (simp add: volume_element_def Let_def build_simps X child_text_def node_text_def
        xmltree_lawsD [OF X] List.map_filter_def parse_uint_dec)
qed (simp_all add: volume_element_def Let_def build_simps X child_text_def node_text_def attr_def
        xmltree_lawsD [OF X] List.map_filter_def VolumeXml_name_def VolumeXml_format_def)

section \<open>Properties\<close>

text \<open>
  A volume that \<^verbatim>\<open>NewVolume::new\<close> accepts is between 1 MiB and 1 PiB, and its XML parses as a volume
  document that gives back its name, its format and its exact size in bytes.
\<close>

theorem volume_xml_roundtrip:
  assumes "xmltree_laws X" and "checked_name name" and "NewVolume_new name format bytes = Ok v"
  shows "2 ^ 20 \<le> unat bytes \<and> unat bytes \<le> 2 ^ 50 \<and>
    (\<exists>e. VolumeXml_parse X (NewVolume_to_xml X v) = Ok (VolumeXml e) \<and>
       VolumeXml_name X (VolumeXml e) = Some (as_str name) \<and>
       VolumeXml_format X (VolumeXml e) = Some (lit (VolumeFormat_as_str format)) \<and>
       Option.bind (child_text X e ''capacity'') (parse_uint (2 ^ 64 - 1)) = Some (unat bytes))"
proof -
  have v: "v = \<lparr>volume_name = name, volume_format = format, capacity_bytes = bytes\<rparr>"
    and "MIN_BYTES \<le> bytes" "bytes \<le> MAX_BYTES"
    using assms(3) by (auto simp: NewVolume_new_def split: if_splits)
  then have "2 ^ 20 \<le> unat bytes \<and> unat bytes \<le> 2 ^ 50"
    by (simp add: MIN_BYTES_def MAX_BYTES_def word_le_nat_alt push_bit_eq_mult)
  moreover have "VolumeXml_parse X (NewVolume_to_xml X v) = Ok (VolumeXml (volume_element X v))"
    using assms(1,2) v
    by (simp add: VolumeXml_parse_def NewVolume_to_xml_def xml_roundtrip volume_element_plain
        volume_element_reads)
  ultimately show ?thesis
    using volume_element_reads [OF assms(1), of v] v by auto
qed

theorem volume_xml_roundtrip_witness:
  "\<exists>v e. NewVolume_new (Name (lit ''images'')) Qcow2 0x40000000 = Ok v \<and>
     VolumeXml_parse xml_codec (NewVolume_to_xml xml_codec v) = Ok (VolumeXml e)"
proof -
  obtain v where v: "NewVolume_new (Name (lit ''images'')) Qcow2 0x40000000 = Ok v"
    by (simp add: NewVolume_new_def MIN_BYTES_def MAX_BYTES_def push_bit_eq_mult)
  from volume_xml_roundtrip [OF xml_codec_laws example_names(1) this] v show ?thesis by blast
qed

end
