(* ===== verification/Virt_World.thy ===== *)
theory Virt_World
  imports Xml_Pool Xml_Network Xml_Volume
begin

text \<open>
  The libvirt connection as the sources of \<^verbatim>\<open>lodger-virt\<close> see it, the error type of \<^verbatim>\<open>conn.rs\<close>, the known
  errors of \<^verbatim>\<open>errors.rs\<close> and the state codes of \<^verbatim>\<open>lodger-core/src/model\<close>.

  libvirt is not part of the sources: the parameter \<open>libvirt\<close> answers every call, in an arbitrary
  world that each call may change, and that other clients of libvirt may have changed before it. Every
  call is recorded with its error, if it had one, so a theorem can say which calls a function made and
  in which order, whatever libvirt answers.
\<close>

section \<open>Names and states\<close>

datatype uuid = Uuid nat

instantiation uuid :: linorder
begin

fun less_eq_uuid :: "uuid \<Rightarrow> uuid \<Rightarrow> bool" where
  "less_eq_uuid (Uuid m) (Uuid n) = (m \<le> n)"

fun less_uuid :: "uuid \<Rightarrow> uuid \<Rightarrow> bool" where
  "less_uuid (Uuid m) (Uuid n) = (m < n)"

instance
proof
  fix x y z :: uuid
  show "x < y \<longleftrightarrow> x \<le> y \<and> \<not> y \<le> x" by (cases x; cases y) auto
  show "x \<le> x" by (cases x) simp
  show "x \<le> y \<Longrightarrow> y \<le> z \<Longrightarrow> x \<le> z" by (cases x; cases y; cases z) simp
  show "x \<le> y \<Longrightarrow> y \<le> x \<Longrightarrow> x = y" by (cases x; cases y) simp
  show "x \<le> y \<or> y \<le> x" by (cases x; cases y) auto
qed

end

datatype VmState =
  NoState | Running | Blocked | Paused | ShuttingDown | Shutoff | Crashed | Suspended | UnknownState

definition VmState_from_code :: "nat \<Rightarrow> VmState" where
  "VmState_from_code code =
     (if code = 0 then NoState else if code = 1 then Running else if code = 2 then Blocked
      else if code = 3 then Paused else if code = 4 then ShuttingDown else if code = 5 then Shutoff
      else if code = 6 then Crashed else if code = 7 then Suspended else UnknownState)"

datatype PoolState = Inactive | Building | PoolRunning | Degraded | Inaccessible | PoolUnknown

definition PoolState_from_code :: "nat \<Rightarrow> PoolState" where
  "PoolState_from_code code =
     (if code = 0 then Inactive else if code = 1 then Building else if code = 2 then PoolRunning
      else if code = 3 then Degraded else if code = 4 then Inaccessible else PoolUnknown)"

datatype VolumeKind = KFile | KBlock | KDir | KNetwork | KNetDir | KPloop | KUnknown

definition VolumeKind_from_code :: "nat \<Rightarrow> VolumeKind" where
  "VolumeKind_from_code code =
     (if code = 0 then KFile else if code = 1 then KBlock else if code = 2 then KDir
      else if code = 3 then KNetwork else if code = 4 then KNetDir else if code = 5 then KPloop else KUnknown)"

section \<open>Events\<close>

text \<open>\<^verbatim>\<open>events/mod.rs\<close>: what libvirt, or Lodger itself, reports to the hub.\<close>

datatype DomainChange = Lifecycle int int | Rebooted | DeviceAdded | DeviceRemoved | Metadata | Autostart

datatype Event = EvDomain uuid DomainChange | EvNetwork uuid int | EvPool uuid int | EvClosed int

section \<open>Errors\<close>

datatype ErrorNumber =
    NoDomain | NoNetwork | NoStoragePool | NoStorageVolume | InvalidArg | OperationInvalid | NoSupport
  | OtherNumber nat

text \<open>A libvirt error: its number, if the binding knows it, and its message.\<close>

record virt_error =
  known :: "ErrorNumber option"
  message :: ustr

datatype Error =
    Input InputError
  | Libvirt virt_error
  | EventLoop ustr
  | Task ustr
  | Io ustr
  | WrongState string
  | InUse "ustr list"
  | XmlFailed XmlError

definition is_not_found :: "Error \<Rightarrow> bool" where
  "is_not_found e =
     (case e of Libvirt v \<Rightarrow> known v \<in> {Some NoDomain, Some NoNetwork, Some NoStoragePool, Some NoStorageVolume}
      | _ \<Rightarrow> False)"

definition is_invalid_operation :: "Error \<Rightarrow> bool" where
  "is_invalid_operation e =
     (case e of WrongState _ \<Rightarrow> True | Libvirt v \<Rightarrow> known v = Some OperationInvalid | _ \<Rightarrow> False)"

record Explanation =
  cause :: ustr
  fix_text :: ustr
  commands :: "ustr list"

text \<open>
  The two known errors: the fixed parts of the message, and the explanation. Character 39 is the quote,
  92 the backslash and 96 the backquote.
\<close>

definition KNOWN :: "(ustr list \<times> Explanation) list" where
  "KNOWN =
     [([lit ''QEMU command '' @ [39] @ lit ''getfd'' @ [39], lit ''No file descriptor supplied''],
       \<lparr>cause = lit ''AppArmor on this host blocks /dev/vhost-net, so QEMU cannot get the network device for the new NIC.'',
        fix_text = lit ''Add the rule '' @ [96] @ lit ''/dev/vhost-net rw,'' @ [96] @
          lit '' to /etc/apparmor.d/local/abstractions/libvirt-qemu, then stop and start the VM, because a VM gets the rule at its next start.'',
        commands =
          [lit ''sudo mkdir -p /etc/apparmor.d/local/abstractions'',
           lit ''printf '' @ [39, 92] @ lit ''n/dev/vhost-net rw,'' @ [92] @ lit ''n'' @ [39] @
             lit '' | sudo tee -a /etc/apparmor.d/local/abstractions/libvirt-qemu'']\<rparr>),
      ([lit ''deletion of active external snapshot that is not a leaf snapshot''],
       \<lparr>cause = lit ''libvirt cannot delete the current external snapshot while it has a child snapshot, for example right after a revert to it.'',
        fix_text = lit ''Delete its child snapshots first, or revert to another snapshot, then delete this one.'',
        commands = []\<rparr>)]"

definition explain :: "ustr \<Rightarrow> Explanation option" where
  "explain m = map_option snd (find (\<lambda>(parts, _). list_all (\<lambda>part. contains_str part m) parts) KNOWN)"

section \<open>Calls\<close>

type_synonym domain = nat
type_synonym pool = nat
type_synonym volume = nat
type_synonym network = nat

datatype xml_kind = Saved | Live

datatype call =
    LookupDomain uuid | ListDomains
  | DomainInfo domain | DomainIsActive domain | DomainIsPersistent domain | DomainAutostart domain
  | DomainName domain | DomainUuid domain | DomainXml domain xml_kind
  | DomainCreate domain | DomainShutdown domain bool | DomainDestroy domain | DomainReboot domain bool
  | DomainSuspend domain | DomainResume domain | DomainSetAutostart domain bool
  | DomainUndefine domain bool
  | LookupPool uuid | LookupPoolByName ustr | ListPools
  | PoolInfo pool | PoolIsActive pool | PoolIsPersistent pool | PoolAutostart pool | PoolName pool | PoolUuid pool
  | PoolXmlDesc pool | DefinePool ustr | PoolBuild pool | PoolCreate pool | PoolDestroy pool | PoolDelete pool
  | PoolUndefine pool | PoolRefresh pool | PoolSetAutostart pool bool | PoolVolumes pool
  | LookupVolByPath ustr | LookupVolByName pool ustr
  | VolPath volume | VolName volume | VolKey volume | VolInfo volume | VolXml volume | VolDelete volume
  | VolCreate pool ustr
  | LookupNetwork uuid | ListNetworks | NetworkIsActive network | NetworkIsPersistent network
  | NetworkAutostart network | NetworkName network | NetworkUuid network | NetworkBridge network
  | NetworkXmlDesc network | DefineNetwork ustr | NetworkCreate network | NetworkDestroy network
  | NetworkUndefine network | NetworkSetAutostart network bool
  | NodeInfo | LibVersion | Hostname | OpenGraphics domain nat | AllDomainStats

text \<open>The calls that change something on the host.\<close>

fun mutating :: "call \<Rightarrow> bool" where
  "mutating (DomainCreate _) = True" | "mutating (DomainShutdown _ _) = True" | "mutating (DomainDestroy _) = True"
| "mutating (DomainReboot _ _) = True" | "mutating (DomainSuspend _) = True" | "mutating (DomainResume _) = True"
| "mutating (DomainSetAutostart _ _) = True" | "mutating (DomainUndefine _ _) = True"
| "mutating (DefinePool _) = True" | "mutating (PoolBuild _) = True" | "mutating (PoolCreate _) = True"
| "mutating (PoolDestroy _) = True" | "mutating (PoolDelete _) = True" | "mutating (PoolUndefine _) = True"
| "mutating (PoolSetAutostart _ _) = True" | "mutating (VolDelete _) = True" | "mutating (VolCreate _ _) = True"
| "mutating (DefineNetwork _) = True" | "mutating (NetworkCreate _) = True" | "mutating (NetworkDestroy _) = True"
| "mutating (NetworkUndefine _) = True" | "mutating (NetworkSetAutostart _ _) = True"
| "mutating _ = False"

record domain_info =
  di_state :: nat
  di_memory :: nat
  di_vcpus :: nat

record pool_info =
  pi_state :: nat
  pi_capacity :: nat
  pi_allocation :: nat
  pi_available :: nat

record volume_info =
  vi_kind :: nat
  vi_capacity :: nat
  vi_allocation :: nat

type_synonym ('w, 'a) answer = "call \<Rightarrow> 'w \<Rightarrow> ('a, virt_error) result \<times> 'w"

text \<open>What libvirt answers, by the type of the answer.\<close>

record 'w libvirt =
  lv_unit :: "('w, unit) answer"
  lv_bool :: "('w, bool) answer"
  lv_handle :: "('w, nat) answer"
  lv_handles :: "('w, nat list) answer"
  lv_text :: "('w, ustr) answer"
  lv_uuid :: "('w, uuid) answer"
  lv_dominfo :: "('w, domain_info) answer"
  lv_poolinfo :: "('w, pool_info) answer"
  lv_volinfo :: "('w, volume_info) answer"

record 'w conn =
  world :: 'w
  trace :: "(call \<times> virt_error option) list"

type_synonym ('w, 'a, 'e) virt = "'w conn \<Rightarrow> ('a, 'e) result \<times> 'w conn"

definition ask :: "('w, 'a) answer \<Rightarrow> call \<Rightarrow> ('w, 'a, virt_error) virt" where
  "ask f c s =
     (let (r, w) = f c (world s)
      in (r, \<lparr>world = w, trace = trace s @ [(c, case r of Ok _ \<Rightarrow> None | Err e \<Rightarrow> Some e)]\<rparr>))"

definition vreturn :: "('a, 'e) result \<Rightarrow> ('w, 'a, 'e) virt" where
  "vreturn r s = (r, s)"

definition vbind :: "('w, 'a, 'e) virt \<Rightarrow> ('a \<Rightarrow> ('w, 'b, 'e) virt) \<Rightarrow> ('w, 'b, 'e) virt" where
  "vbind m f s = (case m s of (Ok a, s') \<Rightarrow> f a s' | (Err e, s') \<Rightarrow> (Err e, s'))"

text \<open>The outcome as a value: \<^verbatim>\<open>match\<close> on a \<^verbatim>\<open>Result\<close>, or \<^verbatim>\<open>.ok()\<close>.\<close>

definition vtry :: "('w, 'a, 'e) virt \<Rightarrow> (('a, 'e) result \<Rightarrow> ('w, 'b, 'f) virt) \<Rightarrow> ('w, 'b, 'f) virt" where
  "vtry m f s = (case m s of (r, s') \<Rightarrow> f r s')"

definition verr :: "('e \<Rightarrow> 'f) \<Rightarrow> ('w, 'a, 'e) virt \<Rightarrow> ('w, 'a, 'f) virt" where
  "verr g m s = (case m s of (r, s') \<Rightarrow> (map_err g r, s'))"

text \<open>A call whose libvirt error becomes Lodger's error.\<close>

definition ask_e :: "('w, 'a) answer \<Rightarrow> call \<Rightarrow> ('w, 'a, Error) virt" where
  "ask_e f c = verr Libvirt (ask f c)"

fun vmap :: "('a \<Rightarrow> ('w, 'b, 'e) virt) \<Rightarrow> 'a list \<Rightarrow> ('w, 'b list, 'e) virt" where
  "vmap f [] = vreturn (Ok [])"
| "vmap f (x # xs) = vbind (f x) (\<lambda>y. vbind (vmap f xs) (\<lambda>ys. vreturn (Ok (y # ys))))"

text \<open>
  \<^verbatim>\<open>Virt::job\<close> and \<^verbatim>\<open>Virt::read\<close>: the closure runs on a blocking thread, or the task did not finish.
\<close>

definition job :: "ustr option \<Rightarrow> ('w, 'a, Error) virt \<Rightarrow> ('w, 'a, Error) virt" where
  "job task_failed f s = (case task_failed of Some e \<Rightarrow> (Err (Task e), s) | None \<Rightarrow> f s)"

section \<open>Which calls a program makes\<close>

text \<open>Every call that the program adds to the trace satisfies the predicate.\<close>

definition makes :: "(call \<times> virt_error option \<Rightarrow> bool) \<Rightarrow> ('w, 'a, 'e) virt \<Rightarrow> bool" where
  "makes P m \<longleftrightarrow> (\<forall>s. \<exists>new. trace (snd (m s)) = trace s @ new \<and> list_all P new)"

named_theorems makes_intros \<open>which calls a program makes\<close>

lemma makes_ask [makes_intros]: "(\<And>e. P (c, e)) \<Longrightarrow> makes P (ask f c)"
  by (simp add: makes_def ask_def split: prod.splits)

lemma makes_return [makes_intros]: "makes P (vreturn r)"
  by (simp add: makes_def vreturn_def)

lemma makesD: "makes P m \<Longrightarrow> m s = (r, s') \<Longrightarrow> \<exists>new. trace s' = trace s @ new \<and> list_all P new"
  by (metis makes_def snd_conv)

lemma makes_bind [makes_intros]:
  assumes "makes P m" and "\<And>a. makes P (f a)"
  shows "makes P (vbind m f)"
  unfolding makes_def
proof
  fix s
  obtain r s1 where m: "m s = (r, s1)" by fastforce
  then obtain new where new: "trace s1 = trace s @ new" "list_all P new"
    using makesD [OF assms(1)] by blast
  show "\<exists>new. trace (snd (vbind m f s)) = trace s @ new \<and> list_all P new"
  proof (cases r)
    case (Ok a)
    obtain new' where "trace (snd (f a s1)) = trace s1 @ new'" "list_all P new'"
      using assms(2) unfolding makes_def by blast
    with new m Ok show ?thesis by (auto simp: vbind_def intro!: exI [of _ "new @ new'"])
  qed (use new m in \<open>auto simp: vbind_def\<close>)
qed

lemma makes_try [makes_intros]:
  assumes "makes P m" and "\<And>a. makes P (f a)"
  shows "makes P (vtry m f)"
  unfolding makes_def
proof
  fix s
  obtain r s1 where m: "m s = (r, s1)" by fastforce
  then obtain new where "trace s1 = trace s @ new" "list_all P new"
    using makesD [OF assms(1)] by blast
  moreover obtain new' where "trace (snd (f r s1)) = trace s1 @ new'" "list_all P new'"
    using assms(2) unfolding makes_def by blast
  ultimately show "\<exists>new. trace (snd (vtry m f s)) = trace s @ new \<and> list_all P new"
    using m by (auto simp: vtry_def intro!: exI [of _ "new @ new'"])
qed

lemma makes_err [makes_intros]: "makes P m \<Longrightarrow> makes P (verr g m)"
  unfolding makes_def verr_def by (metis (mono_tags, lifting) old.prod.case prod.collapse snd_conv)

lemma makes_ask_e [makes_intros]: "(\<And>e. P (c, e)) \<Longrightarrow> makes P (ask_e f c)"
  unfolding ask_e_def by (intro makes_intros)

lemma makes_vmap [makes_intros]: "(\<And>x. makes P (f x)) \<Longrightarrow> makes P (vmap f xs)"
  by (induction xs) (auto intro!: makes_intros)

lemma makes_if [makes_intros]: "makes P a \<Longrightarrow> makes P b \<Longrightarrow> makes P (if c then a else b)"
  by simp

lemma makes_job [makes_intros]: "makes P m \<Longrightarrow> makes P (job t m)"
  by (auto simp: makes_def job_def split: option.splits)

lemma makes_mono: "makes P m \<Longrightarrow> (\<And>c. P c \<Longrightarrow> Q c) \<Longrightarrow> makes Q m"
  unfolding makes_def by (meson list.pred_mono_strong)

abbreviation reads_only :: "('w, 'a, 'e) virt \<Rightarrow> bool" where
  "reads_only \<equiv> makes (\<lambda>c. \<not> mutating (fst c))"

section \<open>A quiet libvirt\<close>

text \<open>For the witnesses: every call succeeds and changes nothing.\<close>

definition quiet_libvirt :: "unit libvirt" where
  "quiet_libvirt = \<lparr>lv_unit = (\<lambda>_ w. (Ok (), w)), lv_bool = (\<lambda>_ w. (Ok True, w)), lv_handle = (\<lambda>_ w. (Ok 1, w)),
     lv_handles = (\<lambda>_ w. (Ok [], w)), lv_text = (\<lambda>_ w. (Ok [], w)), lv_uuid = (\<lambda>_ w. (Ok (Uuid 1), w)),
     lv_dominfo = (\<lambda>_ w. (Ok \<lparr>di_state = 1, di_memory = 0, di_vcpus = 1\<rparr>, w)),
     lv_poolinfo = (\<lambda>_ w. (Ok \<lparr>pi_state = 2, pi_capacity = 0, pi_allocation = 0, pi_available = 0\<rparr>, w)),
     lv_volinfo = (\<lambda>_ w. (Ok \<lparr>vi_kind = 0, vi_capacity = 0, vi_allocation = 0\<rparr>, w))\<rparr>"

end
