(* ===== verification/Virt_Steady.thy ===== *)
theory Virt_Steady
  imports Virt_World
begin

text \<open>
  Programs over a libvirt whose reads do not change the host: in the world \<open>w\<close> a read gives the same answer
  whenever it is made. The answer of such a program is then a function of the world alone, and composes
  along \<open>vbind\<close> and \<open>vtry\<close>.
\<close>

definition answer :: "'w \<Rightarrow> ('w, 'a, 'e) virt \<Rightarrow> ('a, 'e) result" where
  "answer w m = fst (m \<lparr>world = w, trace = []\<rparr>)"

definition steady :: "'w \<Rightarrow> ('w, 'a, 'e) virt \<Rightarrow> bool" where
  "steady w m \<longleftrightarrow> (\<forall>tr. \<exists>tr'. m \<lparr>world = w, trace = tr\<rparr> = (answer w m, \<lparr>world = w, trace = tr'\<rparr>))"

definition quiet_reads :: "'w libvirt \<Rightarrow> 'w \<Rightarrow> bool" where
  "quiet_reads L w \<longleftrightarrow> (\<forall>c. \<not> mutating c \<longrightarrow>
     snd (lv_bool L c w) = w \<and> snd (lv_handle L c w) = w \<and> snd (lv_handles L c w) = w \<and>
     snd (lv_text L c w) = w \<and> snd (lv_uuid L c w) = w \<and> snd (lv_dominfo L c w) = w \<and>
     snd (lv_poolinfo L c w) = w \<and> snd (lv_volinfo L c w) = w)"

named_theorems steady_intros \<open>programs whose answer does not depend on the trace\<close>

lemma steadyE:
  assumes "steady w m"
  obtains tr' where "m \<lparr>world = w, trace = tr\<rparr> = (answer w m, \<lparr>world = w, trace = tr'\<rparr>)"
  using assms unfolding steady_def by blast

lemma steady_ask [steady_intros]: "snd (f c w) = w \<Longrightarrow> steady w (ask f c)"
  by (auto simp: steady_def answer_def ask_def split: prod.splits)

lemma steady_return [steady_intros]: "steady w (vreturn r)"
  by (simp add: steady_def answer_def vreturn_def)

lemma steadyI: "(\<And>tr. \<exists>tr'. m \<lparr>world = w, trace = tr\<rparr> = (x, \<lparr>world = w, trace = tr'\<rparr>)) \<Longrightarrow> steady w m \<and> answer w m = x"
  unfolding steady_def answer_def by (metis fst_conv)

lemma steady_bind_answer:
  assumes "steady w m" and "\<And>a. steady w (f a)"
  shows "steady w (vbind m f) \<and> answer w (vbind m f) = (case answer w m of Ok a \<Rightarrow> answer w (f a) | Err e \<Rightarrow> Err e)"
proof (rule steadyI)
  fix tr
  obtain tr1 where m: "m \<lparr>world = w, trace = tr\<rparr> = (answer w m, \<lparr>world = w, trace = tr1\<rparr>)"
    using assms(1) by (rule steadyE)
  show "\<exists>tr'. vbind m f \<lparr>world = w, trace = tr\<rparr> =
      (case answer w m of Ok a \<Rightarrow> answer w (f a) | Err e \<Rightarrow> Err e, \<lparr>world = w, trace = tr'\<rparr>)"
    using m assms(2) by (cases "answer w m") (auto simp: vbind_def elim: steadyE)
qed

lemma steady_try_answer:
  assumes "steady w m" and "\<And>a. steady w (f a)"
  shows "steady w (vtry m f) \<and> answer w (vtry m f) = answer w (f (answer w m))"
proof (rule steadyI)
  fix tr
  obtain tr1 where m: "m \<lparr>world = w, trace = tr\<rparr> = (answer w m, \<lparr>world = w, trace = tr1\<rparr>)"
    using assms(1) by (rule steadyE)
  show "\<exists>tr'. vtry m f \<lparr>world = w, trace = tr\<rparr> = (answer w (f (answer w m)), \<lparr>world = w, trace = tr'\<rparr>)"
    using m assms(2) by (auto simp: vtry_def elim: steadyE)
qed

lemma steady_err_answer:
  assumes "steady w m"
  shows "steady w (verr g m) \<and> answer w (verr g m) = map_err g (answer w m)"
proof (rule steadyI)
  fix tr
  obtain tr1 where "m \<lparr>world = w, trace = tr\<rparr> = (answer w m, \<lparr>world = w, trace = tr1\<rparr>)"
    using assms by (rule steadyE)
  then show "\<exists>tr'. verr g m \<lparr>world = w, trace = tr\<rparr> = (map_err g (answer w m), \<lparr>world = w, trace = tr'\<rparr>)"
    by (simp add: verr_def)
qed

lemmas steady_bind [steady_intros] = steady_bind_answer [THEN conjunct1]
lemmas steady_try [steady_intros] = steady_try_answer [THEN conjunct1]
lemmas steady_err [steady_intros] = steady_err_answer [THEN conjunct1]

lemmas answer_bind = steady_bind_answer [THEN conjunct2]
lemmas answer_try = steady_try_answer [THEN conjunct2]
lemmas answer_err = steady_err_answer [THEN conjunct2]

lemma steady_ask_e [steady_intros]: "snd (f c w) = w \<Longrightarrow> steady w (ask_e f c)"
  unfolding ask_e_def by (intro steady_intros)

lemma steady_if [steady_intros]: "steady w a \<Longrightarrow> steady w b \<Longrightarrow> steady w (if c then a else b)"
  by simp

lemma answer_return [simp]: "answer w (vreturn r) = r"
  by (simp add: answer_def vreturn_def)


lemma steadyD:
  assumes "steady w m" and "world s = w" and "m s = (r, s')"
  shows "r = answer w m" and "world s' = w"
proof -
  obtain tr' where "m \<lparr>world = w, trace = trace s\<rparr> = (answer w m, \<lparr>world = w, trace = tr'\<rparr>)"
    using assms(1) by (rule steadyE)
  moreover have "s = \<lparr>world = w, trace = trace s\<rparr>"
    using assms(2) by (cases s) simp
  ultimately show "r = answer w m" and "world s' = w"
    using assms(3) by auto
qed

lemma vbind_OkE:
  assumes "vbind m f s = (Ok b, s')"
  obtains a s1 where "m s = (Ok a, s1)" and "f a s1 = (Ok b, s')"
  using assms by (auto simp: vbind_def split: prod.splits result.splits)

lemma quiet_reads_steady:
  assumes "quiet_reads L w" and "\<not> mutating c"
  shows "steady w (ask_e (lv_handle L) c)" and "steady w (ask_e (lv_bool L) c)"
    and "steady w (ask_e (lv_handles L) c)" and "steady w (ask_e (lv_text L) c)"
  using assms by (auto simp: quiet_reads_def intro: steady_intros)

text \<open>The reads of a quiet host, as rewrite rules for the steadiness of a program.\<close>

named_theorems steady_simps \<open>steadiness and answers by rewriting\<close>

lemma quiet_reads_world [steady_simps]:
  assumes "quiet_reads L w" and "\<not> mutating c"
  shows "snd (lv_bool L c w) = w" and "snd (lv_handle L c w) = w" and "snd (lv_handles L c w) = w"
    and "snd (lv_text L c w) = w" and "snd (lv_uuid L c w) = w" and "snd (lv_dominfo L c w) = w"
    and "snd (lv_poolinfo L c w) = w" and "snd (lv_volinfo L c w) = w"
  using assms by (auto simp: quiet_reads_def)

lemma answer_ask [simp]: "answer w (ask f c) = fst (f c w)"
  by (simp add: answer_def ask_def split: prod.splits)

lemma answer_ask_e [simp]: "answer w (ask_e f c) = map_err Libvirt (fst (f c w))"
  by (simp add: answer_def ask_e_def verr_def ask_def split: prod.splits)

lemma answer_bind_Ok [steady_simps]:
  assumes "steady w m" and "\<And>a. steady w (f a)"
  shows "answer w (vbind m f) = Ok b \<longleftrightarrow> (\<exists>a. answer w m = Ok a \<and> answer w (f a) = Ok b)"
  by (simp add: answer_bind [OF assms] split: result.splits)

lemmas [steady_simps] = steady_bind steady_try steady_err steady_return steady_ask steady_ask_e steady_if answer_try answer_err

text \<open>A successful read, on such a host, is the answer in its world, and the world stays.\<close>

lemma ask_OkE:
  assumes "ask f c s = (Ok a, s')" and "snd (f c (world s)) = world s"
  obtains "fst (f c (world s)) = Ok a" and "world s' = world s"
  using assms by (auto simp: ask_def split: prod.splits)

end
