(* ===== verification/Inventory.thy ===== *)
theory Inventory
  imports Virt_Steady
begin

text \<open>
  \<^verbatim>\<open>lodger-virt/src/cache.rs\<close> and the structs of \<^verbatim>\<open>lodger-core/src/model\<close>: the in-memory inventory, its full
  load and its refresh after an event.

  The properties relate the two: on a host that does not change meanwhile, a refresh gives for its object
  exactly what a full load has for it.
\<close>

section \<open>Model\<close>

record Vm =
  vm_uuid :: uuid
  vm_name :: ustr
  vm_state :: VmState
  vm_vcpus :: nat
  vm_memory_kib :: nat
  vm_persistent :: bool
  vm_autostart :: bool
  vm_has_vnc :: bool

record Pool =
  pl_uuid :: uuid
  pl_name :: ustr
  pl_state :: PoolState
  pl_capacity_bytes :: nat
  pl_allocation_bytes :: nat
  pl_available_bytes :: nat
  pl_persistent :: bool
  pl_autostart :: bool

record Network =
  nw_uuid :: uuid
  nw_name :: ustr
  nw_active :: bool
  nw_persistent :: bool
  nw_autostart :: bool
  nw_bridge :: "ustr option"

record Inventory =
  vms :: "(uuid, Vm) hmap"
  pools :: "(uuid, Pool) hmap"
  networks :: "(uuid, Network) hmap"

definition inventory_default :: Inventory where
  "inventory_default = \<lparr>vms = [], pools = [], networks = []\<rparr>"

datatype Refresh = RefreshVm uuid "Vm option" | RefreshPool uuid "Pool option" | RefreshNetwork uuid "Network option"

definition vm_of :: "'w libvirt \<Rightarrow> xmltree \<Rightarrow> domain \<Rightarrow> ('w, Vm, virt_error) virt" where
  "vm_of L X d =
     vbind (ask (lv_dominfo L) (DomainInfo d)) (\<lambda>info.
     vbind (ask (lv_text L) (DomainXml d Live)) (\<lambda>xml.
     vbind (ask (lv_uuid L) (DomainUuid d)) (\<lambda>u.
     vbind (ask (lv_text L) (DomainName d)) (\<lambda>n.
     vbind (ask (lv_bool L) (DomainIsPersistent d)) (\<lambda>persistent.
     vbind (ask (lv_bool L) (DomainAutostart d)) (\<lambda>autostart.
       vreturn (Ok \<lparr>vm_uuid = u, vm_name = n, vm_state = VmState_from_code (di_state info), vm_vcpus = di_vcpus info,
         vm_memory_kib = di_memory info, vm_persistent = persistent, vm_autostart = autostart,
         vm_has_vnc = (case domain_has_vnc X xml of Ok b \<Rightarrow> b | Err _ \<Rightarrow> False)\<rparr>)))))))"

definition pool_of :: "'w libvirt \<Rightarrow> pool \<Rightarrow> ('w, Pool, virt_error) virt" where
  "pool_of L p =
     vbind (ask (lv_poolinfo L) (PoolInfo p)) (\<lambda>info.
     vbind (ask (lv_uuid L) (PoolUuid p)) (\<lambda>u.
     vbind (ask (lv_text L) (PoolName p)) (\<lambda>n.
     vbind (ask (lv_bool L) (PoolIsPersistent p)) (\<lambda>persistent.
     vbind (ask (lv_bool L) (PoolAutostart p)) (\<lambda>autostart.
       vreturn (Ok \<lparr>pl_uuid = u, pl_name = n, pl_state = PoolState_from_code (pi_state info),
         pl_capacity_bytes = pi_capacity info, pl_allocation_bytes = pi_allocation info,
         pl_available_bytes = pi_available info, pl_persistent = persistent, pl_autostart = autostart\<rparr>))))))"

definition network_of :: "'w libvirt \<Rightarrow> network \<Rightarrow> ('w, Network, virt_error) virt" where
  "network_of L n =
     vbind (ask (lv_uuid L) (NetworkUuid n)) (\<lambda>u.
     vbind (ask (lv_text L) (NetworkName n)) (\<lambda>name.
     vbind (ask (lv_bool L) (NetworkIsActive n)) (\<lambda>active.
     vbind (ask (lv_bool L) (NetworkIsPersistent n)) (\<lambda>persistent.
     vbind (ask (lv_bool L) (NetworkAutostart n)) (\<lambda>autostart.
     vtry (ask (lv_text L) (NetworkBridge n)) (\<lambda>bridge.
       vreturn (Ok \<lparr>nw_uuid = u, nw_name = name, nw_active = active, nw_persistent = persistent,
         nw_autostart = autostart, nw_bridge = ok bridge\<rparr>)))))))"

definition gone :: "virt_error \<Rightarrow> bool" where
  "gone e \<longleftrightarrow> known e \<in> {Some NoDomain, Some NoStoragePool, Some NoNetwork}"

definition gone_is_none :: "('w, 'a, virt_error) virt \<Rightarrow> ('w, 'a option, virt_error) virt" where
  "gone_is_none m =
     vtry m (\<lambda>r. vreturn (case r of Ok a \<Rightarrow> Ok (Some a) | Err e \<Rightarrow> if gone e then Ok None else Err e))"

text \<open>One of the three loops of \<^verbatim>\<open>Inventory::load\<close>.\<close>

fun load_each :: "('h \<Rightarrow> ('w, 'v, virt_error) virt) \<Rightarrow> ('v \<Rightarrow> uuid) \<Rightarrow> 'h list \<Rightarrow> (uuid, 'v) hmap
    \<Rightarrow> ('w, (uuid, 'v) hmap, virt_error) virt" where
  "load_each of_handle key [] m = vreturn (Ok m)"
| "load_each of_handle key (h # hs) m =
     vbind (gone_is_none (of_handle h)) (\<lambda>v.
       load_each of_handle key hs (case v of Some x \<Rightarrow> hm_insert (key x) x m | None \<Rightarrow> m))"

definition load :: "'w libvirt \<Rightarrow> xmltree \<Rightarrow> ('w, Inventory, virt_error) virt" where
  "load L X =
     vbind (ask (lv_handles L) ListDomains) (\<lambda>ds.
     vbind (load_each (vm_of L X) vm_uuid ds []) (\<lambda>vms.
     vbind (ask (lv_handles L) ListPools) (\<lambda>ps.
     vbind (load_each (pool_of L) pl_uuid ps []) (\<lambda>pools.
     vbind (ask (lv_handles L) ListNetworks) (\<lambda>ns.
     vbind (load_each (network_of L) nw_uuid ns []) (\<lambda>networks.
       vreturn (Ok \<lparr>vms = vms, pools = pools, networks = networks\<rparr>)))))))"

fun inventory_apply :: "Refresh \<Rightarrow> Inventory \<Rightarrow> Inventory" where
  "inventory_apply (RefreshVm i (Some vm)) iv = iv\<lparr>vms := hm_insert i vm (vms iv)\<rparr>"
| "inventory_apply (RefreshVm i None) iv = iv\<lparr>vms := hm_remove i (vms iv)\<rparr>"
| "inventory_apply (RefreshPool i (Some p)) iv = iv\<lparr>pools := hm_insert i p (pools iv)\<rparr>"
| "inventory_apply (RefreshPool i None) iv = iv\<lparr>pools := hm_remove i (pools iv)\<rparr>"
| "inventory_apply (RefreshNetwork i (Some n)) iv = iv\<lparr>networks := hm_insert i n (networks iv)\<rparr>"
| "inventory_apply (RefreshNetwork i None) iv = iv\<lparr>networks := hm_remove i (networks iv)\<rparr>"

definition refresh_vm :: "'w libvirt \<Rightarrow> xmltree \<Rightarrow> uuid \<Rightarrow> ('w, Vm option, virt_error) virt" where
  "refresh_vm L X i = gone_is_none (vbind (ask (lv_handle L) (LookupDomain i)) (vm_of L X))"

definition refresh_pool :: "'w libvirt \<Rightarrow> uuid \<Rightarrow> ('w, Pool option, virt_error) virt" where
  "refresh_pool L i = gone_is_none (vbind (ask (lv_handle L) (LookupPool i)) (pool_of L))"

definition refresh_network :: "'w libvirt \<Rightarrow> uuid \<Rightarrow> ('w, Network option, virt_error) virt" where
  "refresh_network L i = gone_is_none (vbind (ask (lv_handle L) (LookupNetwork i)) (network_of L))"

fun refresh :: "'w libvirt \<Rightarrow> xmltree \<Rightarrow> Event \<Rightarrow> ('w, Refresh option, virt_error) virt" where
  "refresh L X (EvDomain i _) = vbind (refresh_vm L X i) (\<lambda>v. vreturn (Ok (Some (RefreshVm i v))))"
| "refresh L X (EvPool i _) = vbind (refresh_pool L i) (\<lambda>v. vreturn (Ok (Some (RefreshPool i v))))"
| "refresh L X (EvNetwork i _) = vbind (refresh_network L i) (\<lambda>v. vreturn (Ok (Some (RefreshNetwork i v))))"
| "refresh L X (EvClosed _) = vreturn (Ok None)"

section \<open>Reading changes nothing\<close>

lemma reads_gone_is_none: "reads_only m \<Longrightarrow> reads_only (gone_is_none m)"
  unfolding gone_is_none_def by (intro makes_intros)

lemma reads_vm_of: "reads_only (vm_of L X d)"
  unfolding vm_of_def by (intro makes_intros) auto

lemma reads_pool_of: "reads_only (pool_of L p)"
  unfolding pool_of_def by (intro makes_intros) auto

lemma reads_network_of: "reads_only (network_of L n)"
  unfolding network_of_def by (intro makes_intros) auto

lemmas reads_of = reads_gone_is_none reads_vm_of reads_pool_of reads_network_of

lemma reads_load_each: "(\<And>h. reads_only (f h)) \<Longrightarrow> reads_only (load_each f key hs m)"
  by (induction hs arbitrary: m) (auto intro!: makes_intros reads_of)

lemma reads_load: "reads_only (load L X)"
  unfolding load_def by (intro makes_intros reads_load_each reads_of) auto

lemma reads_refresh: "reads_only (refresh L X ev)"
  by (cases ev) (auto simp: refresh_vm_def refresh_pool_def refresh_network_def intro!: makes_intros reads_of)

section \<open>A load and a refresh agree\<close>

lemma steady_gone_is_none: "steady w m \<Longrightarrow> steady w (gone_is_none m)"
  unfolding gone_is_none_def by (intro steady_intros)

lemma answer_gone_is_none:
  "steady w m \<Longrightarrow> answer w (gone_is_none m) =
    (case answer w m of Ok a \<Rightarrow> Ok (Some a) | Err e \<Rightarrow> if gone e then Ok None else Err e)"
  unfolding gone_is_none_def by (simp add: answer_try steady_return)

lemma steady_vm_of: "quiet_reads L w \<Longrightarrow> steady w (vm_of L X d)"
  unfolding vm_of_def by (intro steady_intros) (auto simp: quiet_reads_def)

lemma steady_pool_of: "quiet_reads L w \<Longrightarrow> steady w (pool_of L p)"
  unfolding pool_of_def by (intro steady_intros) (auto simp: quiet_reads_def)

lemma steady_network_of: "quiet_reads L w \<Longrightarrow> steady w (network_of L n)"
  unfolding network_of_def by (intro steady_intros) (auto simp: quiet_reads_def)

lemma steady_load_each: "(\<And>h. steady w (f h)) \<Longrightarrow> steady w (load_each f key hs m)"
  by (induction hs arbitrary: m) (auto intro!: steady_intros steady_gone_is_none)

text \<open>
  What libvirt documents of a list and a lookup, in a world \<open>w\<close>: a lookup finds exactly the listed objects,
  each under its own UUID, and otherwise reports that there is no such object.
\<close>

definition listing :: "('w, uuid) answer \<Rightarrow> ('w, nat) answer \<Rightarrow> (nat \<Rightarrow> call) \<Rightarrow> (uuid \<Rightarrow> call) \<Rightarrow> 'w \<Rightarrow> nat list \<Rightarrow> bool" where
  "listing uuid_of handle_of uuid_call lookup_call w hs \<longleftrightarrow>
     (\<forall>h\<in>set hs. \<exists>u. fst (uuid_of (uuid_call h) w) = Ok u \<and> fst (handle_of (lookup_call u) w) = Ok h) \<and>
     (\<forall>u. case fst (handle_of (lookup_call u) w) of
        Ok h \<Rightarrow> h \<in> set hs \<and> fst (uuid_of (uuid_call h) w) = Ok u
      | Err e \<Rightarrow> gone e)"

text \<open>What a full load has for the object \<open>u\<close> is what a lookup of \<open>u\<close> gives.\<close>

lemma load_each_get:
  assumes st: "\<And>h. steady w (f h)"
    and law: "\<And>h. h \<in> set hs \<Longrightarrow> \<exists>u. fst (U (uc h) w) = Ok u \<and> fst (H (lc u) w) = Ok h"
    and key: "\<And>h v. answer w (f h) = Ok v \<Longrightarrow> fst (U (uc h) w) = Ok (key v)"
    and ok: "answer w (load_each f key hs m) = Ok m'"
  shows "hm_get m' u =
    (case fst (H (lc u) w) of
       Ok h \<Rightarrow> (if h \<in> set hs then (case answer w (f h) of Ok v \<Rightarrow> if key v = u then Some v else hm_get m u | Err _ \<Rightarrow> hm_get m u)
               else hm_get m u)
     | Err _ \<Rightarrow> hm_get m u)"
  using law ok
proof (induction hs arbitrary: m)
  case (Cons h hs)
  let ?k = "\<lambda>v. load_each f key hs (case v of Some x \<Rightarrow> hm_insert (key x) x m | None \<Rightarrow> m)"
  obtain v where v: "answer w (gone_is_none (f h)) = Ok v" and rest: "answer w (?k v) = Ok m'"
    using Cons.prems(2)
    unfolding load_each.simps answer_bind_Ok [OF steady_gone_is_none [OF st] steady_load_each [OF st]] by blast
  note ih = Cons.IH [OF _ rest]
  show ?case
  proof (cases v)
    case None
    then have "\<exists>e. answer w (f h) = Err e"
      using v by (auto simp: answer_gone_is_none [OF st] split: result.splits if_splits)
    with ih None Cons.prems(1) show ?thesis
      by (auto split: result.splits)
  next
    case (Some x)
    then have x: "answer w (f h) = Ok x"
      using v by (auto simp: answer_gone_is_none [OF st] split: result.splits if_splits)
    have "fst (H (lc (key x)) w) = Ok h"
      using Cons.prems(1) [of h] key [OF x] by auto
    with ih Some x Cons.prems(1) show ?thesis
      by (auto simp: hm.get_insert split: result.splits)
  qed
qed (auto split: result.splits)

lemma load_each_Ok:
  assumes st: "\<And>h. steady w (f h)" and ok: "answer w (load_each f key hs m) = Ok m'" and "h \<in> set hs"
  shows "case answer w (f h) of Ok _ \<Rightarrow> True | Err e \<Rightarrow> gone e"
  using ok \<open>h \<in> set hs\<close>
proof (induction hs arbitrary: m)
  case (Cons g hs)
  obtain v m1 where v: "answer w (gone_is_none (f g)) = Ok v" and rest: "answer w (load_each f key hs m1) = Ok m'"
    using Cons.prems(1)
    unfolding load_each.simps answer_bind_Ok [OF steady_gone_is_none [OF st] steady_load_each [OF st]] by blast
  then show ?case
    using Cons by (auto simp: answer_gone_is_none [OF st] split: result.splits if_splits)
qed simp

lemma load_each_refresh:
  assumes st: "\<And>h. steady w (f h)"
    and quiet: "snd (H (lc u) w) = w"
    and law: "listing U H uc lc w hs"
    and key: "\<And>h v. answer w (f h) = Ok v \<Longrightarrow> fst (U (uc h) w) = Ok (key v)"
    and ok: "answer w (load_each f key hs []) = Ok m"
  shows "answer w (gone_is_none (vbind (ask H (lc u)) f)) = Ok (hm_get m u)"
proof -
  have get: "hm_get m u = (case fst (H (lc u) w) of
       Ok h \<Rightarrow> (if h \<in> set hs then (case answer w (f h) of Ok v \<Rightarrow> if key v = u then Some v else None | Err _ \<Rightarrow> None) else None)
     | Err _ \<Rightarrow> None)"
    using load_each_get [where U = U and uc = uc and H = H and lc = lc, OF st _ key ok, unfolded hm.get_empty] law
    by (auto simp: listing_def)
  have "steady w (vbind (ask H (lc u)) f)"
    by (intro steady_intros st quiet)
  note gone = answer_gone_is_none [OF this] answer_bind [OF steady_ask [of H, OF quiet] st]
  show ?thesis
  proof (cases "fst (H (lc u) w)")
    case (Err e)
    with law have "gone e" by (auto simp: listing_def split: result.splits dest: spec [of _ u])
    with Err get show ?thesis by (simp add: gone)
  next
    case (Ok h)
    with law have h: "h \<in> set hs" "fst (U (uc h) w) = Ok u"
      by (auto simp: listing_def split: result.splits dest: spec [of _ u])
    show ?thesis
      using get Ok h load_each_Ok [OF st ok h(1)] key [of h]
      by (cases "answer w (f h)") (auto simp: gone)
  qed
qed

definition consistent :: "'w libvirt \<Rightarrow> 'w \<Rightarrow> bool" where
  "consistent L w \<longleftrightarrow>
     (\<exists>ds. fst (lv_handles L ListDomains w) = Ok ds \<and> listing (lv_uuid L) (lv_handle L) DomainUuid LookupDomain w ds) \<and>
     (\<exists>ps. fst (lv_handles L ListPools w) = Ok ps \<and> listing (lv_uuid L) (lv_handle L) PoolUuid LookupPool w ps) \<and>
     (\<exists>ns. fst (lv_handles L ListNetworks w) = Ok ns \<and> listing (lv_uuid L) (lv_handle L) NetworkUuid LookupNetwork w ns)"

lemma vm_of_uuid:
  "quiet_reads L w \<Longrightarrow> answer w (vm_of L X d) = Ok v \<Longrightarrow> fst (lv_uuid L (DomainUuid d) w) = Ok (vm_uuid v)"
  unfolding vm_of_def by (auto simp: steady_simps)

lemma pool_of_uuid:
  "quiet_reads L w \<Longrightarrow> answer w (pool_of L p) = Ok v \<Longrightarrow> fst (lv_uuid L (PoolUuid p) w) = Ok (pl_uuid v)"
  unfolding pool_of_def by (auto simp: steady_simps)

lemma network_of_uuid:
  "quiet_reads L w \<Longrightarrow> answer w (network_of L n) = Ok v \<Longrightarrow> fst (lv_uuid L (NetworkUuid n) w) = Ok (nw_uuid v)"
  unfolding network_of_def by (auto simp: steady_simps)

lemma load_Ok:
  assumes q: "quiet_reads L w" and "answer w (load L X) = Ok iv"
  shows "\<exists>ds ps ns. fst (lv_handles L ListDomains w) = Ok ds \<and> answer w (load_each (vm_of L X) vm_uuid ds []) = Ok (vms iv) \<and>
    fst (lv_handles L ListPools w) = Ok ps \<and> answer w (load_each (pool_of L) pl_uuid ps []) = Ok (pools iv) \<and>
    fst (lv_handles L ListNetworks w) = Ok ns \<and> answer w (load_each (network_of L) nw_uuid ns []) = Ok (networks iv)"
  using assms unfolding load_def
  by (auto simp: steady_simps steady_load_each steady_vm_of steady_pool_of steady_network_of)

lemma refresh_load:
  assumes q: "quiet_reads L w" and "consistent L w" and "answer w (load L X) = Ok iv"
  shows "answer w (refresh_vm L X i) = Ok (hm_get (vms iv) i) \<and>
    answer w (refresh_pool L i) = Ok (hm_get (pools iv) i) \<and>
    answer w (refresh_network L i) = Ok (hm_get (networks iv) i)"
proof -
  obtain ds ps ns where l: "fst (lv_handles L ListDomains w) = Ok ds" "answer w (load_each (vm_of L X) vm_uuid ds []) = Ok (vms iv)"
      "fst (lv_handles L ListPools w) = Ok ps" "answer w (load_each (pool_of L) pl_uuid ps []) = Ok (pools iv)"
      "fst (lv_handles L ListNetworks w) = Ok ns" "answer w (load_each (network_of L) nw_uuid ns []) = Ok (networks iv)"
    using load_Ok [OF q assms(3)] by blast
  with assms(2) have law: "listing (lv_uuid L) (lv_handle L) DomainUuid LookupDomain w ds"
      "listing (lv_uuid L) (lv_handle L) PoolUuid LookupPool w ps"
      "listing (lv_uuid L) (lv_handle L) NetworkUuid LookupNetwork w ns"
    by (auto simp: consistent_def)
  have "answer w (refresh_vm L X i) = Ok (hm_get (vms iv) i)"
    unfolding refresh_vm_def
    by (rule load_each_refresh [OF steady_vm_of [OF q] _ law(1) vm_of_uuid [OF q] l(2)]) (use q in \<open>simp_all add: steady_simps\<close>)
  moreover have "answer w (refresh_pool L i) = Ok (hm_get (pools iv) i)"
    unfolding refresh_pool_def
    by (rule load_each_refresh [OF steady_pool_of [OF q] _ law(2) pool_of_uuid [OF q] l(4)]) (use q in \<open>simp_all add: steady_simps\<close>)
  moreover have "answer w (refresh_network L i) = Ok (hm_get (networks iv) i)"
    unfolding refresh_network_def
    by (rule load_each_refresh [OF steady_network_of [OF q] _ law(3) network_of_uuid [OF q] l(6)]) (use q in \<open>simp_all add: steady_simps\<close>)
  ultimately show ?thesis by blast
qed

section \<open>Properties\<close>

text \<open>
  The inventory's full load and its refresh after an event agree. On a host that does not change
  meanwhile, and where a lookup finds exactly the listed objects, a refresh of any VM, pool or network gives
  exactly what a full load has under that UUID: the object's facts, or that it is gone.
\<close>

theorem refresh_agrees_with_load:
  assumes "quiet_reads L w" and "consistent L w" and "answer w (load L X) = Ok iv"
  shows "answer w (refresh_vm L X i) = Ok (hm_get (vms iv) i) \<and>
    answer w (refresh_pool L i) = Ok (hm_get (pools iv) i) \<and>
    answer w (refresh_network L i) = Ok (hm_get (networks iv) i)"
  by (rule refresh_load [OF assms])

subsection \<open>Witness\<close>

text \<open>A host with one domain, whose world is the domain's state code.\<close>

definition no_object :: "ErrorNumber \<Rightarrow> virt_error" where
  "no_object n = \<lparr>known = Some n, message = []\<rparr>"

definition one_domain_host :: "nat libvirt" where
  "one_domain_host = \<lparr>
     lv_unit = (\<lambda>_ w. (Ok (), w)),
     lv_bool = (\<lambda>_ w. (Ok False, w)),
     lv_handle = (\<lambda>c w. (case c of
         LookupDomain u \<Rightarrow> if u = Uuid 1 then Ok 1 else Err (no_object NoDomain)
       | LookupPool _ \<Rightarrow> Err (no_object NoStoragePool) | _ \<Rightarrow> Err (no_object NoNetwork), w)),
     lv_handles = (\<lambda>c w. (Ok (if c = ListDomains then [1] else []), w)),
     lv_text = (\<lambda>_ w. (Ok (lit ''web''), w)),
     lv_uuid = (\<lambda>_ w. (Ok (Uuid 1), w)),
     lv_dominfo = (\<lambda>_ w. (Ok \<lparr>di_state = w, di_memory = 1024, di_vcpus = 1\<rparr>, w)),
     lv_poolinfo = (\<lambda>_ w. (Ok \<lparr>pi_state = 2, pi_capacity = 0, pi_allocation = 0, pi_available = 0\<rparr>, w)),
     lv_volinfo = (\<lambda>_ w. (Ok \<lparr>vi_kind = 0, vi_capacity = 0, vi_allocation = 0\<rparr>, w))\<rparr>"

lemma one_domain_host_quiet: "quiet_reads one_domain_host w"
  by (simp add: quiet_reads_def one_domain_host_def)

lemma one_domain_host_consistent: "consistent one_domain_host w"
  by (auto simp: consistent_def listing_def one_domain_host_def gone_def no_object_def)

lemma one_domain_host_load:
  "answer 5 (load one_domain_host xml_codec) =
    Ok \<lparr>vms = [(Uuid 1, \<lparr>vm_uuid = Uuid 1, vm_name = lit ''web'', vm_state = Shutoff, vm_vcpus = 1, vm_memory_kib = 1024,
      vm_persistent = False, vm_autostart = False, vm_has_vnc = False\<rparr>)], pools = [], networks = []\<rparr>"
  by code_simp

theorem refresh_agrees_with_load_witness:
  "answer 5 (refresh_vm one_domain_host xml_codec (Uuid 2)) = Ok None"
  using refresh_agrees_with_load [OF one_domain_host_quiet one_domain_host_consistent one_domain_host_load, of "Uuid 2"]
  by (simp add: hm_get_def)

end
