(* ===== verification/Supervisor.thy ===== *)
theory Supervisor
  imports Inventory
begin

text \<open>
  \<^verbatim>\<open>lodger-virt/src/supervisor.rs\<close>: the task that keeps the connection to libvirt and the inventory current.

  The task is a loop over the messages of the event hub; one message is \<open>session_message\<close>. Opening the
  connections is libvirt's part: its result is an argument. Each read of libvirt carries whether its blocking
  task failed.

  The property is that the inventory follows the host: a step relation interleaves changes of the host, each
  with its event, events that the hub drops for a slow receiver, and the handling of messages.
\<close>

section \<open>Model\<close>

datatype ConnState = Connecting | Connected | Disconnected ustr

text \<open>The \<^verbatim>\<open>Shared\<close> data; \<open>sh_virt\<close> says whether the connections are published.\<close>

record Shared =
  sh_inventory :: Inventory
  sh_virt :: bool
  sh_state :: ConnState
  sh_events :: "Event list"
  sh_reloads :: "64 word"

definition shared_new :: Shared where
  "shared_new = \<lparr>sh_inventory = inventory_default, sh_virt = False, sh_state = Connecting, sh_events = [], sh_reloads = 0\<rparr>"

datatype received = Got Event | Lagged | HubClosed

datatype outcome = Going | Ended ustr | FailedWith Error

definition close_reason :: "int \<Rightarrow> ustr" where
  "close_reason code = lit ''libvirt closed the connection because of '' @
     lit (if code = 0 then ''an error'' else if code = 1 then ''the end of the stream''
       else if code = 2 then ''a keepalive timeout'' else if code = 3 then ''a request from the client''
       else ''an unknown reason'')"

definition reload :: "'w libvirt \<Rightarrow> xmltree \<Rightarrow> ustr option \<Rightarrow> Shared \<Rightarrow> 'w conn \<Rightarrow> outcome \<times> Shared \<times> 'w conn" where
  "reload L X task_failed sh s =
     (case job task_failed (verr Libvirt (load L X)) s of
        (Ok iv, s) \<Rightarrow> (Going, sh\<lparr>sh_inventory := iv, sh_reloads := sh_reloads sh + 1\<rparr>, s)
      | (Err e, s) \<Rightarrow> (FailedWith e, sh, s))"

fun session_message ::
    "'w libvirt \<Rightarrow> xmltree \<Rightarrow> ustr option \<Rightarrow> received \<Rightarrow> Shared \<Rightarrow> 'w conn \<Rightarrow> outcome \<times> Shared \<times> 'w conn" where
  "session_message L X task_failed (Got (EvClosed reason)) sh s = (Ended (close_reason reason), sh, s)"
| "session_message L X task_failed (Got ev) sh s =
     (case job task_failed (verr Libvirt (refresh L X ev)) s of
        (Err e, s) \<Rightarrow> (FailedWith e, sh, s)
      | (Ok r, s) \<Rightarrow>
          (let sh = (case r of Some x \<Rightarrow> sh\<lparr>sh_inventory := inventory_apply x (sh_inventory sh)\<rparr> | None \<Rightarrow> sh)
           in (Going, sh\<lparr>sh_events := sh_events sh @ [ev]\<rparr>, s)))"
| "session_message L X task_failed Lagged sh s = reload L X task_failed sh s"
| "session_message L X task_failed HubClosed sh s = (Ended (lit ''the event hub closed''), sh, s)"

fun session_loop ::
    "'w libvirt \<Rightarrow> xmltree \<Rightarrow> (ustr option \<times> received) list \<Rightarrow> Shared \<Rightarrow> 'w conn \<Rightarrow> outcome \<times> Shared \<times> 'w conn" where
  "session_loop L X [] sh s = (Going, sh, s)"
| "session_loop L X ((task_failed, m) # ms) sh s =
     (case session_message L X task_failed m sh s of
        (Going, sh, s) \<Rightarrow> session_loop L X ms sh s
      | done \<Rightarrow> done)"

text \<open>
  One connection: \<open>opened\<close> is the result of \<^verbatim>\<open>Virt::open\<close>, and the messages are those that arrive until
  it ends. The outcome \<open>Going\<close> means that it still waits for a message.
\<close>

definition supervisor_session ::
    "'w libvirt \<Rightarrow> xmltree \<Rightarrow> (unit, Error) result \<Rightarrow> ustr option \<Rightarrow> (ustr option \<times> received) list \<Rightarrow> Shared \<Rightarrow> 'w conn
      \<Rightarrow> outcome \<times> Shared \<times> 'w conn" where
  "supervisor_session L X opened task_failed ms sh s =
     (case opened of
        Err e \<Rightarrow> (FailedWith e, sh, s)
      | Ok _ \<Rightarrow>
          (case reload L X task_failed sh s of
             (Going, sh, s) \<Rightarrow> session_loop L X ms (sh\<lparr>sh_virt := True, sh_state := Connected\<rparr>) s
           | done \<Rightarrow> done))"

text \<open>What \<^verbatim>\<open>supervise\<close> does when a session ends, and after the wait.\<close>

definition disconnect :: "(Error \<Rightarrow> ustr) \<Rightarrow> outcome \<Rightarrow> Shared \<Rightarrow> Shared" where
  "disconnect show_error done sh =
     (case done of
        Going \<Rightarrow> sh
      | Ended why \<Rightarrow> sh\<lparr>sh_virt := False, sh_state := Disconnected why\<rparr>
      | FailedWith e \<Rightarrow> sh\<lparr>sh_virt := False, sh_state := Disconnected (show_error e)\<rparr>)"

record attempt =
  at_opened :: "(unit, Error) result"
  at_load_failed :: "ustr option"
  at_messages :: "(ustr option \<times> received) list"

text \<open>The loop of \<^verbatim>\<open>supervise\<close>, over the attempts; it stops at a session that still runs.\<close>

fun supervise :: "'w libvirt \<Rightarrow> xmltree \<Rightarrow> (Error \<Rightarrow> ustr) \<Rightarrow> attempt list \<Rightarrow> Shared \<Rightarrow> 'w conn \<Rightarrow> Shared \<times> 'w conn" where
  "supervise L X show_error [] sh s = (sh, s)"
| "supervise L X show_error (r # rs) sh s =
     (case supervisor_session L X (at_opened r) (at_load_failed r) (at_messages r) sh s of
        (Going, sh, s) \<Rightarrow> (sh, s)
      | (done, sh, s) \<Rightarrow>
          supervise L X show_error rs ((disconnect show_error done sh)\<lparr>sh_state := Connecting\<rparr>) s)"

definition host_start :: "ustr \<Rightarrow> (Shared, Error) result" where
  "host_start uri = (case check_text ''libvirt URI'' uri of Ok _ \<Rightarrow> Ok shared_new | Err e \<Rightarrow> Err (Input e))"

section \<open>Objects, entries and facts\<close>

datatype object = ObjVm uuid | ObjPool uuid | ObjNetwork uuid

fun event_object :: "Event \<Rightarrow> object option" where
  "event_object (EvDomain i _) = Some (ObjVm i)"
| "event_object (EvPool i _) = Some (ObjPool i)"
| "event_object (EvNetwork i _) = Some (ObjNetwork i)"
| "event_object (EvClosed _) = None"

text \<open>What the inventory has for an object, and what a read of the host says of it.\<close>

fun cached :: "Inventory \<Rightarrow> object \<Rightarrow> Refresh" where
  "cached iv (ObjVm i) = RefreshVm i (hm_get (vms iv) i)"
| "cached iv (ObjPool i) = RefreshPool i (hm_get (pools iv) i)"
| "cached iv (ObjNetwork i) = RefreshNetwork i (hm_get (networks iv) i)"

fun host_fact :: "'w libvirt \<Rightarrow> xmltree \<Rightarrow> 'w \<Rightarrow> object \<Rightarrow> (Refresh, virt_error) result" where
  "host_fact L X w (ObjVm i) = map_ok (RefreshVm i) (answer w (refresh_vm L X i))"
| "host_fact L X w (ObjPool i) = map_ok (RefreshPool i) (answer w (refresh_pool L i))"
| "host_fact L X w (ObjNetwork i) = map_ok (RefreshNetwork i) (answer w (refresh_network L i))"

lemma cached_apply_vm:
  "cached (inventory_apply (RefreshVm i v) iv) ob = (if ob = ObjVm i then RefreshVm i v else cached iv ob)"
  by (cases ob; cases v; simp add: hm.get_insert hm.get_remove)

lemma cached_apply_pool:
  "cached (inventory_apply (RefreshPool i v) iv) ob = (if ob = ObjPool i then RefreshPool i v else cached iv ob)"
  by (cases ob; cases v; simp add: hm.get_insert hm.get_remove)

lemma cached_apply_network:
  "cached (inventory_apply (RefreshNetwork i v) iv) ob = (if ob = ObjNetwork i then RefreshNetwork i v else cached iv ob)"
  by (cases ob; cases v; simp add: hm.get_insert hm.get_remove)

lemmas cached_apply = cached_apply_vm cached_apply_pool cached_apply_network

lemma map_ok_OkE:
  assumes "map_ok f r = Ok x" obtains a where "r = Ok a" and "x = f a"
  using assms by (cases r) auto

lemma fact_entry:
  assumes "host_fact L X w ob = Ok x"
  shows "cached (inventory_apply x iv) ob' = (if ob' = ob then x else cached iv ob')"
  using assms by (cases ob) (auto elim!: map_ok_OkE simp: cached_apply simp del: cached.simps)

lemma steady_refresh_object:
  assumes "quiet_reads L w"
  shows "steady w (refresh_vm L X i)" and "steady w (refresh_pool L i)" and "steady w (refresh_network L i)"
  unfolding refresh_vm_def refresh_pool_def refresh_network_def
  using assms by (auto intro!: steady_gone_is_none steady_bind steady_ask steady_vm_of steady_pool_of steady_network_of
      simp: quiet_reads_def)

lemma steady_refresh: "quiet_reads L w \<Longrightarrow> steady w (refresh L X ev)"
  by (cases ev) (auto intro!: steady_intros steady_refresh_object)

lemma steady_load: "quiet_reads L w \<Longrightarrow> steady w (load L X)"
  unfolding load_def
  by (auto intro!: steady_intros steady_load_each steady_vm_of steady_pool_of steady_network_of simp: quiet_reads_def)

lemma answer_refresh:
  assumes "quiet_reads L w" and "event_object ev = Some ob" and "answer w (refresh L X ev) = Ok r"
  shows "\<exists>x. r = Some x \<and> host_fact L X w ob = Ok x"
  using assms by (cases ev) (auto simp: answer_bind_Ok steady_refresh_object steady_return)

lemma load_facts:
  assumes "quiet_reads L w" and "consistent L w" and "answer w (load L X) = Ok iv"
  shows "host_fact L X w ob = Ok (cached iv ob)"
  using refresh_load [OF assms] by (cases ob) auto

section \<open>The inventory follows the host\<close>

text \<open>
  A run of one session: the world, the messages that wait in the subscription, and the shared data. It starts
  with the load at the connect. Then the host changes one object and its event joins the messages; or the
  receiver falls behind, so that the first message becomes \<open>Lagged\<close>; or the session handles a message. The
  step \<open>change\<close> with the same world is an event without a change, late or sent twice.
\<close>

inductive session_run :: "'w libvirt \<Rightarrow> xmltree \<Rightarrow> 'w \<times> received list \<times> Shared \<Rightarrow> bool" for L X where
  connect: "reload L X None sh \<lparr>world = w, trace = tr\<rparr> = (Going, sh', s') \<Longrightarrow> session_run L X (w, [], sh')"
| change: "session_run L X (w, q, sh) \<Longrightarrow> event_object ev = Some ob
    \<Longrightarrow> (\<And>ob'. ob' \<noteq> ob \<Longrightarrow> host_fact L X w' ob' = host_fact L X w ob') \<Longrightarrow> session_run L X (w', q @ [Got ev], sh)"
| lag: "session_run L X (w, m # q, sh) \<Longrightarrow> session_run L X (w, Lagged # q, sh)"
| message: "session_run L X (w, m # q, sh)
    \<Longrightarrow> session_message L X None m sh \<lparr>world = w, trace = tr\<rparr> = (Going, sh', s') \<Longrightarrow> session_run L X (w, q, sh')"

definition follows :: "'w libvirt \<Rightarrow> xmltree \<Rightarrow> 'w \<Rightarrow> received list \<Rightarrow> Inventory \<Rightarrow> bool" where
  "follows L X w q iv \<longleftrightarrow>
     Lagged \<in> set q \<or>
     (\<forall>ob. (\<exists>ev. Got ev \<in> set q \<and> event_object ev = Some ob) \<or> host_fact L X w ob = Ok (cached iv ob))"

lemma reload_facts:
  assumes "quiet_reads L w" and "consistent L w"
    and "reload L X None sh \<lparr>world = w, trace = tr\<rparr> = (Going, sh', s')"
  shows "host_fact L X w ob = Ok (cached (sh_inventory sh') ob)"
proof -
  obtain iv where "load L X \<lparr>world = w, trace = tr\<rparr> = (Ok iv, s')" and iv: "sh_inventory sh' = iv"
    using assms(3) by (auto simp: reload_def job_def verr_def map_err_Ok split: prod.splits result.splits)
  then have "answer w (load L X) = Ok iv"
    using steadyD(1) [OF steady_load [OF assms(1)]] by (metis conn.select_convs(1))
  then show ?thesis
    using load_facts [OF assms(1,2)] iv by simp
qed

lemma message_follows:
  assumes q: "quiet_reads L w" and c: "consistent L w" and f: "follows L X w (m # q) (sh_inventory sh)"
    and m: "session_message L X None m sh \<lparr>world = w, trace = tr\<rparr> = (Going, sh', s')"
  shows "follows L X w q (sh_inventory sh')"
proof (cases m)
  case Lagged
  then show ?thesis
    using m reload_facts [OF q c] by (auto simp: follows_def)
next
  case HubClosed
  then show ?thesis using m by simp
next
  case (Got ev)
  show ?thesis
  proof (cases "event_object ev")
    case None
    with Got m show ?thesis by (cases ev) auto
  next
    case (Some ob)
    obtain r where r: "refresh L X ev \<lparr>world = w, trace = tr\<rparr> = (Ok r, s')"
        and iv: "sh_inventory sh' = (case r of Some x \<Rightarrow> inventory_apply x (sh_inventory sh) | None \<Rightarrow> sh_inventory sh)"
      using m Got Some
      by (cases ev) (auto simp: job_def verr_def map_err_Ok Let_def split: prod.splits result.splits option.splits)
    have "answer w (refresh L X ev) = Ok r"
      using steadyD(1) [OF steady_refresh [OF q] _ r] by simp
    then obtain x where x: "r = Some x" "host_fact L X w ob = Ok x"
      using answer_refresh [OF q Some] by blast
    then show ?thesis
      using f Got Some iv fact_entry [OF x(2)] by (auto simp: follows_def) (metis option.inject)
  qed
qed

lemma session_run_follows:
  assumes q: "\<And>w. quiet_reads L w" and c: "\<And>w. consistent L w" and "session_run L X st"
  shows "case st of (w, q, sh) \<Rightarrow> follows L X w q (sh_inventory sh)"
  using assms(3)
proof (induction rule: session_run.induct)
  case (connect sh w tr sh' s')
  then show ?case using reload_facts [OF q c connect] by (simp add: follows_def)
next
  case (change w q sh ev ob w')
  then show ?case
    unfolding follows_def prod.case set_append by (metis UnCI list.set_intros(1))
next
  case (lag w m q sh)
  then show ?case by (simp add: follows_def)
next
  case (message w m q sh tr sh' s')
  then show ?case using message_follows [OF q c] by simp
qed

section \<open>What is published\<close>

text \<open>The connections are published exactly while the state says connected.\<close>

definition published_wf :: "Shared \<Rightarrow> bool" where
  "published_wf sh \<longleftrightarrow> (sh_virt sh \<longleftrightarrow> sh_state sh = Connected)"

text \<open>The calls that a step adds to the trace only read.\<close>

definition only_reads :: "'w conn \<Rightarrow> 'w conn \<Rightarrow> bool" where
  "only_reads s s' \<longleftrightarrow> (\<exists>new. trace s' = trace s @ new \<and> list_all (\<lambda>c. \<not> mutating (fst c)) new)"

lemma only_reads_refl: "only_reads s s"
  by (simp add: only_reads_def)

lemma only_reads_trans: "only_reads s s1 \<Longrightarrow> only_reads s1 s2 \<Longrightarrow> only_reads s s2"
  by (fastforce simp: only_reads_def)

lemma only_readsI: "reads_only m \<Longrightarrow> m s = (r, s') \<Longrightarrow> only_reads s s'"
  unfolding only_reads_def by (rule makesD)

lemma reload_step:
  assumes "reload L X tf sh s = (done, sh', s')"
  shows "only_reads s s' \<and> sh_virt sh' = sh_virt sh \<and> sh_state sh' = sh_state sh"
  using assms only_readsI [OF makes_job [OF makes_err [OF reads_load]]]
  by (auto simp: reload_def split: prod.splits result.splits)

lemma session_message_step:
  assumes "session_message L X tf m sh s = (done, sh', s')"
  shows "only_reads s s' \<and> sh_virt sh' = sh_virt sh \<and> sh_state sh' = sh_state sh"
proof (cases m)
  case (Got ev)
  show ?thesis
  proof (cases "\<exists>r. ev = EvClosed r")
    case True
    with Got assms show ?thesis by (auto simp: only_reads_refl)
  next
    case False
    then have "session_message L X tf m sh s = (case job tf (verr Libvirt (refresh L X ev)) s of
        (Err e, s) \<Rightarrow> (FailedWith e, sh, s)
      | (Ok r, s) \<Rightarrow>
          (let sh = (case r of Some x \<Rightarrow> sh\<lparr>sh_inventory := inventory_apply x (sh_inventory sh)\<rparr> | None \<Rightarrow> sh)
           in (Going, sh\<lparr>sh_events := sh_events sh @ [ev]\<rparr>, s)))"
      using Got by (cases ev) auto
    with assms show ?thesis
      using only_readsI [OF makes_job [OF makes_err [OF reads_refresh]]]
      by (auto simp: Let_def split: prod.splits result.splits option.splits)
  qed
qed (use assms in \<open>auto simp: only_reads_refl dest: reload_step\<close>)

lemma session_loop_step:
  "session_loop L X ms sh s = (done, sh', s') \<Longrightarrow>
    only_reads s s' \<and> sh_virt sh' = sh_virt sh \<and> sh_state sh' = sh_state sh"
proof (induction L X ms sh s rule: session_loop.induct)
  case (2 L X tf m ms sh s)
  obtain d1 sh1 s1 where m: "session_message L X tf m sh s = (d1, sh1, s1)" by (metis prod_cases3)
  with 2 show ?case
    using session_message_step [OF m] by (cases d1) (auto intro: only_reads_trans)
qed (auto simp: only_reads_refl)

lemma session_step:
  assumes "supervisor_session L X opened tf ms sh s = (done, sh', s')" and "published_wf sh"
  shows "only_reads s s' \<and> published_wf sh'"
proof (cases opened)
  case (Err e)
  with assms show ?thesis by (auto simp: supervisor_session_def only_reads_refl)
next
  case (Ok u)
  obtain d1 sh1 s1 where r: "reload L X tf sh s = (d1, sh1, s1)" by (metis prod_cases3)
  note r' = reload_step [OF r]
  show ?thesis
  proof (cases "d1 = Going")
    case True
    then have "session_loop L X ms (sh1\<lparr>sh_virt := True, sh_state := Connected\<rparr>) s1 = (done, sh', s')"
      using assms(1) Ok r by (simp add: supervisor_session_def)
    from session_loop_step [OF this] r' show ?thesis
      by (auto simp: published_wf_def intro: only_reads_trans)
  next
    case False
    then have "(done, sh', s') = (d1, sh1, s1)"
      using assms(1) Ok r by (cases d1) (auto simp: supervisor_session_def)
    with r' assms(2) show ?thesis by (simp add: published_wf_def)
  qed
qed

lemma supervise_step:
  "supervise L X show_error rs sh s = (sh', s') \<Longrightarrow> published_wf sh \<Longrightarrow> only_reads s s' \<and> published_wf sh'"
proof (induction rs arbitrary: sh s)
  case (Cons r rs)
  obtain d1 sh1 s1 where r: "supervisor_session L X (at_opened r) (at_load_failed r) (at_messages r) sh s = (d1, sh1, s1)"
    by (metis prod_cases3)
  note r' = session_step [OF r Cons.prems(2)]
  show ?case
  proof (cases "d1 = Going")
    case True
    with Cons.prems(1) r r' show ?thesis by auto
  next
    case False
    let ?sh = "(disconnect show_error d1 sh1)\<lparr>sh_state := Connecting\<rparr>"
    have "published_wf ?sh"
      using False by (cases d1) (auto simp: disconnect_def published_wf_def)
    moreover have "supervise L X show_error rs ?sh s1 = (sh', s')"
      using Cons.prems(1) r False by (cases d1) auto
    ultimately show ?thesis
      using Cons.IH r' by (blast intro: only_reads_trans)
  qed
qed (auto simp: only_reads_refl)

section \<open>Properties\<close>


text \<open>
  Whatever libvirt answers, the supervisor only reads from it, and it publishes the connections to the
  handlers exactly while its state is connected, through any number of failed attempts, closed connections
  and reconnects.
\<close>

theorem supervisor_publishes_when_connected:
  "case supervise L X show_error rs shared_new s of
     (sh, s') \<Rightarrow> (sh_virt sh \<longleftrightarrow> sh_state sh = Connected) \<and>
       (\<exists>new. trace s' = trace s @ new \<and> list_all (\<lambda>c. \<not> mutating (fst c)) new)"
proof -
  have "published_wf shared_new" by (simp add: published_wf_def shared_new_def)
  then show ?thesis
    using supervise_step [of L X show_error rs shared_new s] by (auto simp: published_wf_def only_reads_def split: prod.split)
qed

subsection \<open>Witness\<close>

text \<open>The domain of the example host is off at the connect and runs after an event.\<close>

subsection \<open>Witness\<close>

text \<open>The domain of the example host is off at the connect and runs after an event.\<close>

definition example_shared :: Shared where
  "example_shared = fst (snd (reload one_domain_host xml_codec None shared_new \<lparr>world = 5, trace = []\<rparr>))"

lemma example_fact:
  "ob \<noteq> ObjVm (Uuid 1) \<Longrightarrow> host_fact one_domain_host xml_codec w' ob = host_fact one_domain_host xml_codec w ob"
  by (cases ob) (auto simp: refresh_vm_def refresh_pool_def refresh_network_def gone_is_none_def answer_def
      vtry_def vbind_def ask_def one_domain_host_def vreturn_def)

lemma outcome_triple: "fst x = d \<Longrightarrow> x = (d, fst (snd x), snd (snd x))"
  by (cases x) auto

lemma example_run:
  "session_run one_domain_host xml_codec (1, [],
     fst (snd (session_message one_domain_host xml_codec None (Got (EvDomain (Uuid 1) (Lifecycle 2 0)))
       example_shared \<lparr>world = 1, trace = []\<rparr>)))"
proof -
  have "fst (reload one_domain_host xml_codec None shared_new \<lparr>world = 5, trace = []\<rparr>) = Going" by code_simp
  from session_run.connect [OF outcome_triple [OF this]]
  have "session_run one_domain_host xml_codec (5, [], example_shared)"
    unfolding example_shared_def .
  from session_run.change [OF this _ example_fact, of "EvDomain (Uuid 1) (Lifecycle 2 0)" "ObjVm (Uuid 1)" 1]
  have run: "session_run one_domain_host xml_codec (1, [Got (EvDomain (Uuid 1) (Lifecycle 2 0))], example_shared)"
    by simp
  have "fst (session_message one_domain_host xml_codec None (Got (EvDomain (Uuid 1) (Lifecycle 2 0)))
       example_shared \<lparr>world = 1, trace = []\<rparr>) = Going" by code_simp
  from session_run.message [OF run outcome_triple [OF this]] show ?thesis .
qed

lemma example_load: "\<exists>iv. answer 1 (load one_domain_host xml_codec) = Ok iv \<and> map_option vm_state (hm_get (vms iv) (Uuid 1)) = Some Running"
  by (intro exI conjI, code_simp) code_simp


end
