(* ===== verification/Virt_Power.thy ===== *)
theory Virt_Power
  imports Virt_World
begin

text \<open>\<^verbatim>\<open>lodger-virt/src/power.rs\<close>: power actions and autostart of a domain.\<close>

section \<open>Model\<close>

datatype Power = Start | Shutdown | ForceOff | Reboot | Pause | Resume

primrec Power_name :: "Power \<Rightarrow> string" where
  "Power_name Start = ''start''"
| "Power_name Shutdown = ''shutdown''"
| "Power_name ForceOff = ''force-off''"
| "Power_name Reboot = ''reboot''"
| "Power_name Pause = ''pause''"
| "Power_name Resume = ''resume''"

definition Power_parse :: "ustr \<Rightarrow> Power option" where
  "Power_parse n =
     (if n = lit ''start'' then Some Start
      else if n = lit ''shutdown'' then Some Shutdown
      else if n = lit ''force-off'' then Some ForceOff
      else if n = lit ''reboot'' then Some Reboot
      else if n = lit ''pause'' then Some Pause
      else if n = lit ''resume'' then Some Resume
      else None)"

fun refusal :: "Power \<Rightarrow> VmState \<Rightarrow> bool \<Rightarrow> string option" where
  "refusal Start state active = (if active then Some ''the VM is running already'' else None)"
| "refusal Shutdown state active = (if \<not> active then Some ''the VM is not running'' else None)"
| "refusal ForceOff state active = (if \<not> active then Some ''the VM is not running'' else None)"
| "refusal Reboot state active =
     (if state = Paused then Some ''the VM is paused''
      else if state \<noteq> Running then Some ''the VM is not running'' else None)"
| "refusal Pause state active =
     (if state = Paused then Some ''the VM is paused''
      else if state \<noteq> Running then Some ''the VM is not running'' else None)"
| "refusal Resume state active = (if state \<noteq> Paused then Some ''the VM is not paused'' else None)"

text \<open>The flag says whether the call asks for the ACPI power button.\<close>

definition with_acpi :: "(bool \<Rightarrow> ('w, unit, virt_error) virt) \<Rightarrow> ('w, unit, virt_error) virt" where
  "with_acpi call =
     vtry (call True) (\<lambda>r. case r of
       Err e \<Rightarrow> if known e = Some InvalidArg then call False else vreturn (Err e)
     | Ok u \<Rightarrow> vreturn (Ok u))"

fun power_call :: "'w libvirt \<Rightarrow> domain \<Rightarrow> Power \<Rightarrow> ('w, unit, virt_error) virt" where
  "power_call L d Start = ask (lv_unit L) (DomainCreate d)"
| "power_call L d Shutdown = with_acpi (\<lambda>acpi. ask (lv_unit L) (DomainShutdown d acpi))"
| "power_call L d ForceOff = ask (lv_unit L) (DomainDestroy d)"
| "power_call L d Reboot = with_acpi (\<lambda>acpi. ask (lv_unit L) (DomainReboot d acpi))"
| "power_call L d Pause = ask (lv_unit L) (DomainSuspend d)"
| "power_call L d Resume = ask (lv_unit L) (DomainResume d)"

definition power_on :: "'w libvirt \<Rightarrow> uuid \<Rightarrow> Power \<Rightarrow> ('w, unit, Error) virt" where
  "power_on L i act =
     vbind (ask_e (lv_handle L) (LookupDomain i)) (\<lambda>d.
     vbind (ask_e (lv_dominfo L) (DomainInfo d)) (\<lambda>info.
     vbind (ask_e (lv_bool L) (DomainIsActive d)) (\<lambda>active.
       case refusal act (VmState_from_code (di_state info)) active of
         Some why \<Rightarrow> vreturn (Err (WrongState why))
       | None \<Rightarrow> verr Libvirt (power_call L d act))))"

definition power :: "'w libvirt \<Rightarrow> ustr option \<Rightarrow> uuid \<Rightarrow> Power \<Rightarrow> ('w, unit, Error) virt" where
  "power L task_failed i act = job task_failed (power_on L i act)"

text \<open>A successful change sends Lodger's own event to the hub: the result is the list of events sent.\<close>

definition set_autostart :: "'w libvirt \<Rightarrow> ustr option \<Rightarrow> uuid \<Rightarrow> bool \<Rightarrow> ('w, Event list, Error) virt" where
  "set_autostart L task_failed i on =
     vbind (job task_failed (vbind (ask_e (lv_handle L) (LookupDomain i)) (\<lambda>d.
       ask_e (lv_unit L) (DomainSetAutostart d on)))) (\<lambda>_.
     vreturn (Ok [EvDomain i Autostart]))"

section \<open>Which actions fit\<close>

text \<open>When an action fits the state of a domain.\<close>

fun fits :: "Power \<Rightarrow> VmState \<Rightarrow> bool \<Rightarrow> bool" where
  "fits Start state active = (\<not> active)"
| "fits Shutdown state active = active"
| "fits ForceOff state active = active"
| "fits Reboot state active = (state = Running)"
| "fits Pause state active = (state = Running)"
| "fits Resume state active = (state = Paused)"

lemma refusal_fits: "refusal act state active = None \<longleftrightarrow> fits act state active"
  by (cases act) auto

text \<open>The calls of an action: only that action, and a second try without ACPI where it has one.\<close>

fun is_call_of :: "Power \<Rightarrow> domain \<Rightarrow> call \<Rightarrow> bool" where
  "is_call_of Start d c = (c = DomainCreate d)"
| "is_call_of Shutdown d c = (\<exists>b. c = DomainShutdown d b)"
| "is_call_of ForceOff d c = (c = DomainDestroy d)"
| "is_call_of Reboot d c = (\<exists>b. c = DomainReboot d b)"
| "is_call_of Pause d c = (c = DomainSuspend d)"
| "is_call_of Resume d c = (c = DomainResume d)"

lemma makes_with_acpi: "(\<And>b. makes P (call b)) \<Longrightarrow> makes P (with_acpi call)"
  unfolding with_acpi_def by (intro makes_intros) (auto intro: makes_intros split: result.splits)

lemma makes_power_call: "makes (\<lambda>(c, _). is_call_of act d c) (power_call L d act)"
  by (cases act) (auto intro!: makes_intros makes_with_acpi)

section \<open>Properties\<close>

text \<open>
  The name of an action in the API path parses to that action, and nothing else parses.
\<close>

theorem Power_parse_name: "Power_parse n = Some act \<longleftrightarrow> n = lit (Power_name act)"
  by (cases act) (auto simp: Power_parse_def)

text \<open>
  Whatever libvirt answers, a power action first looks the domain up and reads its state; it makes
  a call that changes the domain only if that state fits the action, and then only the call of that
  action, on that domain.
\<close>

theorem power_only_when_fitting:
  assumes "power_on L i act s = (r, s')"
  shows "(\<exists>new. trace s' = trace s @ new \<and> list_all (\<lambda>(c, _). \<not> mutating c) new) \<or>
    (\<exists>d info active w1 w2 w3 new.
       lv_handle L (LookupDomain i) (world s) = (Ok d, w1) \<and> lv_dominfo L (DomainInfo d) w1 = (Ok info, w2) \<and>
       lv_bool L (DomainIsActive d) w2 = (Ok active, w3) \<and>
       fits act (VmState_from_code (di_state info)) active \<and>
       trace s' = trace s @ [(LookupDomain i, None), (DomainInfo d, None), (DomainIsActive d, None)] @ new \<and>
       list_all (\<lambda>(c, _). is_call_of act d c) new)"
proof -
  obtain rd w1 where 1: "lv_handle L (LookupDomain i) (world s) = (rd, w1)" by fastforce
  show ?thesis
  proof (cases rd)
    case (Err e)
    with assms 1 show ?thesis by (auto simp: power_on_def vbind_def ask_e_def verr_def ask_def)
  next
    case d: (Ok d)
    obtain ri w2 where 2: "lv_dominfo L (DomainInfo d) w1 = (ri, w2)" by fastforce
    show ?thesis
    proof (cases ri)
      case (Err e)
      with assms 1 d 2 show ?thesis by (auto simp: power_on_def vbind_def ask_e_def verr_def ask_def)
    next
      case info: (Ok info)
      obtain ra w3 where 3: "lv_bool L (DomainIsActive d) w2 = (ra, w3)" by fastforce
      let ?s3 = "\<lparr>world = w3, trace = trace s @ [(LookupDomain i, None), (DomainInfo d, None), (DomainIsActive d, None)]\<rparr>"
      show ?thesis
      proof (cases "\<exists>active. ra = Ok active \<and> fits act (VmState_from_code (di_state info)) active")
        case True
        then obtain active where a: "ra = Ok active" "fits act (VmState_from_code (di_state info)) active" by blast
        then have "(r, s') = verr Libvirt (power_call L d act) ?s3"
          using assms 1 d 2 info 3
          by (simp add: power_on_def vbind_def ask_e_def verr_def ask_def flip: refusal_fits)
        then obtain new where "trace s' = trace ?s3 @ new" "list_all (\<lambda>(c, _). is_call_of act d c) new"
          using makesD [OF makes_err [OF makes_power_call]] by metis
        with 1 d 2 info 3 a show ?thesis by auto
      next
        case False
        with assms 1 d 2 info 3 show ?thesis
          by (cases ra) (auto simp: power_on_def vbind_def ask_e_def verr_def ask_def vreturn_def
              simp flip: refusal_fits split: option.splits)
      qed
    qed
  qed
qed

theorem power_only_when_fitting_witness:
  "power_on quiet_libvirt (Uuid 1) ForceOff \<lparr>world = (), trace = []\<rparr> =
     (Ok (), \<lparr>world = (), trace = [(LookupDomain (Uuid 1), None), (DomainInfo 1, None), (DomainIsActive 1, None),
        (DomainDestroy 1, None)]\<rparr>) \<and> fits ForceOff (VmState_from_code 1) True"
proof -
  have run: "power_on quiet_libvirt (Uuid 1) ForceOff \<lparr>world = (), trace = []\<rparr> =
     (Ok (), \<lparr>world = (), trace = [(LookupDomain (Uuid 1), None), (DomainInfo 1, None), (DomainIsActive 1, None),
        (DomainDestroy 1, None)]\<rparr>)"
    by code_simp
  from power_only_when_fitting [OF run] run show ?thesis by (auto simp: quiet_libvirt_def)
qed

end
