(* ===== verification/Virt_Scan.thy ===== *)
theory Virt_Scan
  imports Virt_Steady
begin

text \<open>
  What \<^verbatim>\<open>pool.rs\<close>, \<^verbatim>\<open>network.rs\<close> and \<^verbatim>\<open>volume.rs\<close> of \<^verbatim>\<open>lodger-virt\<close> share: the scan over the XML of every domain,
  saved and live, for the names of those that use an object, and the list of named XMLs.
\<close>

section \<open>Model\<close>

text \<open>A \<^verbatim>\<open>BTreeSet\<close> of strings, as the sorted list of its elements.\<close>

definition bt_insert :: "ustr \<Rightarrow> ustr list \<Rightarrow> ustr list" where
  "bt_insert x xs = (if x \<in> set xs then xs else insort x xs)"

definition list_of_ok :: "('a, 'e) result \<Rightarrow> 'a list" where
  "list_of_ok r = (case r of Ok a \<Rightarrow> [a] | Err _ \<Rightarrow> [])"

text \<open>The configurations of a domain that can be read: the saved one, and the live one if it runs.\<close>

definition readable_xmls :: "'w libvirt \<Rightarrow> domain \<Rightarrow> ('w, ustr list, Error) virt" where
  "readable_xmls L d =
     vtry (ask (lv_text L) (DomainXml d Saved)) (\<lambda>saved.
     vtry (ask (lv_bool L) (DomainIsActive d)) (\<lambda>active.
       if (case active of Ok b \<Rightarrow> b | Err _ \<Rightarrow> False)
       then vtry (ask (lv_text L) (DomainXml d Live)) (\<lambda>live. vreturn (Ok (list_of_ok saved @ list_of_ok live)))
       else vreturn (Ok (list_of_ok saved))))"

text \<open>The loop of the two functions \<^verbatim>\<open>users_of\<close>.\<close>

fun scan_users :: "'w libvirt \<Rightarrow> (ustr \<Rightarrow> bool) \<Rightarrow> domain list \<Rightarrow> ustr list \<Rightarrow> ('w, ustr list, Error) virt" where
  "scan_users L uses [] users = vreturn (Ok users)"
| "scan_users L uses (d # ds) users =
     vtry (ask (lv_text L) (DomainName d)) (\<lambda>r. case r of
       Err _ \<Rightarrow> scan_users L uses ds users
     | Ok name \<Rightarrow>
         vbind (readable_xmls L d) (\<lambda>xmls.
           scan_users L uses ds (if list_ex uses xmls then bt_insert name users else users)))"

text \<open>The name and XML of each object; one that is gone meanwhile is left out.\<close>

fun named_xmls :: "'w libvirt \<Rightarrow> (nat \<Rightarrow> call) \<Rightarrow> (nat \<Rightarrow> call) \<Rightarrow> ErrorNumber \<Rightarrow> nat list
    \<Rightarrow> ('w, (ustr \<times> ustr) list, virt_error) virt" where
  "named_xmls L name_call xml_call missing [] = vreturn (Ok [])"
| "named_xmls L name_call xml_call missing (h # hs) =
     vtry (vbind (ask (lv_text L) (name_call h)) (\<lambda>name.
           vbind (ask (lv_text L) (xml_call h)) (\<lambda>xml. vreturn (Ok (name, xml))))) (\<lambda>r. case r of
       Ok found \<Rightarrow> vbind (named_xmls L name_call xml_call missing hs) (\<lambda>rest. vreturn (Ok (found # rest)))
     | Err e \<Rightarrow>
         if known e = Some missing then named_xmls L name_call xml_call missing hs else vreturn (Err e))"

section \<open>Reading changes nothing\<close>

lemma reads_readable_xmls: "reads_only (readable_xmls L d)"
  unfolding readable_xmls_def by (intro makes_intros) auto

lemma reads_scan_users: "reads_only (scan_users L uses ds users)"
  by (induction ds arbitrary: users) (auto intro!: makes_intros reads_readable_xmls split: result.splits)

lemma reads_named_xmls:
  assumes "\<And>h. \<not> mutating (name_call h)" and "\<And>h. \<not> mutating (xml_call h)"
  shows "reads_only (named_xmls L name_call xml_call missing hs)"
  using assms by (induction hs) (auto intro!: makes_intros split: result.splits)

section \<open>The answers on a quiet host\<close>

text \<open>The configurations of a domain, as a function of the world.\<close>

definition xmls_in :: "'w libvirt \<Rightarrow> 'w \<Rightarrow> domain \<Rightarrow> ustr list" where
  "xmls_in L w d = list_of_ok (fst (lv_text L (DomainXml d Saved) w)) @
     (if fst (lv_bool L (DomainIsActive d) w) = Ok True then list_of_ok (fst (lv_text L (DomainXml d Live) w)) else [])"

lemma steady_readable_xmls: "quiet_reads L w \<Longrightarrow> steady w (readable_xmls L d)"
  unfolding readable_xmls_def by (auto intro!: steady_intros simp: quiet_reads_def)

lemma answer_readable_xmls: "quiet_reads L w \<Longrightarrow> answer w (readable_xmls L d) = Ok (xmls_in L w d)"
  unfolding readable_xmls_def xmls_in_def by (auto simp: steady_simps split: result.splits)

lemma steady_scan_users: "quiet_reads L w \<Longrightarrow> steady w (scan_users L uses ds users)"
  by (induction ds arbitrary: users)
    (auto intro!: steady_intros steady_readable_xmls simp: steady_simps split: result.splits)

lemma bt_insert_set: "set (bt_insert x xs) = insert x (set xs)"
  by (auto simp: bt_insert_def set_insort_key)

lemma bt_insert_sorted: "sorted xs \<Longrightarrow> distinct xs \<Longrightarrow> sorted (bt_insert x xs) \<and> distinct (bt_insert x xs)"
  by (auto simp: bt_insert_def sorted_insort distinct_insort)

text \<open>The scan finds exactly the named domains with a readable configuration that uses the object.\<close>

lemma answer_scan_users:
  assumes q: "quiet_reads L w" and "sorted users" and "distinct users"
  shows "\<exists>us. answer w (scan_users L uses ds users) = Ok us \<and> sorted us \<and> distinct us \<and>
    set us = set users \<union> {n. \<exists>d\<in>set ds. fst (lv_text L (DomainName d) w) = Ok n \<and> list_ex uses (xmls_in L w d)}"
  using assms(2,3)
proof (induction ds arbitrary: users)
  case (Cons d ds)
  let ?k = "\<lambda>r. case r of
       Err _ \<Rightarrow> scan_users L uses ds users
     | Ok name \<Rightarrow> vbind (readable_xmls L d) (\<lambda>xmls.
         scan_users L uses ds (if list_ex uses xmls then bt_insert name users else users))"
  have st: "steady w (?k r)" for r
    using q by (auto intro!: steady_intros steady_readable_xmls steady_scan_users split: result.splits)
  have sa: "steady w (ask (lv_text L) (DomainName d))"
    using q by (simp add: steady_simps)
  have a: "answer w (scan_users L uses (d # ds) users) = answer w (?k (fst (lv_text L (DomainName d) w)))"
    unfolding scan_users.simps answer_try [OF sa st] by simp
  show ?case
  proof (cases "fst (lv_text L (DomainName d) w)")
    case (Err e)
    with a Cons.IH [OF Cons.prems] show ?thesis by auto
  next
    case (Ok n)
    let ?us = "if list_ex uses (xmls_in L w d) then bt_insert n users else users"
    have "answer w (?k (Ok n)) = answer w (scan_users L uses ds ?us)"
      using q by (simp add: answer_bind steady_readable_xmls steady_scan_users answer_readable_xmls)
    moreover have "sorted ?us" "distinct ?us"
      using Cons.prems bt_insert_sorted by auto
    from Cons.IH [OF this] obtain us where "answer w (scan_users L uses ds ?us) = Ok us" "sorted us" "distinct us"
        "set us = set ?us \<union> {n. \<exists>d\<in>set ds. fst (lv_text L (DomainName d) w) = Ok n \<and> list_ex uses (xmls_in L w d)}"
      by blast
    ultimately show ?thesis
      using a Ok by (auto simp: bt_insert_set split: if_splits)
  qed
qed simp

end
