(* ===== verification/Virt_Pool.thy ===== *)
theory Virt_Pool
  imports Virt_Scan
begin

text \<open>
  \<^verbatim>\<open>lodger-virt/src/pool.rs\<close>: create, start, stop, autostart and remove a storage pool, and the VMs with a disk
  in it. The two closures that only the tests pass (\<^verbatim>\<open>before_start\<close> and \<^verbatim>\<open>before_stop\<close>) do nothing here, and
  \<^verbatim>\<open>delete_volume\<close> is libvirt's volume delete, as in \<^verbatim>\<open>Virt::create_pool\<close> and \<^verbatim>\<open>Virt::remove_pool\<close>.
\<close>

section \<open>Model\<close>

definition POOL_AUTOSTART :: int where
  "POOL_AUTOSTART = -1"

definition pool_xmls :: "'w libvirt \<Rightarrow> ustr option \<Rightarrow> ('w, (ustr \<times> ustr) list, Error) virt" where
  "pool_xmls L task_failed =
     job task_failed (verr Libvirt (vbind (ask (lv_handles L) ListPools)
       (named_xmls L PoolName PoolXmlDesc NoStoragePool)))"

definition pool_xml :: "'w libvirt \<Rightarrow> ustr option \<Rightarrow> uuid \<Rightarrow> ('w, ustr, Error) virt" where
  "pool_xml L task_failed i =
     job task_failed (vbind (ask_e (lv_handle L) (LookupPool i)) (\<lambda>p. ask_e (lv_text L) (PoolXmlDesc p)))"

definition create_pool_on :: "'w libvirt \<Rightarrow> ustr \<Rightarrow> bool \<Rightarrow> ('w, uuid, virt_error) virt" where
  "create_pool_on L xml autostart =
     vbind (ask (lv_handle L) (DefinePool xml)) (\<lambda>p.
     vtry (vbind (ask (lv_unit L) (PoolBuild p)) (\<lambda>_.
           vbind (ask (lv_unit L) (PoolSetAutostart p autostart)) (\<lambda>_.
             ask (lv_unit L) (PoolCreate p)))) (\<lambda>started. case started of
       Ok _ \<Rightarrow> ask (lv_uuid L) (PoolUuid p)
     | Err e \<Rightarrow>
         vtry (ask (lv_bool L) (PoolIsActive p)) (\<lambda>active.
         vtry (if (case active of Ok b \<Rightarrow> b | Err _ \<Rightarrow> False) then ask (lv_unit L) (PoolDestroy p) else vreturn (Ok ())) (\<lambda>_.
         vtry (ask (lv_unit L) (PoolUndefine p)) (\<lambda>_. vreturn (Err e))))))"

definition create_pool :: "'w libvirt \<Rightarrow> ustr option \<Rightarrow> ustr \<Rightarrow> bool \<Rightarrow> ('w, uuid, Error) virt" where
  "create_pool L task_failed xml autostart = job task_failed (verr Libvirt (create_pool_on L xml autostart))"

definition set_pool_active :: "'w libvirt \<Rightarrow> ustr option \<Rightarrow> uuid \<Rightarrow> bool \<Rightarrow> ('w, unit, Error) virt" where
  "set_pool_active L task_failed i active =
     job task_failed (
       vbind (ask_e (lv_handle L) (LookupPool i)) (\<lambda>p.
       vbind (ask_e (lv_bool L) (PoolIsActive p)) (\<lambda>now.
         if active \<and> now then vreturn (Err (WrongState ''the pool is running already''))
         else if \<not> active \<and> \<not> now then vreturn (Err (WrongState ''the pool is not running''))
         else if active then ask_e (lv_unit L) (PoolCreate p)
         else ask_e (lv_unit L) (PoolDestroy p))))"

definition set_pool_autostart :: "'w libvirt \<Rightarrow> ustr option \<Rightarrow> uuid \<Rightarrow> bool \<Rightarrow> ('w, Event list, Error) virt" where
  "set_pool_autostart L task_failed i on =
     vbind (job task_failed (vbind (ask_e (lv_handle L) (LookupPool i)) (\<lambda>p.
       ask_e (lv_unit L) (PoolSetAutostart p on)))) (\<lambda>_.
     vreturn (Ok [EvPool i POOL_AUTOSTART]))"

text \<open>The folder of a pool, with exactly one slash at its end.\<close>

definition folder_prefix :: "ustr \<Rightarrow> ustr" where
  "folder_prefix p = rev (dropWhile (\<lambda>c. c = 47) (rev p)) @ lit ''/''"

definition disk_in_pool :: "ustr \<Rightarrow> ustr option \<Rightarrow> DiskSource \<Rightarrow> bool" where
  "disk_in_pool pname folder src =
     (case src of
        Volume p _ \<Rightarrow> p = pname
      | File path \<Rightarrow> (case folder of Some f \<Rightarrow> starts_with f path | None \<Rightarrow> False)
      | Block path \<Rightarrow> (case folder of Some f \<Rightarrow> starts_with f path | None \<Rightarrow> False))"

definition xml_uses_pool :: "xmltree \<Rightarrow> ustr \<Rightarrow> ustr option \<Rightarrow> ustr \<Rightarrow> bool" where
  "xml_uses_pool X pname folder xml =
     (case domain_disks X xml of
        Ok ds \<Rightarrow> list_ex (\<lambda>d. disk_in_pool pname folder (source d)) ds
      | Err _ \<Rightarrow> False)"

definition pool_users_of :: "'w libvirt \<Rightarrow> xmltree \<Rightarrow> pool \<Rightarrow> ('w, ustr list, Error) virt" where
  "pool_users_of L X p =
     vbind (ask_e (lv_text L) (PoolName p)) (\<lambda>name.
     vbind (ask_e (lv_text L) (PoolXmlDesc p)) (\<lambda>xml.
       case PoolXml_parse X xml of
         Err e \<Rightarrow> vreturn (Err (XmlFailed e))
       | Ok px \<Rightarrow>
           vbind (ask_e (lv_handles L) ListDomains) (\<lambda>ds.
             scan_users L (xml_uses_pool X name (map_option folder_prefix (PoolXml_target_path X px))) ds [])))"

definition pool_users :: "'w libvirt \<Rightarrow> xmltree \<Rightarrow> ustr option \<Rightarrow> uuid \<Rightarrow> ('w, ustr list, Error) virt" where
  "pool_users L X task_failed i =
     job task_failed (vbind (ask_e (lv_handle L) (LookupPool i)) (pool_users_of L X))"

fun delete_volumes :: "'w libvirt \<Rightarrow> volume list \<Rightarrow> ('w, unit, virt_error) virt" where
  "delete_volumes L [] = vreturn (Ok ())"
| "delete_volumes L (v # vs) = vbind (ask (lv_unit L) (VolDelete v)) (\<lambda>_. delete_volumes L vs)"

text \<open>The first part of the removal, with \<^verbatim>\<open>delete_files\<close>.\<close>

definition delete_files_of :: "'w libvirt \<Rightarrow> pool \<Rightarrow> ('w, unit, virt_error) virt" where
  "delete_files_of L p =
     vbind (ask (lv_bool L) (PoolIsActive p)) (\<lambda>was_active.
     vbind (if was_active then vreturn (Ok ()) else ask (lv_unit L) (PoolCreate p)) (\<lambda>_.
     vtry (vbind (ask (lv_unit L) (PoolRefresh p)) (\<lambda>_.
           vbind (ask (lv_handles L) (PoolVolumes p)) (delete_volumes L))) (\<lambda>deleted. case deleted of
       Ok _ \<Rightarrow> vreturn (Ok ())
     | Err e \<Rightarrow>
         vtry (if was_active then vreturn (Ok ()) else ask (lv_unit L) (PoolDestroy p)) (\<lambda>_. vreturn (Err e)))))"

definition remove_pool_on :: "'w libvirt \<Rightarrow> uuid \<Rightarrow> bool \<Rightarrow> bool \<Rightarrow> ('w, unit, virt_error) virt" where
  "remove_pool_on L i delete_files remove_empty_folder =
     vbind (ask (lv_handle L) (LookupPool i)) (\<lambda>p.
     vbind (if delete_files then delete_files_of L p else vreturn (Ok ())) (\<lambda>_.
     vbind (ask (lv_bool L) (PoolIsPersistent p)) (\<lambda>persistent.
     vbind (ask (lv_bool L) (PoolIsActive p)) (\<lambda>active.
     vbind (if active then ask (lv_unit L) (PoolDestroy p) else vreturn (Ok ())) (\<lambda>_.
       if persistent
       then vbind (if delete_files then ask (lv_unit L) (PoolDelete p)
                   else if remove_empty_folder then vtry (ask (lv_unit L) (PoolDelete p)) (\<lambda>_. vreturn (Ok ()))
                   else vreturn (Ok ())) (\<lambda>_. ask (lv_unit L) (PoolUndefine p))
       else vreturn (Ok ()))))))"

definition remove_pool :: "'w libvirt \<Rightarrow> ustr option \<Rightarrow> uuid \<Rightarrow> bool \<Rightarrow> bool \<Rightarrow> ('w, unit, Error) virt" where
  "remove_pool L task_failed i delete_files remove_empty_folder =
     job task_failed (verr Libvirt (remove_pool_on L i delete_files remove_empty_folder))"

section \<open>Which calls are made\<close>

lemma reads_pool_xmls: "reads_only (pool_xmls L tf)"
  unfolding pool_xmls_def by (intro makes_intros reads_named_xmls) auto

lemma reads_pool_xml: "reads_only (pool_xml L tf i)"
  unfolding pool_xml_def by (intro makes_intros) auto

lemma reads_pool_users: "reads_only (pool_users L X tf i)"
  unfolding pool_users_def pool_users_of_def
  by (intro makes_intros) (auto intro!: makes_intros reads_scan_users split: result.splits)

text \<open>
  The removal of pool \<open>p\<close>: the calls that change the host, and when each is allowed.
\<close>

fun removal_call :: "pool \<Rightarrow> bool \<Rightarrow> bool \<Rightarrow> call \<Rightarrow> bool" where
  "removal_call p delete_files remove_empty_folder (VolDelete v) = delete_files"
| "removal_call p delete_files remove_empty_folder (PoolCreate q) = (delete_files \<and> q = p)"
| "removal_call p delete_files remove_empty_folder (PoolDelete q) = ((delete_files \<or> remove_empty_folder) \<and> q = p)"
| "removal_call p delete_files remove_empty_folder (PoolDestroy q) = (q = p)"
| "removal_call p delete_files remove_empty_folder (PoolUndefine q) = (q = p)"
| "removal_call p delete_files remove_empty_folder c = (\<not> mutating c)"

lemma makes_delete_volumes: "makes (\<lambda>(c, _). removal_call p True re c) (delete_volumes L vs)"
  by (induction vs) (auto intro!: makes_intros)

lemma makes_delete_files_of: "makes (\<lambda>(c, _). removal_call p True re c) (delete_files_of L p)"
  unfolding delete_files_of_def by (auto intro!: makes_intros makes_delete_volumes split: result.splits)

lemma remove_pool_on_steps:
  "case remove_pool_on L i delete_files remove_empty_folder s of
     (r, s') \<Rightarrow> \<exists>x new. trace s' = trace s @ (LookupPool i, x) # new \<and>
       (case fst (lv_handle L (LookupPool i) (world s)) of
          Err e \<Rightarrow> new = []
        | Ok p \<Rightarrow> list_all (\<lambda>(c, _). removal_call p delete_files remove_empty_folder c) new)"
proof -
  obtain rp w1 where p: "lv_handle L (LookupPool i) (world s) = (rp, w1)" by fastforce
  let ?rest = "\<lambda>p. vbind (if delete_files then delete_files_of L p else vreturn (Ok ())) (\<lambda>_.
     vbind (ask (lv_bool L) (PoolIsPersistent p)) (\<lambda>persistent.
     vbind (ask (lv_bool L) (PoolIsActive p)) (\<lambda>active.
     vbind (if active then ask (lv_unit L) (PoolDestroy p) else vreturn (Ok ())) (\<lambda>_.
       if persistent
       then vbind (if delete_files then ask (lv_unit L) (PoolDelete p)
                   else if remove_empty_folder then vtry (ask (lv_unit L) (PoolDelete p)) (\<lambda>_. vreturn (Ok ()))
                   else vreturn (Ok ())) (\<lambda>_. ask (lv_unit L) (PoolUndefine p))
       else vreturn (Ok ())))))"
  have "makes (\<lambda>(c, _). removal_call p delete_files remove_empty_folder c) (?rest p)" for p
    by (auto intro!: makes_intros makes_delete_files_of)
  then have rest: "\<exists>new. trace s2 = trace s1 @ new \<and> list_all (\<lambda>(c, _). removal_call p delete_files remove_empty_folder c) new"
    if "?rest p s1 = (r, s2)" for p r s1 s2
    using makesD that by blast
  show ?thesis
  proof (cases rp)
    case (Err e)
    with p show ?thesis by (simp add: remove_pool_on_def vbind_def ask_def)
  next
    case (Ok h)
    let ?s1 = "\<lparr>world = w1, trace = trace s @ [(LookupPool i, None)]\<rparr>"
    obtain r s2 where s2: "?rest h ?s1 = (r, s2)" by fastforce
    then have "remove_pool_on L i delete_files remove_empty_folder s = (r, s2)"
      using p Ok unfolding remove_pool_on_def vbind_def [of "ask (lv_handle L) (LookupPool i)"] by (simp add: ask_def)
    with rest [OF s2] p Ok show ?thesis by auto
  qed
qed

lemma remove_pool_steps:
  assumes "remove_pool L tf i df re s = (r, s')"
  shows "\<exists>p new. trace s' = trace s @ new \<and> list_all (\<lambda>(c, _). removal_call p df re c) new"
proof (cases tf)
  case (Some e)
  with assms show ?thesis by (simp add: remove_pool_def job_def)
next
  case None
  obtain r1 s1 where "remove_pool_on L i df re s = (r1, s1)" by fastforce
  with assms None have "remove_pool_on L i df re s = (r1, s')"
    by (simp add: remove_pool_def job_def verr_def)
  with remove_pool_on_steps [where L = L and i = i and delete_files = df and remove_empty_folder = re and s = s]
  obtain x new where "trace s' = trace s @ (LookupPool i, x) # new"
      "case fst (lv_handle L (LookupPool i) (world s)) of Err e \<Rightarrow> new = [] | Ok p \<Rightarrow> list_all (\<lambda>(c, _). removal_call p df re c) new"
    by auto
  then show ?thesis
    by (cases "fst (lv_handle L (LookupPool i) (world s))") (auto intro!: exI [of _ "(LookupPool i, x) # new"])
qed

section \<open>Properties\<close>

text \<open>
  Removing a pool touches only that pool and only the files it may. Whatever libvirt answers, after the
  lookup of the pool every call that changes the host is a stop, start, delete or undefine of the pool found, or
  a volume delete; a volume is deleted, and the pool started for it, only with \<open>delete_files\<close>; and the folder is
  deleted only with \<open>delete_files\<close> or for Lodger's own empty folder.
\<close>

theorem remove_pool_touches_only_pool:
  "case remove_pool_on L i delete_files remove_empty_folder s of
     (r, s') \<Rightarrow> \<exists>x new. trace s' = trace s @ (LookupPool i, x) # new \<and>
       (case fst (lv_handle L (LookupPool i) (world s)) of
          Err e \<Rightarrow> new = []
        | Ok p \<Rightarrow> list_all (\<lambda>(c, _). removal_call p delete_files remove_empty_folder c) new)"
  by (rule remove_pool_on_steps)


end
