(* ===== verification/Virt_Network.thy ===== *)
theory Virt_Network
  imports Virt_Scan
begin

text \<open>
  \<^verbatim>\<open>lodger-virt/src/network.rs\<close>: create, start, stop, autostart and delete a virtual network, the VMs on it,
  and the host's bridges. The folder listing of \<^verbatim>\<open>/sys/class/net\<close> is an argument.
\<close>

section \<open>Model\<close>

definition NETWORK_AUTOSTART :: int where
  "NETWORK_AUTOSTART = -1"

definition network_xmls :: "'w libvirt \<Rightarrow> ustr option \<Rightarrow> ('w, (ustr \<times> ustr) list, Error) virt" where
  "network_xmls L task_failed =
     job task_failed (verr Libvirt (vbind (ask (lv_handles L) ListNetworks)
       (named_xmls L NetworkName NetworkXmlDesc NoNetwork)))"

definition network_xml :: "'w libvirt \<Rightarrow> ustr option \<Rightarrow> uuid \<Rightarrow> ('w, ustr, Error) virt" where
  "network_xml L task_failed i =
     job task_failed (vbind (ask_e (lv_handle L) (LookupNetwork i)) (\<lambda>n. ask_e (lv_text L) (NetworkXmlDesc n)))"

definition create_network_on :: "'w libvirt \<Rightarrow> ustr \<Rightarrow> bool \<Rightarrow> ('w, uuid, virt_error) virt" where
  "create_network_on L xml autostart =
     vbind (ask (lv_handle L) (DefineNetwork xml)) (\<lambda>n.
     vtry (vbind (ask (lv_unit L) (NetworkSetAutostart n autostart)) (\<lambda>_.
             ask (lv_unit L) (NetworkCreate n))) (\<lambda>started. case started of
       Ok _ \<Rightarrow> ask (lv_uuid L) (NetworkUuid n)
     | Err e \<Rightarrow>
         vtry (ask (lv_bool L) (NetworkIsActive n)) (\<lambda>active.
         vtry (if (case active of Ok b \<Rightarrow> b | Err _ \<Rightarrow> False) then ask (lv_unit L) (NetworkDestroy n) else vreturn (Ok ())) (\<lambda>_.
         vtry (ask (lv_unit L) (NetworkUndefine n)) (\<lambda>_. vreturn (Err e))))))"

definition create_network :: "'w libvirt \<Rightarrow> ustr option \<Rightarrow> ustr \<Rightarrow> bool \<Rightarrow> ('w, uuid, Error) virt" where
  "create_network L task_failed xml autostart = job task_failed (verr Libvirt (create_network_on L xml autostart))"

definition set_network_active :: "'w libvirt \<Rightarrow> ustr option \<Rightarrow> uuid \<Rightarrow> bool \<Rightarrow> ('w, unit, Error) virt" where
  "set_network_active L task_failed i active =
     job task_failed (
       vbind (ask_e (lv_handle L) (LookupNetwork i)) (\<lambda>n.
       vbind (ask_e (lv_bool L) (NetworkIsActive n)) (\<lambda>now.
         if active \<and> now then vreturn (Err (WrongState ''the network is running already''))
         else if \<not> active \<and> \<not> now then vreturn (Err (WrongState ''the network is not running''))
         else if active then ask_e (lv_unit L) (NetworkCreate n)
         else ask_e (lv_unit L) (NetworkDestroy n))))"

definition set_network_autostart :: "'w libvirt \<Rightarrow> ustr option \<Rightarrow> uuid \<Rightarrow> bool \<Rightarrow> ('w, Event list, Error) virt" where
  "set_network_autostart L task_failed i on =
     vbind (job task_failed (vbind (ask_e (lv_handle L) (LookupNetwork i)) (\<lambda>n.
       ask_e (lv_unit L) (NetworkSetAutostart n on)))) (\<lambda>_.
     vreturn (Ok [EvNetwork i NETWORK_AUTOSTART]))"

definition xml_uses_network :: "xmltree \<Rightarrow> ustr \<Rightarrow> ustr \<Rightarrow> bool" where
  "xml_uses_network X name xml = (case domain_networks X xml of Ok ns \<Rightarrow> name \<in> set ns | Err _ \<Rightarrow> False)"

definition network_users_of :: "'w libvirt \<Rightarrow> xmltree \<Rightarrow> ustr \<Rightarrow> ('w, ustr list, Error) virt" where
  "network_users_of L X name =
     vbind (ask_e (lv_handles L) ListDomains) (\<lambda>ds. scan_users L (xml_uses_network X name) ds [])"

definition network_users :: "'w libvirt \<Rightarrow> xmltree \<Rightarrow> ustr option \<Rightarrow> uuid \<Rightarrow> ('w, ustr list, Error) virt" where
  "network_users L X task_failed i =
     job task_failed (vbind (ask_e (lv_handle L) (LookupNetwork i)) (\<lambda>n.
       vbind (ask_e (lv_text L) (NetworkName n)) (network_users_of L X)))"

definition delete_network :: "'w libvirt \<Rightarrow> ustr option \<Rightarrow> uuid \<Rightarrow> ('w, unit, Error) virt" where
  "delete_network L task_failed i =
     job task_failed (
       vbind (ask_e (lv_handle L) (LookupNetwork i)) (\<lambda>n.
       vbind (ask_e (lv_bool L) (NetworkIsPersistent n)) (\<lambda>persistent.
       vbind (ask_e (lv_bool L) (NetworkIsActive n)) (\<lambda>active.
       vbind (if active then ask_e (lv_unit L) (NetworkDestroy n) else vreturn (Ok ())) (\<lambda>_.
         if persistent then ask_e (lv_unit L) (NetworkUndefine n) else vreturn (Ok ()))))))"

text \<open>
  An entry of \<^verbatim>\<open>/sys/class/net\<close>: its name, if it is text, and whether it has a folder \<^verbatim>\<open>bridge\<close>. No list means that
  the folder cannot be read; an entry that fails is \<open>None\<close>.
\<close>

definition bridges_in :: "(ustr option \<times> bool) option list option \<Rightarrow> ustr list" where
  "bridges_in entries =
     (case entries of
        None \<Rightarrow> []
      | Some es \<Rightarrow> sort (List.map_filter fst (filter snd (List.map_filter id es))))"

section \<open>Which calls are made\<close>

lemma reads_network_xmls: "reads_only (network_xmls L tf)"
  unfolding network_xmls_def by (intro makes_intros reads_named_xmls) auto

lemma reads_network_xml: "reads_only (network_xml L tf i)"
  unfolding network_xml_def by (intro makes_intros) auto

lemma reads_network_users: "reads_only (network_users L X tf i)"
  unfolding network_users_def network_users_of_def by (intro makes_intros reads_scan_users) auto

lemma bridges_in_exact:
  "sorted (bridges_in entries)" "n \<in> set (bridges_in (Some es)) \<longleftrightarrow> Some (Some n, True) \<in> set es"
  by (auto simp: bridges_in_def set_map_filter split: option.split)

lemma xml_uses_network_iff: "xml_uses_network X name xml \<longleftrightarrow> (\<exists>ns. domain_networks X xml = Ok ns \<and> name \<in> set ns)"
  by (cases "domain_networks X xml") (auto simp: xml_uses_network_def)

section \<open>Properties\<close>

text \<open>
  Creating a network leaves no half-made network behind. Either everything succeeded, in the order define,
  autostart, start; or the define failed and nothing else was called; or a later step failed and the last call
  undefines the new network, the error being that of the failed step; or only the final read of the UUID of
  the started network failed.
\<close>

theorem create_network_rolls_back:
  "case create_network_on L xml autostart s of
     (r, s') \<Rightarrow> \<exists>new. trace s' = trace s @ new \<and>
       ((\<exists>e. r = Err e \<and> new = [(DefineNetwork xml, Some e)]) \<or>
        (\<exists>n x. new = [(DefineNetwork xml, None), (NetworkSetAutostart n autostart, None),
             (NetworkCreate n, None), (NetworkUuid n, x)] \<and> (case r of Ok _ \<Rightarrow> x = None | Err e \<Rightarrow> x = Some e)) \<or>
        (\<exists>n e c x mid. r = Err e \<and> new = (DefineNetwork xml, None) # mid @ [(NetworkUndefine n, x)] \<and> (c, Some e) \<in> set mid \<and>
           c \<in> {NetworkSetAutostart n autostart, NetworkCreate n}))"
  by (auto simp: create_network_on_def vbind_def vtry_def ask_def vreturn_def split: prod.splits result.splits if_splits)

text \<open>
  The VMs that Lodger names as users of a network are exactly those with a network interface on it. On a
  host that does not change meanwhile, the answer is the sorted list, without repetition, of the names of the
  domains whose saved XML, or live XML while they run, names the network.
\<close>

theorem network_users_exact:
  assumes "quiet_reads L w" and "fst (lv_handles L ListDomains w) = Ok ds"
  shows "\<exists>us. answer w (network_users_of L X name) = Ok us \<and> sorted us \<and> distinct us \<and>
    (\<forall>n. n \<in> set us \<longleftrightarrow> (\<exists>d\<in>set ds. fst (lv_text L (DomainName d) w) = Ok n \<and>
      (\<exists>xml\<in>set (xmls_in L w d). \<exists>ns. domain_networks X xml = Ok ns \<and> name \<in> set ns)))"
proof -
  have "answer w (network_users_of L X name) = answer w (scan_users L (xml_uses_network X name) ds [])"
    unfolding network_users_of_def
    using assms by (simp add: answer_bind steady_ask_e steady_scan_users quiet_reads_world)
  moreover have uses: "list_ex (xml_uses_network X name) xs \<longleftrightarrow>
      (\<exists>xml\<in>set xs. \<exists>ns. domain_networks X xml = Ok ns \<and> name \<in> set ns)" for xs
    by (simp add: list_ex_iff xml_uses_network_iff)
  ultimately show ?thesis
    using answer_scan_users [OF assms(1), of "[]" "xml_uses_network X name" ds] by auto
qed

subsection \<open>Witness\<close>

text \<open>A quiet host whose only domain has the XML of the example domain, with a NIC on the network \<open>default\<close>.\<close>

definition nic_host :: "unit libvirt" where
  "nic_host = \<lparr>lv_unit = (\<lambda>_ w. (Ok (), w)), lv_bool = (\<lambda>_ w. (Ok False, w)), lv_handle = (\<lambda>_ w. (Ok 1, w)),
     lv_handles = (\<lambda>_ w. (Ok [1], w)),
     lv_text = (\<lambda>c w. (Ok (case c of DomainXml _ _ \<Rightarrow> xt_write xml_codec example_domain | _ \<Rightarrow> lit ''web''), w)),
     lv_uuid = (\<lambda>_ w. (Ok (Uuid 1), w)),
     lv_dominfo = (\<lambda>_ w. (Ok \<lparr>di_state = 1, di_memory = 0, di_vcpus = 1\<rparr>, w)),
     lv_poolinfo = (\<lambda>_ w. (Ok \<lparr>pi_state = 2, pi_capacity = 0, pi_allocation = 0, pi_available = 0\<rparr>, w)),
     lv_volinfo = (\<lambda>_ w. (Ok \<lparr>vi_kind = 0, vi_capacity = 0, vi_allocation = 0\<rparr>, w))\<rparr>"

lemma nic_host_uses:
  "fst (lv_text nic_host (DomainName 1) ()) = Ok (lit ''web'') \<and>
   (\<exists>xml\<in>set (xmls_in nic_host () 1). \<exists>ns. domain_networks xml_codec xml = Ok ns \<and> lit ''default'' \<in> set ns)"
proof -
  have "xmls_in nic_host () 1 = [xt_write xml_codec example_domain]"
    by (simp add: xmls_in_def nic_host_def list_of_ok_def)
  moreover have "domain_networks xml_codec (xt_write xml_codec example_domain) = Ok [lit ''default'']"
    by code_simp
  ultimately show ?thesis by (simp add: nic_host_def)
qed

theorem network_users_exact_witness:
  "\<exists>us. answer () (network_users_of nic_host xml_codec (lit ''default'')) = Ok us \<and> lit ''web'' \<in> set us"
proof -
  have "quiet_reads nic_host ()" "fst (lv_handles nic_host ListDomains ()) = Ok [1]"
    by (simp_all add: quiet_reads_def nic_host_def)
  from network_users_exact [OF this, of xml_codec "lit ''default''"] nic_host_uses show ?thesis by auto
qed

end
