(* ===== verification/Virt_Delete.thy ===== *)
theory Virt_Delete
  imports Virt_Power Virt_Steady
begin

text \<open>
  \<^verbatim>\<open>lodger-virt/src/delete.rs\<close>: delete a VM and, on request, the volumes that only it uses. The file
  system's \<^verbatim>\<open>canonicalize\<close> is the parameter \<open>F\<close>.
\<close>

section \<open>Model\<close>

datatype SkipReason = UsedBy ustr | Shared | NotInPool | Failed ustr

record Removal =
  removed :: "ustr list"
  skipped :: "(ustr \<times> SkipReason) list"

definition removal_default :: Removal where
  "removal_default = \<lparr>removed = [], skipped = []\<rparr>"

record Target =
  t_path :: ustr
  t_key :: ustr
  t_shared :: bool

type_synonym fs = "ustr \<Rightarrow> ustr option"

definition canonical :: "fs \<Rightarrow> ustr \<Rightarrow> ustr" where
  "canonical F path = (case F path of Some p \<Rightarrow> p | None \<Rightarrow> path)"

fun path_of :: "'w libvirt \<Rightarrow> DiskSource \<Rightarrow> ('w, ustr option, 'f) virt" where
  "path_of L (File path) =
     vtry (vbind (ask (lv_handle L) (LookupVolByPath path)) (\<lambda>v. ask (lv_text L) (VolPath v)))
       (\<lambda>r. vreturn (Ok (Some (case r of Ok p \<Rightarrow> p | Err _ \<Rightarrow> path))))"
| "path_of L (Block path) =
     vtry (vbind (ask (lv_handle L) (LookupVolByPath path)) (\<lambda>v. ask (lv_text L) (VolPath v)))
       (\<lambda>r. vreturn (Ok (Some (case r of Ok p \<Rightarrow> p | Err _ \<Rightarrow> path))))"
| "path_of L (Volume p n) =
     vtry (vbind (ask (lv_handle L) (LookupPoolByName p)) (\<lambda>pl.
           vbind (ask (lv_handle L) (LookupVolByName pl n)) (\<lambda>v. ask (lv_text L) (VolPath v))))
       (\<lambda>r. vreturn (Ok (ok r)))"

fun resolve :: "'w libvirt \<Rightarrow> fs \<Rightarrow> Disk list \<Rightarrow> Target list \<Rightarrow> Removal \<Rightarrow> ('w, Target list \<times> Removal, Error) virt" where
  "resolve L F [] targets report = vreturn (Ok (targets, report))"
| "resolve L F (d # ds) targets report =
     vbind (path_of L (source d)) (\<lambda>path.
       case path of
         Some p \<Rightarrow> resolve L F ds (targets @ [\<lparr>t_path = p, t_key = canonical F p, t_shared = shared d\<rparr>]) report
       | None \<Rightarrow>
           resolve L F ds targets
             (case source d of
                Volume p n \<Rightarrow> report\<lparr>skipped := skipped report @ [(p @ lit ''/'' @ n, NotInPool)]\<rparr>
              | _ \<Rightarrow> report))"

definition disks_config :: "'w libvirt \<Rightarrow> domain \<Rightarrow> uuid \<Rightarrow> ('w, (ustr \<times> ustr list) option, virt_error) virt" where
  "disks_config L d i =
     vbind (ask (lv_uuid L) (DomainUuid d)) (\<lambda>u.
       if u = i then vreturn (Ok None)
       else
         vbind (ask (lv_text L) (DomainXml d Saved)) (\<lambda>saved.
         vbind (ask (lv_bool L) (DomainIsActive d)) (\<lambda>active.
         vbind (if active then vbind (ask (lv_text L) (DomainXml d Live)) (\<lambda>live. vreturn (Ok [saved, live]))
                else vreturn (Ok [saved])) (\<lambda>xmls.
         vbind (ask (lv_text L) (DomainName d)) (\<lambda>name. vreturn (Ok (Some (name, xmls))))))))"

type_synonym users = "(ustr, ustr) hmap"

definition add_user :: "ustr \<Rightarrow> ustr \<Rightarrow> users \<Rightarrow> users" where
  "add_user key name us = (if hm_get us key = None then hm_insert key name us else us)"

fun add_disks :: "'w libvirt \<Rightarrow> fs \<Rightarrow> ustr \<Rightarrow> Disk list \<Rightarrow> users \<Rightarrow> ('w, users, Error) virt" where
  "add_disks L F name [] us = vreturn (Ok us)"
| "add_disks L F name (d # ds) us =
     vbind (path_of L (source d)) (\<lambda>path.
       add_disks L F name ds (case path of Some p \<Rightarrow> add_user (canonical F p) name us | None \<Rightarrow> us))"

fun add_xmls :: "'w libvirt \<Rightarrow> xmltree \<Rightarrow> fs \<Rightarrow> ustr \<Rightarrow> ustr list \<Rightarrow> users \<Rightarrow> ('w, users, Error) virt" where
  "add_xmls L X F name [] us = vreturn (Ok us)"
| "add_xmls L X F name (xml # xmls) us =
     (case domain_disks X xml of
        Err e \<Rightarrow> vreturn (Err (XmlFailed e))
      | Ok ds \<Rightarrow> vbind (add_disks L F name ds us) (\<lambda>us. add_xmls L X F name xmls us))"

fun paths_of_other_domains ::
    "'w libvirt \<Rightarrow> xmltree \<Rightarrow> fs \<Rightarrow> domain list \<Rightarrow> uuid \<Rightarrow> users \<Rightarrow> ('w, users, Error) virt" where
  "paths_of_other_domains L X F [] i us = vreturn (Ok us)"
| "paths_of_other_domains L X F (d # ds) i us =
     vtry (disks_config L d i) (\<lambda>r.
       case r of
         Ok (Some (name, xmls)) \<Rightarrow>
           vbind (add_xmls L X F name xmls us) (\<lambda>us. paths_of_other_domains L X F ds i us)
       | Ok None \<Rightarrow> paths_of_other_domains L X F ds i us
       | Err e \<Rightarrow>
           if known e = Some NoDomain then paths_of_other_domains L X F ds i us
           else vreturn (Err (Libvirt e)))"

definition undefine :: "'w libvirt \<Rightarrow> domain \<Rightarrow> ('w, unit, virt_error) virt" where
  "undefine L d =
     vtry (ask (lv_unit L) (DomainUndefine d True)) (\<lambda>r. case r of
       Err e \<Rightarrow> if known e = Some InvalidArg then ask (lv_unit L) (DomainUndefine d False) else vreturn (Err e)
     | Ok u \<Rightarrow> vreturn (Ok u))"

text \<open>What happens to one target: \<open>None\<close> if its volume was deleted, else why it stays.\<close>

definition delete_target :: "'w libvirt \<Rightarrow> users \<Rightarrow> Target \<Rightarrow> ('w, SkipReason option, Error) virt" where
  "delete_target L us t =
     (if t_shared t then vreturn (Ok (Some Shared))
      else case hm_get us (t_key t) of
        Some user \<Rightarrow> vreturn (Ok (Some (UsedBy user)))
      | None \<Rightarrow>
          vtry (ask (lv_handle L) (LookupVolByPath (t_path t))) (\<lambda>r. case r of
            Ok v \<Rightarrow> vtry (ask (lv_unit L) (VolDelete v)) (\<lambda>r. case r of
                Ok _ \<Rightarrow> vreturn (Ok None)
              | Err e \<Rightarrow> vreturn (Ok (Some (Failed (message e)))))
          | Err e \<Rightarrow>
              if known e = Some NoStorageVolume then vreturn (Ok (Some NotInPool))
              else vreturn (Ok (Some (Failed (message e))))))"

fun delete_targets :: "'w libvirt \<Rightarrow> users \<Rightarrow> Target list \<Rightarrow> Removal \<Rightarrow> ('w, Removal, Error) virt" where
  "delete_targets L us [] report = vreturn (Ok report)"
| "delete_targets L us (t # ts) report =
     vbind (delete_target L us t) (\<lambda>reason.
       delete_targets L us ts (case reason of
         None \<Rightarrow> report\<lparr>removed := removed report @ [t_path t]\<rparr>
       | Some why \<Rightarrow> report\<lparr>skipped := skipped report @ [(t_path t, why)]\<rparr>))"

definition STARTED_MEANWHILE :: string where
  "STARTED_MEANWHILE = ''the VM started during the delete: libvirt removed its definition, but it runs until it stops, and every disk stays''"

text \<open>After the undefine: the domain must be gone before a disk may go.\<close>

definition finish_delete ::
    "'w libvirt \<Rightarrow> uuid \<Rightarrow> domain \<Rightarrow> users \<Rightarrow> Target list \<Rightarrow> Removal \<Rightarrow> ('w, Removal, Error) virt" where
  "finish_delete L i d us targets report =
     vbind (verr Libvirt (undefine L d)) (\<lambda>_.
     vtry (ask (lv_handle L) (LookupDomain i)) (\<lambda>r. case r of
       Ok _ \<Rightarrow> vreturn (Err (WrongState STARTED_MEANWHILE))
     | Err e \<Rightarrow>
         if known e = Some NoDomain then delete_targets L us targets report
         else vreturn (Err (Libvirt e))))"

text \<open>The two blocks before it: the files of the domain's disks, and who else has them.\<close>

definition delete_candidates ::
    "'w libvirt \<Rightarrow> xmltree \<Rightarrow> fs \<Rightarrow> domain \<Rightarrow> bool \<Rightarrow> ('w, Target list \<times> Removal, Error) virt" where
  "delete_candidates L X F d remove_volumes =
     (if remove_volumes
      then vbind (ask_e (lv_text L) (DomainXml d Saved)) (\<lambda>xml.
        case domain_disks X xml of
          Err e \<Rightarrow> vreturn (Err (XmlFailed e))
        | Ok ds \<Rightarrow> resolve L F ds [] removal_default)
      else vreturn (Ok ([], removal_default)))"

definition delete_users :: "'w libvirt \<Rightarrow> xmltree \<Rightarrow> fs \<Rightarrow> uuid \<Rightarrow> Target list \<Rightarrow> ('w, users, Error) virt" where
  "delete_users L X F i targets =
     (if targets = [] then vreturn (Ok [])
      else vbind (ask_e (lv_handles L) ListDomains) (\<lambda>ds. paths_of_other_domains L X F ds i []))"

definition vm_delete_on :: "'w libvirt \<Rightarrow> xmltree \<Rightarrow> fs \<Rightarrow> uuid \<Rightarrow> bool \<Rightarrow> ('w, Removal, Error) virt" where
  "vm_delete_on L X F i remove_volumes =
     vbind (ask_e (lv_handle L) (LookupDomain i)) (\<lambda>d.
     vbind (ask_e (lv_bool L) (DomainIsActive d)) (\<lambda>active.
       if active then vreturn (Err (WrongState ''shut the VM down first''))
       else
         vbind (delete_candidates L X F d remove_volumes) (\<lambda>(targets, report).
         vbind (delete_users L X F i targets)
           (\<lambda>us. finish_delete L i d us targets report))))"

definition vm_delete ::
    "'w libvirt \<Rightarrow> xmltree \<Rightarrow> fs \<Rightarrow> ustr option \<Rightarrow> uuid \<Rightarrow> bool \<Rightarrow> ('w, Removal, Error) virt" where
  "vm_delete L X F task_failed i remove_volumes = job task_failed (vm_delete_on L X F i remove_volumes)"

section \<open>Reading changes nothing\<close>

lemma reads_path_of: "reads_only (path_of L s)"
  by (cases s) (auto intro!: makes_intros)

lemma reads_resolve: "reads_only (resolve L F ds ts report)"
  by (induction ds arbitrary: ts report) (auto intro!: makes_intros reads_path_of split: option.splits)

lemma reads_disks_config: "reads_only (disks_config L d i)"
  unfolding disks_config_def by (intro makes_intros) auto

lemma reads_add_disks: "reads_only (add_disks L F name ds us)"
  by (induction ds arbitrary: us) (auto intro!: makes_intros reads_path_of split: option.splits)

lemma reads_add_xmls: "reads_only (add_xmls L X F name xmls us)"
  by (induction xmls arbitrary: us) (auto intro!: makes_intros reads_add_disks split: result.splits)

lemma reads_paths_of_other_domains: "reads_only (paths_of_other_domains L X F ds i us)"
proof (induction ds arbitrary: us)
  case (Cons d ds)
  then show ?case
    by (auto intro!: makes_intros reads_disks_config reads_add_xmls split: result.splits option.splits prod.splits)
qed (auto intro: makes_intros)

section \<open>What a delete may remove\<close>

text \<open>
  A target that may go: it is not shared, and no other domain has its file. \<open>deletes_of\<close> is what the
  trace of a loop over targets may hold: a volume is deleted only right after it was looked up by the
  path of such a target.
\<close>

definition may_go :: "users \<Rightarrow> Target \<Rightarrow> bool" where
  "may_go us t \<longleftrightarrow> \<not> t_shared t \<and> hm_get us (t_key t) = None"

lemma delete_target_trace:
  assumes "delete_target L us t s = (r, s')"
  shows "(\<not> may_go us t \<and> s' = s \<and> (\<exists>why. r = Ok (Some why))) \<or>
    (may_go us t \<and> ((\<exists>e why. r = Ok (Some why) \<and> trace s' = trace s @ [(LookupVolByPath (t_path t), Some e)]) \<or>
      (\<exists>v e x. r = Ok x \<and> (x = None \<longleftrightarrow> e = None) \<and>
         trace s' = trace s @ [(LookupVolByPath (t_path t), None), (VolDelete v, e)])))"
  using assms
  by (auto simp: delete_target_def may_go_def vtry_def ask_def vreturn_def
      split: if_splits option.splits prod.splits result.splits)

lemma delete_target_Ok: "\<exists>x s'. delete_target L us t s = (Ok x, s')"
  using delete_target_trace [of L us t s] by (metis prod.exhaust)

text \<open>The loop reports every target once, in order, as removed or as skipped.\<close>

lemma delete_targets_report:
  assumes "delete_targets L us ts report s = (r, s')"
  shows "\<exists>rep xs. r = Ok rep \<and> length xs = length ts \<and>
    removed rep = removed report @ map t_path (map fst (filter (\<lambda>(t, x). x = None) (zip ts xs))) \<and>
    skipped rep = skipped report @ map (\<lambda>(t, x). (t_path t, the x)) (filter (\<lambda>(t, x). x \<noteq> None) (zip ts xs)) \<and>
    (\<forall>(t, x)\<in>set (zip ts xs). x = None \<longrightarrow> may_go us t)"
  using assms
proof (induction ts arbitrary: report s)
  case (Cons t ts)
  obtain x s1 where t: "delete_target L us t s = (Ok x, s1)"
    using delete_target_Ok by blast
  let ?rep = "case x of None \<Rightarrow> report\<lparr>removed := removed report @ [t_path t]\<rparr>
    | Some why \<Rightarrow> report\<lparr>skipped := skipped report @ [(t_path t, why)]\<rparr>"
  have "delete_targets L us ts ?rep s1 = (r, s')"
    using Cons.prems t by (simp add: vbind_def)
  from Cons.IH [OF this] obtain rep xs where ih: "r = Ok rep" "length xs = length ts"
      "removed rep = removed ?rep @ map t_path (map fst (filter (\<lambda>(t, x). x = None) (zip ts xs)))"
      "skipped rep = skipped ?rep @ map (\<lambda>(t, x). (t_path t, the x)) (filter (\<lambda>(t, x). x \<noteq> None) (zip ts xs))"
      "\<forall>(t, x)\<in>set (zip ts xs). x = None \<longrightarrow> may_go us t"
    by blast
  moreover have "x = None \<Longrightarrow> may_go us t"
    using delete_target_trace [OF t] by auto
  ultimately show ?case
    by (intro exI [of _ rep] exI [of _ "x # xs"]) (cases x; auto)
qed (auto simp: vreturn_def)

text \<open>
  In a trace that is guarded in this sense, a volume is deleted only right after it was found by the path
  of a target that may go.
\<close>

definition deletes_guarded :: "users \<Rightarrow> Target list \<Rightarrow> (call \<times> virt_error option) list \<Rightarrow> bool" where
  "deletes_guarded us ts new \<longleftrightarrow>
     (\<forall>k v e. k < length new \<and> new ! k = (VolDelete v, e) \<longrightarrow>
       0 < k \<and> (\<exists>t\<in>set ts. may_go us t \<and> new ! (k - 1) = (LookupVolByPath (t_path t), None)))"

lemma deletes_guarded_append:
  assumes "deletes_guarded us ts a" and "deletes_guarded us ts b"
  shows "deletes_guarded us ts (a @ b)"
  unfolding deletes_guarded_def
proof (intro allI impI, elim conjE)
  fix k v e assume k: "k < length (a @ b)" "(a @ b) ! k = (VolDelete v, e)"
  show "0 < k \<and> (\<exists>t\<in>set ts. may_go us t \<and> (a @ b) ! (k - 1) = (LookupVolByPath (t_path t), None))"
  proof (cases "k < length a")
    case True
    then show ?thesis
      using assms(1) [unfolded deletes_guarded_def, rule_format, of k v e] k by (auto simp: nth_append)
  next
    case False
    then have b: "k - length a < length b" "b ! (k - length a) = (VolDelete v, e)"
      using k by (auto simp: nth_append)
    then have "0 < k - length a" and
        "\<exists>t\<in>set ts. may_go us t \<and> b ! (k - length a - 1) = (LookupVolByPath (t_path t), None)"
      using assms(2) [unfolded deletes_guarded_def, rule_format, of "k - length a" v e] by blast+
    then show ?thesis
      by (auto simp: nth_append)
  qed
qed

lemma deletes_guarded_none: "list_all (\<lambda>(c, e). \<forall>v. c \<noteq> VolDelete v) a \<Longrightarrow> deletes_guarded us ts a"
  unfolding deletes_guarded_def by (fastforce simp: list_all_length)

lemma deletes_guarded_mono: "deletes_guarded us ts a \<Longrightarrow> set ts \<subseteq> set ts' \<Longrightarrow> deletes_guarded us ts' a"
  unfolding deletes_guarded_def by blast

lemma delete_target_guarded:
  assumes "delete_target L us t s = (r, s')"
  shows "\<exists>new. trace s' = trace s @ new \<and> deletes_guarded us [t] new"
proof -
  consider "trace s' = trace s @ []" | e where "trace s' = trace s @ [(LookupVolByPath (t_path t), Some e)]"
    | v e where "may_go us t" "trace s' = trace s @ [(LookupVolByPath (t_path t), None), (VolDelete v, e)]"
    using delete_target_trace [OF assms] by auto
  then show ?thesis
  proof cases
    case 1
    then show ?thesis by (intro exI [of _ "[]"]) (simp add: deletes_guarded_none)
  next
    case (2 e)
    then show ?thesis
      by (intro exI [of _ "[(LookupVolByPath (t_path t), Some e)]"]) (simp add: deletes_guarded_none)
  next
    case (3 v e)
    then show ?thesis
      by (intro exI [of _ "[(LookupVolByPath (t_path t), None), (VolDelete v, e)]"])
        (auto simp: deletes_guarded_def less_Suc_eq)
  qed
qed

lemma delete_targets_trace:
  assumes "delete_targets L us ts report s = (r, s')"
  shows "\<exists>new. trace s' = trace s @ new \<and> deletes_guarded us ts new"
  using assms
proof (induction ts arbitrary: report s)
  case (Cons t ts)
  obtain x s1 where t: "delete_target L us t s = (Ok x, s1)"
    using delete_target_Ok by blast
  have "\<exists>rep. delete_targets L us ts rep s1 = (r, s')"
    using Cons.prems t by (auto simp: vbind_def)
  then obtain new where new: "trace s' = trace s1 @ new" "deletes_guarded us ts new"
    using Cons.IH by blast
  obtain pre where pre: "trace s1 = trace s @ pre" "deletes_guarded us [t] pre"
    using delete_target_guarded [OF t] by blast
  have "deletes_guarded us (t # ts) (pre @ new)"
    using pre new by (intro deletes_guarded_append) (auto elim: deletes_guarded_mono)
  then show ?case using pre new by (intro exI [of _ "pre @ new"]) auto
qed (auto simp: vreturn_def intro: deletes_guarded_none)

text \<open>
  The delete in two halves: the plan only reads, and the rest undefines the domain and then works
  through the targets.
\<close>

definition delete_plan ::
    "'w libvirt \<Rightarrow> xmltree \<Rightarrow> fs \<Rightarrow> uuid \<Rightarrow> bool \<Rightarrow> ('w, domain \<times> users \<times> Target list \<times> Removal, Error) virt" where
  "delete_plan L X F i remove_volumes =
     vbind (ask_e (lv_handle L) (LookupDomain i)) (\<lambda>d.
     vbind (ask_e (lv_bool L) (DomainIsActive d)) (\<lambda>active.
       if active then vreturn (Err (WrongState ''shut the VM down first''))
       else
         vbind (delete_candidates L X F d remove_volumes) (\<lambda>(targets, report).
         vbind (delete_users L X F i targets)
           (\<lambda>us. vreturn (Ok (d, us, targets, report))))))"

lemma vbind_assoc: "vbind (vbind m f) g = vbind m (\<lambda>a. vbind (f a) g)"
  by (rule ext) (simp add: vbind_def split: prod.splits result.splits)

lemma vbind_if: "vbind (if b then m else n) f = (if b then vbind m f else vbind n f)"
  by simp

lemma vbind_return: "vbind (vreturn (Ok a)) f = f a" "vbind (vreturn (Err e)) f = vreturn (Err e)"
  by (rule ext, simp add: vbind_def vreturn_def)+

lemma vm_delete_on_plan:
  "vm_delete_on L X F i rv =
     vbind (delete_plan L X F i rv) (\<lambda>(d, us, targets, report). finish_delete L i d us targets report)"
  unfolding vm_delete_on_def delete_plan_def vbind_assoc vbind_if vbind_return split_def fst_conv snd_conv
  by simp

lemma reads_delete_candidates: "reads_only (delete_candidates L X F d rv)"
  unfolding delete_candidates_def by (auto intro!: makes_intros reads_resolve split: result.splits)

lemma reads_delete_users: "reads_only (delete_users L X F i ts)"
  unfolding delete_users_def by (auto intro!: makes_intros reads_paths_of_other_domains)

lemma reads_delete_plan: "reads_only (delete_plan L X F i rv)"
  unfolding delete_plan_def
  by (intro makes_intros) (auto intro!: makes_intros reads_delete_candidates reads_delete_users)

lemma undefine_trace:
  assumes "undefine L d s = (r, s')"
  shows "\<exists>new. trace s' = trace s @ new \<and> new \<noteq> [] \<and> list_all (\<lambda>(c, _). \<exists>b. c = DomainUndefine d b) new \<and>
    (\<forall>u. r = Ok u \<longrightarrow> snd (last new) = None)"
  using assms
  by (auto simp: undefine_def vtry_def ask_def vreturn_def split: prod.splits result.splits if_splits)

lemma finish_delete_trace:
  assumes "finish_delete L i d us ts report s = (r, s')"
  shows "\<exists>undefs rest. trace s' = trace s @ undefs @ rest \<and> undefs \<noteq> [] \<and>
    list_all (\<lambda>(c, _). \<exists>b. c = DomainUndefine d b) undefs \<and>
    (rest = [] \<or> (\<exists>x dels. rest = (LookupDomain i, x) # dels \<and> snd (last undefs) = None \<and>
       (dels = [] \<or> (\<exists>e. x = Some e \<and> known e = Some NoDomain)) \<and> deletes_guarded us ts dels))"
proof -
  obtain ru s1 where u: "undefine L d s = (ru, s1)" by fastforce
  from undefine_trace [OF this] obtain undefs where undefs: "trace s1 = trace s @ undefs" "undefs \<noteq> []"
      "list_all (\<lambda>(c, _). \<exists>b. c = DomainUndefine d b) undefs" "\<forall>x. ru = Ok x \<longrightarrow> snd (last undefs) = None"
    by (elim exE conjE)
  show ?thesis
  proof (cases ru)
    case (Err e)
    with assms u undefs show ?thesis
      by (intro exI [of _ undefs] exI [of _ "[]"]) (auto simp: finish_delete_def vbind_def verr_def)
  next
    case (Ok x)
    obtain rl s2 where l: "ask (lv_handle L) (LookupDomain i) s1 = (rl, s2)" by fastforce
    have t2: "trace s2 = trace s1 @ [(LookupDomain i, case rl of Ok _ \<Rightarrow> None | Err e \<Rightarrow> Some e)]"
      using l by (auto simp: ask_def split: prod.splits)
    have "\<exists>dels. trace s' = trace s2 @ dels \<and> (dels = [] \<or> (\<exists>e. rl = Err e \<and> known e = Some NoDomain)) \<and>
        deletes_guarded us ts dels"
    proof (cases "\<exists>e. rl = Err e \<and> known e = Some NoDomain")
      case True
      then have "delete_targets L us ts report s2 = (r, s')"
        using assms u Ok l by (auto simp: finish_delete_def vbind_def verr_def vtry_def)
      from delete_targets_trace [OF this] True show ?thesis by blast
    next
      case False
      then have "s' = s2"
        using assms u Ok l
        by (auto simp: finish_delete_def vbind_def verr_def vtry_def vreturn_def split: result.splits if_splits)
      then show ?thesis by (auto intro: deletes_guarded_none)
    qed
    then obtain dels where dels: "trace s' = trace s2 @ dels" "deletes_guarded us ts dels"
        "dels = [] \<or> (\<exists>e. rl = Err e \<and> known e = Some NoDomain)"
      by blast
    let ?x = "case rl of Ok _ \<Rightarrow> None | Err e \<Rightarrow> Some e"
    have "dels = [] \<or> (\<exists>e. ?x = Some e \<and> known e = Some NoDomain)"
      using dels(3) by auto
    then show ?thesis
      using dels undefs Ok t2
      by (intro exI [of _ undefs] exI [of _ "(LookupDomain i, ?x) # dels"]) auto
  qed
qed

text \<open>
  A trace with the order of a delete: everything before the deletes is read, then the domain is undefined,
  then it is looked up and is not there.
\<close>

lemma vm_delete_on_guarded:
  assumes del: "vm_delete_on L X F i rv s = (r, s')" and tr: "trace s' = trace s @ new"
    and k: "k < length new" "new ! k = (VolDelete v, e)"
  shows "\<exists>d us ts rep s1 t j l b e'. delete_plan L X F i rv s = (Ok (d, us, ts, rep), s1) \<and>
    t \<in> set ts \<and> may_go us t \<and> j < l \<and> l + 1 < k \<and> new ! j = (DomainUndefine d b, None) \<and>
    new ! l = (LookupDomain i, Some e') \<and> known e' = Some NoDomain \<and>
    new ! (k - 1) = (LookupVolByPath (t_path t), None)"
proof -
  obtain rp s1 where p: "delete_plan L X F i rv s = (rp, s1)" by fastforce
  obtain pre where pre: "trace s1 = trace s @ pre" "list_all (\<lambda>c. \<not> mutating (fst c)) pre"
    using makesD [OF reads_delete_plan p] by blast
  have no_vol: "c \<noteq> (VolDelete v, e)" if "c \<in> set pre" for c
    using pre(2) that by (auto simp: list_all_iff)
  have not_pre: "\<not> k < length pre" if "new = pre @ more" for more
    using that k no_vol by (metis nth_append nth_mem)
  show ?thesis
  proof (cases rp)
    case (Err x)
    then have "s' = s1"
      using del p by (simp add: vm_delete_on_plan vbind_def)
    then show ?thesis using not_pre [of "[]"] tr pre k by simp
  next
    case (Ok q)
    obtain d us ts rep where q: "q = (d, us, ts, rep)" by (cases q)
    have "finish_delete L i d us ts rep s1 = (r, s')"
      using del p Ok q by (simp add: vm_delete_on_plan vbind_def)
    from finish_delete_trace [OF this] obtain undefs rest where f: "trace s' = trace s1 @ undefs @ rest" "undefs \<noteq> []"
      "list_all (\<lambda>(c, _). \<exists>b. c = DomainUndefine d b) undefs"
      "rest = [] \<or> (\<exists>x dels. rest = (LookupDomain i, x) # dels \<and> snd (last undefs) = None \<and>
         (dels = [] \<or> (\<exists>e. x = Some e \<and> known e = Some NoDomain)) \<and> deletes_guarded us ts dels)"
      by (elim exE conjE)
    have new: "new = pre @ undefs @ rest"
      using tr pre f by simp
    have "\<not> (k - length pre) < length undefs"
      using f(3) k new not_pre [OF new] by (auto simp: list_all_length nth_append)
    then have past: "length pre + length undefs \<le> k" and at: "rest ! (k - length pre - length undefs) = (VolDelete v, e)"
        "k - length pre - length undefs < length rest"
      using k new not_pre [OF new] by (auto simp: nth_append)
    then obtain x dels where rest: "rest = (LookupDomain i, x) # dels" "snd (last undefs) = None"
        "dels = [] \<or> (\<exists>e. x = Some e \<and> known e = Some NoDomain)" "deletes_guarded us ts dels"
      using f(4) by auto
    define m where "m = k - length pre - length undefs - 1"
    have km: "k = length pre + length undefs + 1 + m" and m: "m < length dels" "dels ! m = (VolDelete v, e)"
      using past at rest(1) unfolding m_def by (auto simp: nth_Cons' split: if_splits)
    obtain t where t: "0 < m" "t \<in> set ts" "may_go us t" "dels ! (m - 1) = (LookupVolByPath (t_path t), None)"
      using rest(4) m unfolding deletes_guarded_def by blast
    obtain e' where e': "x = Some e'" "known e' = Some NoDomain"
      using rest(3) m by auto
    have "\<exists>b. last undefs = (DomainUndefine d b, None)"
      using f(2,3) rest(2) by (cases "last undefs") (auto simp: list_all_iff dest!: last_in_set)
    then obtain b where b: "undefs ! (length undefs - 1) = (DomainUndefine d b, None)"
      using f(2) by (auto simp: last_conv_nth)
    have pos: "0 < length undefs" using f(2) by simp
    let ?j = "length pre + (length undefs - 1)" and ?l = "length pre + length undefs"
    have "new ! ?j = (DomainUndefine d b, None)" "new ! ?l = (LookupDomain i, Some e')"
        "new ! (k - 1) = (LookupVolByPath (t_path t), None)"
      using new b pos rest(1) e' t(1,4) km by (auto simp: nth_append nth_Cons')
    moreover have "?j < ?l" "?l + 1 < k"
      using pos t(1) km by auto
    ultimately show ?thesis
      using p Ok q t e' by blast
  qed
qed

section \<open>The table of the other domains' files\<close>

text \<open>
  When the reads do not change the host, the table is complete: it has the file of every disk of every
  other domain.
\<close>

lemma steady_path_of: "quiet_reads L w \<Longrightarrow> steady w (path_of L src)"
  by (cases src) (auto simp: quiet_reads_def intro!: steady_intros)

lemma steady_disks_config: "quiet_reads L w \<Longrightarrow> steady w (disks_config L d i)"
  unfolding disks_config_def by (intro steady_intros) (auto simp: quiet_reads_def)

lemma steady_resolve: "quiet_reads L w \<Longrightarrow> steady w (resolve L F ds ts report)"
  by (induction ds arbitrary: ts report) (auto intro!: steady_intros steady_path_of split: option.splits)

lemma steady_add_disks: "quiet_reads L w \<Longrightarrow> steady w (add_disks L F name ds us)"
  by (induction ds arbitrary: us) (auto intro!: steady_intros steady_path_of split: option.splits)

lemma steady_add_xmls: "quiet_reads L w \<Longrightarrow> steady w (add_xmls L X F name xmls us)"
  by (induction xmls arbitrary: us) (auto intro!: steady_intros steady_add_disks split: result.splits)

lemma steady_paths_of_other_domains: "quiet_reads L w \<Longrightarrow> steady w (paths_of_other_domains L X F ds i us)"
proof (induction ds arbitrary: us)
  case (Cons d ds)
  then show ?case
    by (auto intro!: steady_intros steady_disks_config steady_add_xmls split: result.splits option.splits prod.splits)
qed (auto intro: steady_intros)

lemma add_user_has: "hm_get (add_user key name us) key \<noteq> None"
  by (simp add: add_user_def hm.get_insert)

lemma add_user_keeps: "hm_get us key \<noteq> None \<Longrightarrow> hm_get (add_user key' name us) key \<noteq> None"
  by (simp add: add_user_def hm.get_insert)

lemma add_disks_complete:
  assumes q: "quiet_reads L w" and "answer w (add_disks L F name ds us) = Ok us'"
  shows "(\<forall>key. hm_get us key \<noteq> None \<longrightarrow> hm_get us' key \<noteq> None) \<and>
    (\<forall>d\<in>set ds. \<forall>p. answer w (path_of L (source d)) = (Ok (Some p) :: (_, Error) result) \<longrightarrow>
       hm_get us' (canonical F p) \<noteq> None)"
  using assms(2)
proof (induction ds arbitrary: us)
  case (Cons d ds)
  let ?f = "\<lambda>path. add_disks L F name ds (case path of Some p \<Rightarrow> add_user (canonical F p) name us | None \<Rightarrow> us)"
  have "answer w (vbind (path_of L (source d)) ?f) =
      (case answer w (path_of L (source d)) of Ok a \<Rightarrow> answer w (?f a) | Err e \<Rightarrow> Err e)"
    by (rule answer_bind [OF steady_path_of [OF q] steady_add_disks [OF q]])
  with Cons.prems obtain path where path: "answer w (path_of L (source d)) = (Ok path :: (_, Error) result)"
      and rest: "answer w (?f path) = Ok us'"
    by (auto split: result.splits)
  note ih = Cons.IH [OF rest]
  show ?case
  proof (cases path)
    case None
    with ih path show ?thesis by auto
  next
    case (Some a)
    have "hm_get us' key \<noteq> None" if "hm_get us key \<noteq> None" for key
      using ih Some add_user_keeps [OF that] by simp
    moreover have "hm_get us' (canonical F a) \<noteq> None"
      using ih Some add_user_has [of "canonical F a" name us] by simp
    ultimately show ?thesis
      using ih path Some by auto
  qed
qed auto

lemma add_xmls_complete:
  assumes q: "quiet_reads L w" and "answer w (add_xmls L X F name xmls us) = Ok us'"
  shows "(\<forall>key. hm_get us key \<noteq> None \<longrightarrow> hm_get us' key \<noteq> None) \<and>
    (\<forall>xml\<in>set xmls. \<forall>ds d p. domain_disks X xml = Ok ds \<longrightarrow> d \<in> set ds \<longrightarrow>
       answer w (path_of L (source d)) = (Ok (Some p) :: (_, Error) result) \<longrightarrow> hm_get us' (canonical F p) \<noteq> None)"
  using assms(2)
proof (induction xmls arbitrary: us)
  case (Cons xml xmls)
  then obtain ds where ds: "domain_disks X xml = Ok ds"
    by (auto split: result.splits)
  have "answer w (vbind (add_disks L F name ds us) (\<lambda>us. add_xmls L X F name xmls us)) = Ok us'"
    using Cons.prems ds by simp
  then obtain us1 where us1: "answer w (add_disks L F name ds us) = Ok us1" "answer w (add_xmls L X F name xmls us1) = Ok us'"
    unfolding answer_bind [OF steady_add_disks [OF q] steady_add_xmls [OF q]] by (auto split: result.splits)
  show ?case
    using add_disks_complete [OF q us1(1)] Cons.IH [OF us1(2)] ds by fastforce
qed auto

text \<open>The disks of another domain, as the delete reads them: its saved XML, and the live one if it runs.\<close>

definition other_disk :: "'w libvirt \<Rightarrow> xmltree \<Rightarrow> 'w \<Rightarrow> uuid \<Rightarrow> domain \<Rightarrow> ustr \<Rightarrow> bool" where
  "other_disk L X w i d p \<longleftrightarrow> (\<exists>name xmls xml ds disk. answer w (disks_config L d i) = Ok (Some (name, xmls)) \<and>
     xml \<in> set xmls \<and> domain_disks X xml = Ok ds \<and> disk \<in> set ds \<and>
     answer w (path_of L (source disk)) = (Ok (Some p) :: (_, Error) result))"

lemma paths_complete:
  assumes q: "quiet_reads L w" and "answer w (paths_of_other_domains L X F ds i us) = Ok us'"
  shows "(\<forall>key. hm_get us key \<noteq> None \<longrightarrow> hm_get us' key \<noteq> None) \<and>
    (\<forall>d\<in>set ds. \<forall>p. other_disk L X w i d p \<longrightarrow> hm_get us' (canonical F p) \<noteq> None)"
  using assms(2)
proof (induction ds arbitrary: us)
  case (Cons d ds)
  let ?k = "\<lambda>r. case r of
         Ok (Some (name, xmls)) \<Rightarrow>
           vbind (add_xmls L X F name xmls us) (\<lambda>us. paths_of_other_domains L X F ds i us)
       | Ok None \<Rightarrow> paths_of_other_domains L X F ds i us
       | Err e \<Rightarrow>
           if known e = Some NoDomain then paths_of_other_domains L X F ds i us
           else vreturn (Err (Libvirt e))"
  have st: "steady w (?k r)" for r
    using q by (auto intro!: steady_intros steady_add_xmls steady_paths_of_other_domains split: result.splits option.splits)
  have k: "answer w (?k (answer w (disks_config L d i))) = Ok us'"
    using Cons.prems unfolding paths_of_other_domains.simps answer_try [OF steady_disks_config [OF q] st] .
  show ?case
  proof (cases "\<exists>name xmls. answer w (disks_config L d i) = Ok (Some (name, xmls))")
    case True
    then obtain name xmls where c: "answer w (disks_config L d i) = Ok (Some (name, xmls))" by blast
    then obtain us1 where us1: "answer w (add_xmls L X F name xmls us) = Ok us1"
        "answer w (paths_of_other_domains L X F ds i us1) = Ok us'"
      using k unfolding c
      by (auto simp: answer_bind [OF steady_add_xmls [OF q] steady_paths_of_other_domains [OF q]] split: result.splits)
    show ?thesis
      using add_xmls_complete [OF q us1(1)] Cons.IH [OF us1(2)] c by (fastforce simp: other_disk_def)
  next
    case False
    then have "answer w (paths_of_other_domains L X F ds i us) = Ok us'"
      using k by (auto split: result.splits option.splits if_splits)
    with Cons.IH False show ?thesis
      by (auto simp: other_disk_def)
  qed
qed auto

lemma steady_delete_candidates: "quiet_reads L w \<Longrightarrow> steady w (delete_candidates L X F d rv)"
  unfolding delete_candidates_def
  by (auto simp: quiet_reads_def intro!: steady_intros steady_resolve split: result.splits)

lemma delete_users_complete:
  assumes q: "quiet_reads L (world s)" and "delete_users L X F i ts s = (Ok us, s')" and "ts \<noteq> []"
  shows "\<exists>ds. fst (lv_handles L ListDomains (world s)) = Ok ds \<and>
    (\<forall>other\<in>set ds. \<forall>p. other_disk L X (world s) i other p \<longrightarrow> hm_get us (canonical F p) \<noteq> None)"
proof -
  obtain ds s1 where ds: "ask_e (lv_handles L) ListDomains s = (Ok ds, s1)"
      and p: "paths_of_other_domains L X F ds i [] s1 = (Ok us, s')"
    using assms(2,3) unfolding delete_users_def by (auto elim: vbind_OkE)
  have "fst (lv_handles L ListDomains (world s)) = Ok ds"
    using ds by (auto simp: ask_e_def verr_def ask_def split: prod.splits result.splits)
  moreover have "world s1 = world s"
    using steadyD(2) [OF quiet_reads_steady(3) [OF q] refl ds] by simp
  then have "answer (world s) (paths_of_other_domains L X F ds i []) = Ok us"
    using steadyD(1) [OF steady_paths_of_other_domains [OF q] _ p] by simp
  ultimately show ?thesis
    using paths_complete [OF q] by blast
qed

lemma resolve_keys:
  assumes "resolve L F ds ts report s = (Ok (ts', report'), s')" and "\<forall>t\<in>set ts. t_key t = canonical F (t_path t)"
  shows "\<forall>t\<in>set ts'. t_key t = canonical F (t_path t)"
  using assms
proof (induction ds arbitrary: ts report s)
  case (Cons d ds)
  obtain r :: "(ustr option, Error) result" and s1 where "path_of L (source d) s = (r, s1)" by fastforce
  with Cons.prems(1) obtain path where r: "r = Ok path"
    by (cases r) (auto simp: vbind_def)
  show ?case
  proof (cases path)
    case None
    then show ?thesis
      using Cons.prems Cons.IH \<open>path_of L (source d) s = (r, s1)\<close> r by (auto simp: vbind_def)
  next
    case (Some p)
    then have "resolve L F ds (ts @ [\<lparr>t_path = p, t_key = canonical F p, t_shared = shared d\<rparr>]) report s1 =
        (Ok (ts', report'), s')"
      using Cons.prems(1) \<open>path_of L (source d) s = (r, s1)\<close> r by (simp add: vbind_def)
    then show ?thesis
      by (rule Cons.IH) (use Cons.prems(2) in auto)
  qed
qed (auto simp: vreturn_def)

text \<open>The plan of a delete on a host that does not change meanwhile.\<close>

lemma delete_plan_sound:
  assumes q: "quiet_reads L (world s)" and p: "delete_plan L X F i rv s = (Ok (d, us, ts, rep), s1)" and "t \<in> set ts"
  shows "rv \<and> t_key t = canonical F (t_path t) \<and>
    (\<exists>ds. fst (lv_handles L ListDomains (world s)) = Ok ds \<and>
      (\<forall>other\<in>set ds. \<forall>q. other_disk L X (world s) i other q \<longrightarrow> hm_get us (canonical F q) \<noteq> None))"
proof -
  let ?w = "world s"
  obtain s2 s3 active where d: "ask_e (lv_handle L) (LookupDomain i) s = (Ok d, s2)"
      and a: "ask_e (lv_bool L) (DomainIsActive d) s2 = (Ok active, s3)"
      and r: "vbind (delete_candidates L X F d rv) (\<lambda>(targets, report).
         vbind (delete_users L X F i targets) (\<lambda>us. vreturn (Ok (d, us, targets, report)))) s3 =
         (Ok (d, us, ts, rep), s1)"
    using p unfolding delete_plan_def
    by (elim vbind_OkE) (auto simp: vreturn_def vbind_def split: if_splits prod.splits result.splits)
  then obtain s4 where c: "delete_candidates L X F d rv s3 = (Ok (ts, rep), s4)"
      and u: "delete_users L X F i ts s4 = (Ok us, s1)"
    by (auto elim!: vbind_OkE simp: vreturn_def)
  have "world s2 = ?w"
    using steadyD(2) [OF quiet_reads_steady(1) [OF q] refl d] by simp
  then have "world s3 = ?w"
    using steadyD(2) [OF quiet_reads_steady(2) [OF q] _ a] by simp
  then have s4: "world s4 = ?w"
    by (rule steadyD(2) [OF steady_delete_candidates [OF q] _ c])
  have "rv" and "t_key t = canonical F (t_path t)"
    using c \<open>t \<in> set ts\<close> unfolding delete_candidates_def
    by (auto simp: vreturn_def elim!: vbind_OkE split: if_splits result.splits dest!: resolve_keys)
  moreover have ne: "ts \<noteq> []" using \<open>t \<in> set ts\<close> by auto
  have "\<exists>ds. fst (lv_handles L ListDomains ?w) = Ok ds \<and>
      (\<forall>other\<in>set ds. \<forall>q. other_disk L X ?w i other q \<longrightarrow> hm_get us (canonical F q) \<noteq> None)"
    using delete_users_complete [OF _ u ne] q s4 by simp
  ultimately show ?thesis by blast
qed

text \<open>
  A VM's volume is deleted only when the caller asked for it, after libvirt confirmed the undefine, and
  after a second lookup showed that the domain is gone and so did not start meanwhile; and the volume is
  the one that libvirt found, in the call just before, under the path of one of the VM's own disks.
\<close>

theorem vm_delete_order:
  assumes "vm_delete_on L X F i rv s = (r, s')" and "trace s' = trace s @ new"
    and "k < length new" and "new ! k = (VolDelete v, e)"
  shows "\<exists>d us ts rep s1 t j l b e'. delete_plan L X F i rv s = (Ok (d, us, ts, rep), s1) \<and>
    t \<in> set ts \<and> may_go us t \<and> j < l \<and> l + 1 < k \<and> new ! j = (DomainUndefine d b, None) \<and>
    new ! l = (LookupDomain i, Some e') \<and> known e' = Some NoDomain \<and>
    new ! (k - 1) = (LookupVolByPath (t_path t), None)"
  using vm_delete_on_guarded [OF assms] .


subsection \<open>Witnesses\<close>

text \<open>
  A host with one defined domain that is off and has one disk in a pool; undefining the domain removes it.
\<close>

definition no_domain :: virt_error where
  "no_domain = \<lparr>known = Some NoDomain, message = lit ''Domain not found''\<rparr>"

definition example_host :: "bool libvirt" where
  "example_host = \<lparr>
     lv_unit = (\<lambda>c w. (Ok (), case c of DomainUndefine _ _ \<Rightarrow> False | _ \<Rightarrow> w)),
     lv_bool = (\<lambda>_ w. (Ok False, w)),
     lv_handle = (\<lambda>c w. (case c of LookupDomain _ \<Rightarrow> if w then Ok 1 else Err no_domain | _ \<Rightarrow> Ok 5, w)),
     lv_handles = (\<lambda>_ w. (Ok [1], w)),
     lv_text = (\<lambda>c w. (case c of DomainXml _ _ \<Rightarrow> Ok (xt_write xml_codec example_domain) | _ \<Rightarrow> Ok (lit ''/srv/web.qcow2''), w)),
     lv_uuid = (\<lambda>_ w. (Ok (Uuid 1), w)),
     lv_dominfo = (\<lambda>_ w. (Ok \<lparr>di_state = 5, di_memory = 0, di_vcpus = 1\<rparr>, w)),
     lv_poolinfo = (\<lambda>_ w. (Ok \<lparr>pi_state = 2, pi_capacity = 0, pi_allocation = 0, pi_available = 0\<rparr>, w)),
     lv_volinfo = (\<lambda>_ w. (Ok \<lparr>vi_kind = 0, vi_capacity = 0, vi_allocation = 0\<rparr>, w))\<rparr>"

lemma example_host_quiet: "quiet_reads example_host w"
  by (auto simp: quiet_reads_def example_host_def split: call.splits)

lemma example_delete:
  "vm_delete_on example_host xml_codec (\<lambda>_. None) (Uuid 1) True \<lparr>world = True, trace = []\<rparr> =
     (Ok \<lparr>removed = [lit ''/srv/web.qcow2''], skipped = []\<rparr>,
      \<lparr>world = False, trace =
        [(LookupDomain (Uuid 1), None), (DomainIsActive 1, None), (DomainXml 1 Saved, None),
         (LookupVolByPath (lit ''/srv/web.qcow2''), None), (VolPath 5, None), (ListDomains, None), (DomainUuid 1, None),
         (DomainUndefine 1 True, None), (LookupDomain (Uuid 1), Some no_domain),
         (LookupVolByPath (lit ''/srv/web.qcow2''), None), (VolDelete 5, None)]\<rparr>)"
  by code_simp

theorem vm_delete_order_witness:
  "\<exists>d us ts rep s1 t. delete_plan example_host xml_codec (\<lambda>_. None) (Uuid 1) True \<lparr>world = True, trace = []\<rparr> =
     (Ok (d, us, ts, rep), s1) \<and> t \<in> set ts \<and> may_go us t"
  using vm_delete_order [OF example_delete, where k = 10 and v = 5 and e = None] by auto


end
