(* ===== verification/Virt_Volume.thy ===== *)
theory Virt_Volume
  imports Virt_Scan Virt_Delete
begin

text \<open>
  \<^verbatim>\<open>lodger-virt/src/volume.rs\<close>: list, create and delete the volumes of a running pool, with the VMs and the
  qcow2 overlays that use each.
\<close>

section \<open>Model\<close>

definition POOL_VOLUMES :: int where
  "POOL_VOLUMES = -2"

record VolumeFacts =
  v_name :: ustr
  v_key :: ustr
  v_path :: ustr
  v_kind :: VolumeKind
  v_format :: "ustr option"
  v_capacity_bytes :: nat
  v_allocation_bytes :: nat
  v_used_by :: "ustr list"
  v_backing_for :: "ustr list"

record UseOf =
  use_key :: ustr
  use_by :: ustr

definition running_pool :: "'w libvirt \<Rightarrow> uuid \<Rightarrow> ('w, pool, Error) virt" where
  "running_pool L i =
     vbind (ask_e (lv_handle L) (LookupPool i)) (\<lambda>p.
     vbind (ask_e (lv_bool L) (PoolIsActive p)) (\<lambda>active.
       if active then vreturn (Ok p) else vreturn (Err (WrongState ''the pool is not running''))))"

fun read_volume_list :: "'w libvirt \<Rightarrow> xmltree \<Rightarrow> volume list \<Rightarrow> ('w, (volume \<times> VolumeXml) list, Error) virt" where
  "read_volume_list L X [] = vreturn (Ok [])"
| "read_volume_list L X (v # vs) =
     vbind (ask_e (lv_text L) (VolXml v)) (\<lambda>xml.
       case VolumeXml_parse X xml of
         Err e \<Rightarrow> vreturn (Err (XmlFailed e))
       | Ok vx \<Rightarrow> vbind (read_volume_list L X vs) (\<lambda>rest. vreturn (Ok ((v, vx) # rest))))"

definition read_volumes :: "'w libvirt \<Rightarrow> xmltree \<Rightarrow> pool \<Rightarrow> ('w, (volume \<times> VolumeXml) list, Error) virt" where
  "read_volumes L X p = vbind (ask_e (lv_handles L) (PoolVolumes p)) (read_volume_list L X)"

fun overlays_of :: "'w libvirt \<Rightarrow> xmltree \<Rightarrow> fs \<Rightarrow> (volume \<times> VolumeXml) list \<Rightarrow> ('w, UseOf list, Error) virt" where
  "overlays_of L X F [] = vreturn (Ok [])"
| "overlays_of L X F ((v, vx) # vs) =
     (case VolumeXml_backing_path X vx of
        None \<Rightarrow> overlays_of L X F vs
      | Some backing \<Rightarrow>
          vtry (ask (lv_text L) (VolName v)) (\<lambda>r.
          vbind (overlays_of L X F vs) (\<lambda>rest.
            vreturn (Ok (map (\<lambda>n. \<lparr>use_key = canonical F backing, use_by = n\<rparr>) (list_of_ok r) @ rest)))))"

fun uses_of_sources :: "'w libvirt \<Rightarrow> fs \<Rightarrow> ustr \<Rightarrow> DiskSource list \<Rightarrow> ('w, UseOf list, Error) virt" where
  "uses_of_sources L F vm [] = vreturn (Ok [])"
| "uses_of_sources L F vm (s # ss) =
     vbind (path_of L s) (\<lambda>path.
     vbind (uses_of_sources L F vm ss) (\<lambda>rest.
       vreturn (Ok (case path of Some p \<Rightarrow> \<lparr>use_key = canonical F p, use_by = vm\<rparr> # rest | None \<Rightarrow> rest))))"

definition sources_or_none :: "xmltree \<Rightarrow> ustr \<Rightarrow> DiskSource list" where
  "sources_or_none X xml = (case domain_disk_sources X xml of Ok ss \<Rightarrow> ss | Err _ \<Rightarrow> [])"

fun disks_of_domains :: "'w libvirt \<Rightarrow> xmltree \<Rightarrow> fs \<Rightarrow> domain list \<Rightarrow> ('w, UseOf list, Error) virt" where
  "disks_of_domains L X F [] = vreturn (Ok [])"
| "disks_of_domains L X F (d # ds) =
     vtry (ask (lv_text L) (DomainName d)) (\<lambda>r. case r of
       Err _ \<Rightarrow> disks_of_domains L X F ds
     | Ok vm \<Rightarrow>
         vbind (readable_xmls L d) (\<lambda>xmls.
         vbind (uses_of_sources L F vm (concat (map (sources_or_none X) xmls))) (\<lambda>uses.
         vbind (disks_of_domains L X F ds) (\<lambda>rest. vreturn (Ok (uses @ rest))))))"

definition disks_of_all_domains :: "'w libvirt \<Rightarrow> xmltree \<Rightarrow> fs \<Rightarrow> ('w, UseOf list, Error) virt" where
  "disks_of_all_domains L X F = vbind (ask_e (lv_handles L) ListDomains) (disks_of_domains L X F)"

text \<open>The users of a file among \<open>uses\<close>: a sorted list without repetition.\<close>

definition users_among :: "ustr \<Rightarrow> UseOf list \<Rightarrow> ustr list" where
  "users_among key uses = fold bt_insert (map use_by (filter (\<lambda>u. use_key u = key) uses)) []"

definition describe ::
    "'w libvirt \<Rightarrow> xmltree \<Rightarrow> fs \<Rightarrow> volume \<Rightarrow> VolumeXml \<Rightarrow> UseOf list \<Rightarrow> UseOf list \<Rightarrow> ('w, VolumeFacts, Error) virt" where
  "describe L X F v vx disks overlays =
     vbind (ask_e (lv_volinfo L) (VolInfo v)) (\<lambda>info.
     vbind (ask_e (lv_text L) (VolPath v)) (\<lambda>path.
     vbind (ask_e (lv_text L) (VolName v)) (\<lambda>name.
     vbind (ask_e (lv_text L) (VolKey v)) (\<lambda>key.
       vreturn (Ok \<lparr>v_name = name, v_key = key, v_path = path, v_kind = VolumeKind_from_code (vi_kind info),
         v_format = VolumeXml_format X vx, v_capacity_bytes = vi_capacity info, v_allocation_bytes = vi_allocation info,
         v_used_by = users_among (canonical F path) disks, v_backing_for = users_among (canonical F path) overlays\<rparr>)))))"

definition sort_by_name :: "VolumeFacts list \<Rightarrow> VolumeFacts list" where
  "sort_by_name vs = sort_key v_name vs"

definition volumes_on :: "'w libvirt \<Rightarrow> xmltree \<Rightarrow> fs \<Rightarrow> uuid \<Rightarrow> ('w, VolumeFacts list, Error) virt" where
  "volumes_on L X F i =
     vbind (running_pool L i) (\<lambda>p.
     vbind (ask_e (lv_unit L) (PoolRefresh p)) (\<lambda>_.
     vbind (disks_of_all_domains L X F) (\<lambda>disks.
     vbind (read_volumes L X p) (\<lambda>vs.
     vbind (overlays_of L X F vs) (\<lambda>overlays.
     vbind (vmap (\<lambda>(v, vx). describe L X F v vx disks overlays) vs) (\<lambda>out.
       vreturn (Ok (sort_by_name out))))))))"

definition volume_list :: "'w libvirt \<Rightarrow> xmltree \<Rightarrow> fs \<Rightarrow> ustr option \<Rightarrow> uuid \<Rightarrow> ('w, VolumeFacts list, Error) virt" where
  "volume_list L X F task_failed i = job task_failed (volumes_on L X F i)"

definition volume_names :: "'w libvirt \<Rightarrow> ustr option \<Rightarrow> uuid \<Rightarrow> ('w, ustr list, Error) virt" where
  "volume_names L task_failed i =
     job task_failed (
       vbind (running_pool L i) (\<lambda>p.
       vbind (ask_e (lv_unit L) (PoolRefresh p)) (\<lambda>_.
       vbind (ask_e (lv_handles L) (PoolVolumes p)) (vmap (\<lambda>v. ask_e (lv_text L) (VolName v))))))"

text \<open>A successful change sends Lodger's own pool event: the result is the list of events sent.\<close>

definition create_volume :: "'w libvirt \<Rightarrow> ustr option \<Rightarrow> uuid \<Rightarrow> ustr \<Rightarrow> ('w, Event list, Error) virt" where
  "create_volume L task_failed i xml =
     vbind (job task_failed (vbind (running_pool L i) (\<lambda>p.
       vbind (ask_e (lv_handle L) (VolCreate p xml)) (\<lambda>_. vreturn (Ok ()))))) (\<lambda>_.
     vreturn (Ok [EvPool i POOL_VOLUMES]))"

definition volume_delete_on :: "'w libvirt \<Rightarrow> xmltree \<Rightarrow> fs \<Rightarrow> uuid \<Rightarrow> ustr \<Rightarrow> ('w, unit, Error) virt" where
  "volume_delete_on L X F i name =
     vbind (running_pool L i) (\<lambda>p.
     vbind (ask_e (lv_handle L) (LookupVolByName p name)) (\<lambda>v.
     vbind (ask_e (lv_text L) (VolXml v)) (\<lambda>xml.
       case VolumeXml_parse X xml of
         Err e \<Rightarrow> vreturn (Err (XmlFailed e))
       | Ok vx \<Rightarrow>
           vbind (vbind (read_volumes L X p) (overlays_of L X F)) (\<lambda>overlays.
           vbind (disks_of_all_domains L X F) (\<lambda>disks.
           vbind (describe L X F v vx disks overlays) (\<lambda>facts.
             let users = v_used_by facts @ map (\<lambda>n. lit ''volume '' @ n) (v_backing_for facts) in
             if users \<noteq> [] then vreturn (Err (InUse users))
             else ask_e (lv_unit L) (VolDelete v)))))))"

definition delete_volume :: "'w libvirt \<Rightarrow> xmltree \<Rightarrow> fs \<Rightarrow> ustr option \<Rightarrow> uuid \<Rightarrow> ustr \<Rightarrow> ('w, Event list, Error) virt" where
  "delete_volume L X F task_failed i name =
     vbind (job task_failed (volume_delete_on L X F i name)) (\<lambda>_. vreturn (Ok [EvPool i POOL_VOLUMES]))"

section \<open>Reading changes nothing\<close>

lemma reads_running_pool: "reads_only (running_pool L i)"
  unfolding running_pool_def by (auto intro!: makes_intros)

lemma reads_read_volumes: "reads_only (read_volumes L X p)"
proof -
  have "reads_only (read_volume_list L X vs)" for vs
    by (induction vs) (auto intro!: makes_intros split: result.splits)
  then show ?thesis unfolding read_volumes_def by (intro makes_intros) auto
qed

lemma reads_overlays_of: "reads_only (overlays_of L X F vs)"
  by (induction vs rule: overlays_of.induct) (auto intro!: makes_intros split: option.splits)

lemma reads_uses_of_sources: "reads_only (uses_of_sources L F vm ss)"
  by (induction ss) (auto intro!: makes_intros reads_path_of)

lemma reads_disks_of_all_domains: "reads_only (disks_of_all_domains L X F)"
proof -
  have "reads_only (disks_of_domains L X F ds)" for ds
    by (induction ds) (auto intro!: makes_intros reads_readable_xmls reads_uses_of_sources split: result.splits)
  then show ?thesis unfolding disks_of_all_domains_def by (intro makes_intros) auto
qed

lemma reads_describe: "reads_only (describe L X F v vx disks overlays)"
  unfolding describe_def by (auto intro!: makes_intros)

lemmas reads_volume = reads_running_pool reads_read_volumes reads_overlays_of reads_disks_of_all_domains reads_describe

section \<open>The answers on a quiet host\<close>

lemma steady_running_pool: "quiet_reads L w \<Longrightarrow> steady w (running_pool L i)"
  unfolding running_pool_def by (auto intro!: steady_intros simp: quiet_reads_def)

lemma steady_read_volume_list: "quiet_reads L w \<Longrightarrow> steady w (read_volume_list L X vs)"
  by (induction vs) (auto intro!: steady_intros simp: quiet_reads_def split: result.splits)

lemma steady_read_volumes: "quiet_reads L w \<Longrightarrow> steady w (read_volumes L X p)"
  unfolding read_volumes_def
  by (intro steady_bind steady_ask_e steady_read_volume_list) (auto simp: quiet_reads_def)

lemma steady_overlays_of: "quiet_reads L w \<Longrightarrow> steady w (overlays_of L X F vs)"
  by (induction vs rule: overlays_of.induct) (auto intro!: steady_intros simp: quiet_reads_world split: option.splits)

lemma steady_uses_of_sources: "quiet_reads L w \<Longrightarrow> steady w (uses_of_sources L F vm ss)"
  by (induction ss) (auto intro!: steady_intros steady_path_of)

lemma steady_disks_of_domains: "quiet_reads L w \<Longrightarrow> steady w (disks_of_domains L X F ds)"
  by (induction ds)
    (auto intro!: steady_intros steady_readable_xmls steady_uses_of_sources simp: quiet_reads_world split: result.splits)

lemma steady_disks_of_all_domains: "quiet_reads L w \<Longrightarrow> steady w (disks_of_all_domains L X F)"
  unfolding disks_of_all_domains_def
  by (intro steady_bind steady_ask_e steady_disks_of_domains) (auto simp: quiet_reads_def)

lemma steady_describe: "quiet_reads L w \<Longrightarrow> steady w (describe L X F v vx disks overlays)"
  unfolding describe_def by (auto intro!: steady_intros simp: quiet_reads_def)

lemma uses_complete:
  assumes q: "quiet_reads L w" and "answer w (uses_of_sources L F vm ss) = Ok us"
    and "src \<in> set ss" and "answer w (path_of L src) = (Ok (Some p) :: (_, Error) result)"
  shows "\<lparr>use_key = canonical F p, use_by = vm\<rparr> \<in> set us"
  using assms(2,3)
proof (induction ss arbitrary: us)
  case (Cons s ss)
  then obtain path rest where "answer w (path_of L s) = (Ok path :: (_, Error) result)"
      "answer w (uses_of_sources L F vm ss) = Ok rest"
      "us = (case path of Some p \<Rightarrow> \<lparr>use_key = canonical F p, use_by = vm\<rparr> # rest | None \<Rightarrow> rest)"
    using q by (auto simp: answer_bind_Ok steady_path_of steady_uses_of_sources steady_bind steady_return)
  then show ?case
    using Cons assms(4) by (auto split: option.splits)
qed simp

text \<open>A disk of any kind of a domain, in a configuration of it that can be read.\<close>

definition domain_file :: "'w libvirt \<Rightarrow> xmltree \<Rightarrow> 'w \<Rightarrow> domain \<Rightarrow> ustr \<Rightarrow> bool" where
  "domain_file L X w d p \<longleftrightarrow> (\<exists>vm xml src. fst (lv_text L (DomainName d) w) = Ok vm \<and> xml \<in> set (xmls_in L w d) \<and>
     src \<in> set (sources_or_none X xml) \<and> answer w (path_of L src) = (Ok (Some p) :: (_, Error) result))"

lemma disks_complete:
  assumes q: "quiet_reads L w" and "answer w (disks_of_domains L X F ds) = Ok us"
    and "d \<in> set ds" and "domain_file L X w d p"
  shows "\<exists>vm. \<lparr>use_key = canonical F p, use_by = vm\<rparr> \<in> set us"
  using assms(2,3)
proof (induction ds arbitrary: us)
  case (Cons e ds)
  let ?k = "\<lambda>r. case r of
       Err _ \<Rightarrow> disks_of_domains L X F ds
     | Ok vm \<Rightarrow>
         vbind (readable_xmls L e) (\<lambda>xmls.
         vbind (uses_of_sources L F vm (concat (map (sources_or_none X) xmls))) (\<lambda>uses.
         vbind (disks_of_domains L X F ds) (\<lambda>rest. vreturn (Ok (uses @ rest)))))"
  have st: "steady w (?k r)" for r
    using q by (auto intro!: steady_intros steady_readable_xmls steady_uses_of_sources steady_disks_of_domains split: result.splits)
  have sa: "steady w (ask (lv_text L) (DomainName e))"
    using q by (simp add: steady_simps)
  have k: "answer w (?k (fst (lv_text L (DomainName e) w))) = Ok us"
    using Cons.prems(1) unfolding disks_of_domains.simps answer_try [OF sa st] by simp
  show ?case
  proof (cases "fst (lv_text L (DomainName e) w)")
    case (Err x)
    with k Cons assms(4) show ?thesis by (auto simp: domain_file_def)
  next
    case (Ok vm)
    with k obtain uses rest where u: "answer w (uses_of_sources L F vm (concat (map (sources_or_none X) (xmls_in L w e)))) = Ok uses"
        and r: "answer w (disks_of_domains L X F ds) = Ok rest" and us: "us = uses @ rest"
      using q by (auto simp: answer_bind_Ok steady_readable_xmls steady_uses_of_sources steady_disks_of_domains
          steady_bind steady_return answer_readable_xmls)
    show ?thesis
    proof (cases "d = e")
      case True
      with assms(4) obtain xml src where "xml \<in> set (xmls_in L w e)" "src \<in> set (sources_or_none X xml)"
          "answer w (path_of L src) = (Ok (Some p) :: (_, Error) result)"
        by (auto simp: domain_file_def)
      then have "\<lparr>use_key = canonical F p, use_by = vm\<rparr> \<in> set uses"
        by (intro uses_complete [OF q u]) auto
      with us show ?thesis by auto
    next
      case False
      with Cons.IH [OF r] Cons.prems(2) us show ?thesis by auto
    qed
  qed
qed simp

text \<open>An overlay in the pool: a readable volume with a name, whose XML names a backing file.\<close>

definition overlay_file :: "'w libvirt \<Rightarrow> xmltree \<Rightarrow> 'w \<Rightarrow> volume \<Rightarrow> ustr \<Rightarrow> bool" where
  "overlay_file L X w v b \<longleftrightarrow> (\<exists>n xml vx. fst (lv_text L (VolName v) w) = Ok n \<and> fst (lv_text L (VolXml v) w) = Ok xml \<and>
     VolumeXml_parse X xml = Ok vx \<and> VolumeXml_backing_path X vx = Some b)"

lemma read_volume_list_complete:
  assumes q: "quiet_reads L w" and "answer w (read_volume_list L X vs) = Ok out" and "v \<in> set vs"
  shows "\<exists>xml vx. fst (lv_text L (VolXml v) w) = Ok xml \<and> VolumeXml_parse X xml = Ok vx \<and> (v, vx) \<in> set out"
  using assms(2,3)
proof (induction vs arbitrary: out)
  case (Cons u vs)
  have st: "steady w (case VolumeXml_parse X xml of Err e \<Rightarrow> vreturn (Err (XmlFailed e))
      | Ok vx \<Rightarrow> vbind (read_volume_list L X vs) (\<lambda>rest. vreturn (Ok ((u, vx) # rest))))" for xml
    using q by (auto intro!: steady_intros steady_read_volume_list split: result.splits)
  have sa: "steady w (ask_e (lv_text L) (VolXml u))"
    using q by (simp add: steady_simps)
  obtain xml where xml: "fst (lv_text L (VolXml u) w) = Ok xml" and "answer w (case VolumeXml_parse X xml of
      Err e \<Rightarrow> vreturn (Err (XmlFailed e))
      | Ok vx \<Rightarrow> vbind (read_volume_list L X vs) (\<lambda>rest. vreturn (Ok ((u, vx) # rest)))) = Ok out"
    using Cons.prems(1) unfolding read_volume_list.simps answer_bind_Ok [OF sa st] by (auto simp: map_err_Ok)
  then obtain vx rest where "VolumeXml_parse X xml = Ok vx" "answer w (read_volume_list L X vs) = Ok rest"
      "out = (u, vx) # rest"
    using q by (auto simp: answer_bind_Ok steady_read_volume_list steady_return split: result.splits)
  with xml Cons show ?case by auto
qed simp

lemma overlays_complete:
  assumes q: "quiet_reads L w" and "answer w (overlays_of L X F vs) = Ok us"
    and "(v, vx) \<in> set vs" and "VolumeXml_backing_path X vx = Some b" and "fst (lv_text L (VolName v) w) = Ok n"
  shows "\<lparr>use_key = canonical F b, use_by = n\<rparr> \<in> set us"
  using assms(2,3)
proof (induction vs arbitrary: us)
  case (Cons p vs)
  obtain u ux where p: "p = (u, ux)" by (cases p)
  show ?case
  proof (cases "VolumeXml_backing_path X ux")
    case None
    with Cons p assms(4) show ?thesis by auto
  next
    case (Some c)
    have "answer w (vtry (ask (lv_text L) (VolName u)) (\<lambda>r. vbind (overlays_of L X F vs) (\<lambda>rest.
        vreturn (Ok (map (\<lambda>n. \<lparr>use_key = canonical F c, use_by = n\<rparr>) (list_of_ok r) @ rest))))) = Ok us"
      using Cons.prems(1) p Some by simp
    then obtain rest where "answer w (overlays_of L X F vs) = Ok rest"
        "us = map (\<lambda>n. \<lparr>use_key = canonical F c, use_by = n\<rparr>) (list_of_ok (fst (lv_text L (VolName u) w))) @ rest"
      using q by (auto simp: answer_try answer_bind_Ok steady_overlays_of steady_bind steady_return steady_ask quiet_reads_world)
    then show ?thesis
      using Cons p Some assms(4,5) by (auto simp: list_of_ok_def)
  qed
qed simp

lemma users_among_empty: "users_among key uses = [] \<longleftrightarrow> (\<forall>u\<in>set uses. use_key u \<noteq> key)"
proof -
  have "set (fold bt_insert ns us) = set ns \<union> set us" for ns us
    by (induction ns arbitrary: us) (auto simp: bt_insert_set)
  from this [of "map use_by (filter (\<lambda>u. use_key u = key) uses)" "[]"] show ?thesis
    unfolding users_among_def by (auto simp: filter_empty_conv simp flip: set_empty)
qed

section \<open>What a volume delete removes\<close>

text \<open>The delete up to its decision: the volume found and its facts.\<close>

definition volume_plan :: "'w libvirt \<Rightarrow> xmltree \<Rightarrow> fs \<Rightarrow> uuid \<Rightarrow> ustr \<Rightarrow> ('w, volume \<times> VolumeFacts, Error) virt" where
  "volume_plan L X F i name =
     vbind (running_pool L i) (\<lambda>p.
     vbind (ask_e (lv_handle L) (LookupVolByName p name)) (\<lambda>v.
     vbind (ask_e (lv_text L) (VolXml v)) (\<lambda>xml.
       case VolumeXml_parse X xml of
         Err e \<Rightarrow> vreturn (Err (XmlFailed e))
       | Ok vx \<Rightarrow>
           vbind (vbind (read_volumes L X p) (overlays_of L X F)) (\<lambda>overlays.
           vbind (disks_of_all_domains L X F) (\<lambda>disks.
           vbind (describe L X F v vx disks overlays) (\<lambda>facts. vreturn (Ok (v, facts))))))))"

definition facts_users :: "VolumeFacts \<Rightarrow> ustr list" where
  "facts_users facts = v_used_by facts @ map (\<lambda>n. lit ''volume '' @ n) (v_backing_for facts)"

lemma vbind_case_result:
  "vbind (case r of Ok a \<Rightarrow> f a | Err e \<Rightarrow> g e) h = (case r of Ok a \<Rightarrow> vbind (f a) h | Err e \<Rightarrow> vbind (g e) h)"
  by (cases r) auto

lemma volume_delete_on_plan:
  "volume_delete_on L X F i name =
     vbind (volume_plan L X F i name) (\<lambda>(v, facts).
       if facts_users facts \<noteq> [] then vreturn (Err (InUse (facts_users facts))) else ask_e (lv_unit L) (VolDelete v))"
  unfolding volume_delete_on_def volume_plan_def vbind_assoc vbind_case_result vbind_return facts_users_def Let_def prod.case
  by (rule refl)

lemma reads_volume_plan: "reads_only (volume_plan L X F i name)"
  unfolding volume_plan_def by (auto intro!: makes_intros reads_volume split: result.splits)

lemma running_pool_Ok:
  assumes "quiet_reads L (world s)" and "running_pool L i s = (Ok p, s')"
  shows "fst (lv_handle L (LookupPool i) (world s)) = Ok p \<and> fst (lv_bool L (PoolIsActive p) (world s)) = Ok True \<and>
    world s' = world s"
  using steadyD(1) [OF steady_running_pool [OF assms(1)] refl assms(2), symmetric]
    steadyD(2) [OF steady_running_pool [OF assms(1)] refl assms(2)] assms(1)
  unfolding running_pool_def by (auto simp: steady_simps map_err_Ok split: if_splits)

lemma volume_plan_sound:
  assumes q: "quiet_reads L (world s)" and "volume_plan L X F i name s = (Ok (v, facts), s')"
  shows "\<exists>p path overlays disks vs. fst (lv_handle L (LookupPool i) (world s)) = Ok p \<and>
    fst (lv_bool L (PoolIsActive p) (world s)) = Ok True \<and>
    fst (lv_handle L (LookupVolByName p name) (world s)) = Ok v \<and> fst (lv_text L (VolPath v) (world s)) = Ok path \<and>
    answer (world s) (read_volumes L X p) = Ok vs \<and> answer (world s) (overlays_of L X F vs) = Ok overlays \<and>
    answer (world s) (disks_of_all_domains L X F) = Ok disks \<and>
    v_used_by facts = users_among (canonical F path) disks \<and> v_backing_for facts = users_among (canonical F path) overlays"
proof -
  obtain p s1 s2 xml s3 vx vs s4 overlays s5 disks s6 where
      1: "running_pool L i s = (Ok p, s1)" and 2: "ask_e (lv_handle L) (LookupVolByName p name) s1 = (Ok v, s2)"
      and 3: "ask_e (lv_text L) (VolXml v) s2 = (Ok xml, s3)" and 4: "read_volumes L X p s3 = (Ok vs, s4)"
      and 5: "overlays_of L X F vs s4 = (Ok overlays, s5)" and 6: "disks_of_all_domains L X F s5 = (Ok disks, s6)"
      and 7: "describe L X F v vx disks overlays s6 = (Ok facts, s')"
    using assms(2) unfolding volume_plan_def
    by (elim vbind_OkE) (auto elim!: vbind_OkE simp: vreturn_def split: result.splits)
  let ?w = "world s"
  have w1: "world s1 = ?w" and p: "fst (lv_handle L (LookupPool i) ?w) = Ok p" "fst (lv_bool L (PoolIsActive p) ?w) = Ok True"
    using running_pool_Ok [OF q 1] by auto
  have v: "map_err Libvirt (fst (lv_handle L (LookupVolByName p name) ?w)) = Ok v" and w2: "world s2 = ?w"
    using steadyD [OF quiet_reads_steady(1) [OF q] w1 2] by auto
  have w3: "world s3 = ?w"
    using steadyD(2) [OF quiet_reads_steady(4) [OF q] w2 3] by simp
  note vs = steadyD [OF steady_read_volumes [OF q] w3 4]
  note ov = steadyD [OF steady_overlays_of [OF q] vs(2) 5]
  note dk = steadyD [OF steady_disks_of_all_domains [OF q] ov(2) 6]
  have "answer ?w (describe L X F v vx disks overlays) = Ok facts"
    using steadyD(1) [OF steady_describe [OF q] dk(2) 7] by simp
  then obtain path where "fst (lv_text L (VolPath v) ?w) = Ok path" "v_used_by facts = users_among (canonical F path) disks"
      "v_backing_for facts = users_among (canonical F path) overlays"
    using q unfolding describe_def by (auto simp: steady_simps map_err_Ok)
  with p v vs(1) [symmetric] ov(1) [symmetric] dk(1) [symmetric] show ?thesis
    by (auto simp: map_err_Ok)
qed

section \<open>Properties\<close>


subsection \<open>Witness\<close>

text \<open>
  A running pool with the image of the VM \<open>web\<close>, an overlay on it that the VM \<open>clone\<close> uses, and an image that no VM
  uses. The world says whether the VM \<open>web\<close> is defined.
\<close>

definition example_disk_domain :: "string \<Rightarrow> element" where
  "example_disk_domain file = Element (lit ''domain'') []
     [XElement (Element (lit ''devices'') []
        [XElement (Element (lit ''disk'') [(lit ''type'', lit ''file'')]
           [XElement (Element (lit ''source'') [(lit ''file'', lit file)] [])])])]"

definition example_volume :: "string option \<Rightarrow> element" where
  "example_volume backing = Element (lit ''volume'') []
     (case backing of None \<Rightarrow> []
      | Some b \<Rightarrow> [XElement (Element (lit ''backingStore'') [] [XElement (Element (lit ''path'') [] [XText (lit b)])])])"

definition clone_host :: "bool libvirt" where
  "clone_host = \<lparr>
     lv_unit = (\<lambda>c w. (Ok (), case c of DomainUndefine _ _ \<Rightarrow> False | _ \<Rightarrow> w)),
     lv_bool = (\<lambda>c w. (Ok (case c of PoolIsActive _ \<Rightarrow> True | _ \<Rightarrow> False), w)),
     lv_handle = (\<lambda>c w. (case c of
         LookupDomain u \<Rightarrow> if u = Uuid 1 \<and> \<not> w then Err no_domain else if u = Uuid 1 then Ok 1 else Ok 2
       | LookupPool _ \<Rightarrow> Ok 3
       | LookupVolByPath p \<Rightarrow> if p = lit ''/srv/web.qcow2'' then Ok 7 else if p = lit ''/srv/clone.qcow2'' then Ok 8 else Ok 9
       | LookupVolByName _ n \<Rightarrow> if n = lit ''web.qcow2'' then Ok 7 else if n = lit ''clone.qcow2'' then Ok 8 else Ok 9
       | _ \<Rightarrow> Ok 0, w)),
     lv_handles = (\<lambda>c w. (Ok (case c of ListDomains \<Rightarrow> if w then [1, 2] else [2] | _ \<Rightarrow> [7, 8, 9]), w)),
     lv_text = (\<lambda>c w. (Ok (case c of
         DomainXml d _ \<Rightarrow> xt_write xml_codec (example_disk_domain (if d = 1 then ''/srv/web.qcow2'' else ''/srv/clone.qcow2''))
       | DomainName d \<Rightarrow> lit (if d = 1 then ''web'' else ''clone'')
       | VolXml v \<Rightarrow> xt_write xml_codec (example_volume (if v = 8 then Some ''/srv/web.qcow2'' else None))
       | VolName v \<Rightarrow> lit (if v = 7 then ''web.qcow2'' else if v = 8 then ''clone.qcow2'' else ''old.qcow2'')
       | VolPath v \<Rightarrow> lit (if v = 7 then ''/srv/web.qcow2'' else if v = 8 then ''/srv/clone.qcow2'' else ''/srv/old.qcow2'')
       | _ \<Rightarrow> []), w)),
     lv_uuid = (\<lambda>c w. (Ok (case c of DomainUuid d \<Rightarrow> Uuid d | _ \<Rightarrow> Uuid 3), w)),
     lv_dominfo = (\<lambda>_ w. (Ok \<lparr>di_state = 5, di_memory = 0, di_vcpus = 1\<rparr>, w)),
     lv_poolinfo = (\<lambda>_ w. (Ok \<lparr>pi_state = 2, pi_capacity = 0, pi_allocation = 0, pi_available = 0\<rparr>, w)),
     lv_volinfo = (\<lambda>_ w. (Ok \<lparr>vi_kind = 0, vi_capacity = 0, vi_allocation = 0\<rparr>, w))\<rparr>"

lemma clone_host_quiet: "quiet_reads clone_host w"
  by (auto simp: quiet_reads_def clone_host_def split: call.splits)

lemma clone_delete_old:
  "(VolDelete 9, None) \<in> set (trace (snd (volume_delete_on clone_host xml_codec (\<lambda>_. None) (Uuid 3) (lit ''old.qcow2'')
     \<lparr>world = True, trace = []\<rparr>)))"
  by code_simp


text \<open>
  The two deletes differ on an overlay: deleting the volume \<^verbatim>\<open>web.qcow2\<close> is refused, because \<^verbatim>\<open>clone.qcow2\<close> is an
  overlay on it; deleting the VM \<open>web\<close> with its volumes deletes the same file, on which the VM \<open>clone\<close> depends.
\<close>

lemma vm_delete_takes_backing_file:
  "fst (volume_delete_on clone_host xml_codec (\<lambda>_. None) (Uuid 3) (lit ''web.qcow2'') \<lparr>world = False, trace = []\<rparr>) =
     Err (InUse [lit ''volume clone.qcow2'']) \<and>
   fst (vm_delete_on clone_host xml_codec (\<lambda>_. None) (Uuid 1) True \<lparr>world = True, trace = []\<rparr>) =
     Ok \<lparr>removed = [lit ''/srv/web.qcow2''], skipped = []\<rparr>"
  by code_simp

end
