(* ===== verification/Actions.thy ===== *)
theory Actions
  imports Client_Ip Auth Supervisor Virt_Power Virt_Pool Virt_Network Virt_Volume
begin

text \<open>
  \<^verbatim>\<open>lodger/src/actions.rs\<close>: the VM lifecycle API (power actions, delete and autostart) and what the other libvirt
  APIs share with it: error answers and \<^verbatim>\<open>audited\<close>.

  A handler runs against the shared state of the service, which other requests may change at every access
  (theory \<open>Service\<close>), and against libvirt (theory \<open>Virt_World\<close>). What it reads of the supervisor, the state, the inventory
  and whether libvirt is connected, are fields of \<open>host\<close>: their values when the handler reads them. JSON parsing
  is an argument of the handler.
\<close>

section \<open>What the handlers share\<close>

record 'w host =
  h_state :: ConnState
  h_inventory :: Inventory
  h_virt :: "'w libvirt option"
  h_xml :: xmltree
  h_net :: ipnet
  h_fs :: fs
  h_task :: "string \<Rightarrow> ustr option"
  h_show :: "Error \<Rightarrow> ustr"
  h_bridges :: "(ustr option \<times> bool) option list option"

type_synonym 'w site = "app \<times> 'w conn"
type_synonym bytes = "8 word list"
type_synonym 'b json = "bytes \<Rightarrow> ('b, ustr) result"

record SkippedDisk =
  sk_path :: ustr
  sk_reason :: string
  sk_vm :: "ustr option"
  sk_message :: "ustr option"

record RemovalReport =
  rr_removed :: "ustr list"
  rr_skipped :: "SkippedDisk list"

record PoolDetail =
  pd_pool :: Pool
  pd_kind :: "ustr option"
  pd_path :: "ustr option"
  pd_nfs :: "(ustr \<times> ustr) option"
  pd_used_by :: "ustr list"

record NetworkDetail =
  nd_network :: Network
  nd_mode :: "ustr option"
  nd_subnets :: "ustr list"
  nd_used_by :: "ustr list"

record HostBridge =
  hb_name :: ustr
  hb_owner :: "ustr option"

datatype api_content =
    LibvirtFailure ustr "Explanation option"
  | VmRemoval RemovalReport
  | Pools "Pool list"
  | PoolFacts PoolDetail
  | Networks "Network list"
  | NetworkFacts NetworkDetail
  | Bridges "HostBridge list"
  | Volumes "VolumeFacts list"
  | NewUuid uuid
  | NewName ustr

type_synonym api_response = "api_content response"

definition explained :: "nat \<Rightarrow> ustr \<Rightarrow> Explanation option \<Rightarrow> api_response" where
  "explained code m why = respond code (Content (LibvirtFailure m why))"

definition error_answer :: "'w host \<Rightarrow> nat \<Rightarrow> Error \<Rightarrow> api_response" where
  "error_answer H code e = explained code (h_show H e) (explain (h_show H e))"

definition no_libvirt :: api_response where
  "no_libvirt = error_response 503 ''Lodger is not connected to libvirt''"

definition bad_json :: "ustr \<Rightarrow> api_response" where
  "bad_json e = respond 400 (MessageAbout ''bad JSON body'' e)"

record NotFound =
  nf_reason :: string
  nf_message :: string

definition with_action :: "string option \<Rightarrow> AuditEntry \<Rightarrow> AuditEntry" where
  "with_action act entry = entry\<lparr>e_detail := (e_detail entry)\<lparr>action := act\<rparr>\<rparr>"

text \<open>The audit reason and the status code of a failed call on a pool, network or volume.\<close>

definition failure_kind :: "NotFound \<Rightarrow> Error \<Rightarrow> string \<times> nat" where
  "failure_kind nf e =
     (if is_not_found e then (nf_reason nf, 404)
      else if (case e of InUse _ \<Rightarrow> True | _ \<Rightarrow> False) then (''in_use'', 409)
      else if is_invalid_operation e then (''wrong_state'', 409)
      else (''libvirt_error'', 502))"

definition audited ::
    "conf \<Rightarrow> env \<Rightarrow> 'w host \<Rightarrow> string \<Rightarrow> NotFound \<Rightarrow> (AuditEntry \<Rightarrow> AuditEntry) \<Rightarrow> string \<Rightarrow> string option
      \<Rightarrow> ('w, 'b, Error) virt \<Rightarrow> 'w site \<Rightarrow> (unit, api_response) result \<times> 'w site" where
  "audited C E H label nf row event act call st =
     (case st of (a, s) \<Rightarrow>
      case call s of
        (Ok _, s) \<Rightarrow> (Ok (), audit_log_entry C E label (row (with_action act (entry_ok event))) a, s)
      | (Err e, s) \<Rightarrow>
          (case failure_kind nf e of (why, code) \<Rightarrow>
             (Err (if why = nf_reason nf then error_response code (nf_message nf) else error_answer H code e),
              audit_log_entry C E label (row (with_action act (entry_failed event why))) a, s)))"

section \<open>The VM lifecycle\<close>

definition LIFECYCLE :: string where
  "LIFECYCLE = ''vm.lifecycle''"

definition EDITED :: string where
  "EDITED = ''vm.edited''"

record Confirm =
  cf_confirm :: "ustr option"

record DeleteRequest =
  dr_confirm :: "ustr option"
  dr_remove_volumes :: bool

record Settings =
  st_autostart :: bool

definition skipped_from :: "ustr \<times> SkipReason \<Rightarrow> SkippedDisk" where
  "skipped_from p =
     (case p of (path, why) \<Rightarrow>
      let (reason, vm, message) = (case why of
          UsedBy vm \<Rightarrow> (''used_by'', Some vm, None)
        | Shared \<Rightarrow> (''shared'', None, None)
        | NotInPool \<Rightarrow> (''not_in_pool'', None, None)
        | Failed m \<Rightarrow> (''failed'', None, Some m))
      in \<lparr>sk_path = path, sk_reason = reason, sk_vm = vm, sk_message = message\<rparr>)"

definition removal_from :: "Removal \<Rightarrow> RemovalReport" where
  "removal_from r = \<lparr>rr_removed = removed r, rr_skipped = map skipped_from (skipped r)\<rparr>"

definition body_or_default :: "'b json \<Rightarrow> 'b \<Rightarrow> bytes \<Rightarrow> ('b, ustr) result" where
  "body_or_default J dflt raw = (if raw = [] then Ok dflt else J raw)"

definition vm_failure ::
    "conf \<Rightarrow> env \<Rightarrow> 'w host \<Rightarrow> (string \<Rightarrow> AuditEntry) \<Rightarrow> Error \<Rightarrow> app \<Rightarrow> api_response \<times> app" where
  "vm_failure C E H row e a =
     (let (why, code) =
        (if is_not_found e then (''no_such_vm'', 404)
         else if is_invalid_operation e then (''wrong_state'', 409) else (''libvirt_error'', 502));
        a = audit_log_entry C E ''audit vm'' (row why) a
      in (if why = ''no_such_vm'' then error_response code ''no such VM'' else error_answer H code e, a))"

text \<open>The audit entry of a VM call.\<close>

definition vm_entry :: "conf \<Rightarrow> ipaddr \<Rightarrow> headers \<Rightarrow> Session \<Rightarrow> Vm \<Rightarrow> string \<Rightarrow> AuditEntry \<Rightarrow> AuditEntry" where
  "vm_entry C peer h se vm act entry =
     with_action (Some act)
       (target_vm (vm_name vm) (entry_client_ip (client_ip C peer h) (entry_account (session_username se) entry)))"

definition vm_run ::
    "conf \<Rightarrow> env \<Rightarrow> 'w host \<Rightarrow> Confirm json \<Rightarrow> ipaddr \<Rightarrow> headers \<Rightarrow> Session \<Rightarrow> uuid \<Rightarrow> ustr \<Rightarrow> bytes
      \<Rightarrow> 'w site \<Rightarrow> api_response \<times> 'w site" where
  "vm_run C E H J peer h se i action_name raw st =
     (case Power_parse action_name of
        None \<Rightarrow> (error_response 404 ''no such action'', st)
      | Some act \<Rightarrow>
      case body_or_default J \<lparr>cf_confirm = None\<rparr> raw of
        Err m \<Rightarrow> (bad_json m, st)
      | Ok confirm \<Rightarrow>
      case hm_get (vms (h_inventory H)) i of
        None \<Rightarrow> (error_response 404 ''no such VM'', st)
      | Some vm \<Rightarrow>
      if act = ForceOff \<and> cf_confirm confirm \<noteq> Some (vm_name vm)
      then (error_response 422 ''type the VM's name to force it off'', st)
      else case h_virt H of
        None \<Rightarrow> (error_response 503 ''Lodger is not connected to libvirt'', st)
      | Some L \<Rightarrow>
          (let (a, s) = st; by = vm_entry C peer h se vm (Power_name act) in
           case power L (h_task H ''power'') i act s of
             (Ok _, s) \<Rightarrow> (respond 204 NoBody, audit_log_entry C E ''audit vm'' (by (entry_ok LIFECYCLE)) a, s)
           | (Err e, s) \<Rightarrow>
               (let (r, a) = vm_failure C E H (\<lambda>why. by (entry_failed LIFECYCLE why)) e a in (r, a, s))))"

definition vm_remove ::
    "conf \<Rightarrow> env \<Rightarrow> 'w host \<Rightarrow> DeleteRequest json \<Rightarrow> ipaddr \<Rightarrow> headers \<Rightarrow> Session \<Rightarrow> uuid \<Rightarrow> bytes
      \<Rightarrow> 'w site \<Rightarrow> api_response \<times> 'w site" where
  "vm_remove C E H J peer h se i raw st =
     (case body_or_default J \<lparr>dr_confirm = None, dr_remove_volumes = False\<rparr> raw of
        Err m \<Rightarrow> (bad_json m, st)
      | Ok request \<Rightarrow>
      case hm_get (vms (h_inventory H)) i of
        None \<Rightarrow> (error_response 404 ''no such VM'', st)
      | Some vm \<Rightarrow>
      if dr_confirm request \<noteq> Some (vm_name vm)
      then (error_response 422 ''type the VM's name to delete it'', st)
      else case h_virt H of
        None \<Rightarrow> (error_response 503 ''Lodger is not connected to libvirt'', st)
      | Some L \<Rightarrow>
          (let (a, s) = st; by = vm_entry C peer h se vm ''delete'' in
           case vm_delete L (h_xml H) (h_fs H) (h_task H ''delete'') i (dr_remove_volumes request) s of
             (Ok report, s) \<Rightarrow>
               (respond 200 (Content (VmRemoval (removal_from report))),
                audit_log_entry C E ''audit vm'' (by (entry_ok LIFECYCLE)) a, s)
           | (Err e, s) \<Rightarrow>
               (let (r, a) = vm_failure C E H (\<lambda>why. by (entry_failed LIFECYCLE why)) e a in (r, a, s))))"

definition vm_update ::
    "conf \<Rightarrow> env \<Rightarrow> 'w host \<Rightarrow> Settings json \<Rightarrow> ipaddr \<Rightarrow> headers \<Rightarrow> Session \<Rightarrow> uuid \<Rightarrow> bytes
      \<Rightarrow> 'w site \<Rightarrow> api_response \<times> 'w site" where
  "vm_update C E H J peer h se i raw st =
     (case J raw of
        Err m \<Rightarrow> (bad_json m, st)
      | Ok settings \<Rightarrow>
      case hm_get (vms (h_inventory H)) i of
        None \<Rightarrow> (error_response 404 ''no such VM'', st)
      | Some vm \<Rightarrow>
      case h_virt H of
        None \<Rightarrow> (error_response 503 ''Lodger is not connected to libvirt'', st)
      | Some L \<Rightarrow>
          (let (a, s) = st;
               by = vm_entry C peer h se vm (if st_autostart settings then ''autostart-on'' else ''autostart-off'') in
           case set_autostart L (h_task H ''autostart'') i (st_autostart settings) s of
             (Ok _, s) \<Rightarrow> (respond 204 NoBody, audit_log_entry C E ''audit vm'' (by (entry_ok EDITED)) a, s)
           | (Err e, s) \<Rightarrow>
               (let (r, a) = vm_failure C E H (\<lambda>why. by (entry_failed EDITED why)) e a in (r, a, s))))"

section \<open>What a handler does\<close>

text \<open>
  A step of a handler: it made calls that satisfy \<open>P\<close> and then wrote one audit entry that satisfies \<open>Q\<close>.
\<close>

definition audited_step ::
    "conf \<Rightarrow> env \<Rightarrow> string \<Rightarrow> (call \<Rightarrow> bool) \<Rightarrow> (AuditEntry \<Rightarrow> bool) \<Rightarrow> 'w site \<Rightarrow> 'w site \<Rightarrow> bool" where
  "audited_step C E label P Q st st' \<longleftrightarrow>
     (\<exists>entry new. Q entry \<and> fst st' = audit_log_entry C E label entry (fst st) \<and>
        trace (snd st') = trace (snd st) @ new \<and> list_all (\<lambda>(c, _). P c) new)"

text \<open>An entry that says who did it, from where, and to what.\<close>

definition entry_of :: "conf \<Rightarrow> ipaddr \<Rightarrow> headers \<Rightarrow> Session \<Rightarrow> string \<Rightarrow> ustr \<Rightarrow> AuditEntry \<Rightarrow> bool" where
  "entry_of C peer h se kind name e \<longleftrightarrow> e_account e = Some (session_username se) \<and> e_client_ip e = Some (client_ip C peer h) \<and>
     e_target_kind e = Some kind \<and> e_target e = Some name"

lemma vm_entry_fields: "entry_of C peer h se ''vm'' (vm_name vm) (vm_entry C peer h se vm act e)"
  by (simp add: entry_of_def vm_entry_def with_action_def target_vm_def entry_client_ip_def entry_account_def)

lemma audited_stepI:
  assumes "makes (\<lambda>(c, _). P c) m" and "m s = (r, s')" and "Q entry"
  shows "audited_step C E label P Q (a, s) (audit_log_entry C E label entry a, s')"
  using makesD [OF assms(1,2)] assms(3) unfolding audited_step_def by auto

lemma vm_failure_audits:
  "\<exists>why. snd (vm_failure C E H row e a) = audit_log_entry C E ''audit vm'' (row why) a"
  by (auto simp: vm_failure_def Let_def)

text \<open>The end of a VM handler, once it has called libvirt.\<close>

lemma vm_call_step:
  assumes "makes (\<lambda>(c, _). P c) m"
    and "(case m s of
        (Ok x, s) \<Rightarrow> (f x, audit_log_entry C E ''audit vm'' (vm_entry C peer h se vm act (entry_ok event)) a, s)
      | (Err e, s) \<Rightarrow>
          (let (r, a) = vm_failure C E H (\<lambda>why. vm_entry C peer h se vm act (entry_failed event why)) e a in (r, a, s))) =
      (r, st')"
  shows "audited_step C E ''audit vm'' P (entry_of C peer h se ''vm'' (vm_name vm)) (a, s) st'"
proof -
  obtain x s1 where m: "m s = (x, s1)" by fastforce
  show ?thesis
  proof (cases x)
    case (Ok y)
    with assms(2) m show ?thesis
      using audited_stepI [OF assms(1) m, of "entry_of C peer h se ''vm'' (vm_name vm)", OF vm_entry_fields] by auto
  next
    case (Err e)
    obtain why where "snd (vm_failure C E H (\<lambda>why. vm_entry C peer h se vm act (entry_failed event why)) e a) =
        audit_log_entry C E ''audit vm'' (vm_entry C peer h se vm act (entry_failed event why)) a"
      using vm_failure_audits [of C E H "\<lambda>why. vm_entry C peer h se vm act (entry_failed event why)" e a] by blast
    with assms(2) m Err show ?thesis
      using audited_stepI [OF assms(1) m, of "entry_of C peer h se ''vm'' (vm_name vm)", OF vm_entry_fields]
      by (auto simp: Let_def split: prod.splits)
  qed
qed

lemma audited_audits:
  assumes "audited C E H label nf row event act call (a, s) = (r, st')" and "\<And>e. Q (row e)"
    and "\<And>x s1. call s = (x, s1) \<Longrightarrow> \<exists>new. trace s1 = trace s @ new \<and> list_all (\<lambda>(c, _). P c) new"
  shows "audited_step C E label P Q (a, s) st'"
proof -
  obtain x s1 where s: "call s = (x, s1)" by fastforce
  then obtain e where "st' = (audit_log_entry C E label (row e) a, s1)"
    using assms(1) by (auto simp: audited_def split: result.splits prod.splits)
  with assms(2) assms(3) [OF s] show ?thesis unfolding audited_step_def by auto
qed

section \<open>Properties\<close>

lemma power_calls: "makes (\<lambda>(c, _). \<not> mutating c \<or> (\<exists>d. is_call_of act d c)) (power L tf i act)"
  unfolding power_def power_on_def
  by (auto intro!: makes_intros makes_mono [OF makes_power_call] split: option.splits)

text \<open>
  A VM changes only on request, and leaves an audit entry. Whatever other requests do and libvirt answers,
  a power request either leaves the service and libvirt as they are, or makes calls of exactly the requested
  action and then writes one audit entry with the account, the client address and the VM's name. It gets to
  libvirt only for a VM in the inventory, and for force off only if the body repeats the VM's name.
\<close>

theorem vm_run_confirmed_and_audited:
  "case vm_run C E H J peer h se i action_name raw st of (r, st') \<Rightarrow>
     st' = st \<or>
     (\<exists>act vm confirm. Power_parse action_name = Some act \<and> hm_get (vms (h_inventory H)) i = Some vm \<and>
        body_or_default J \<lparr>cf_confirm = None\<rparr> raw = Ok confirm \<and>
        (if act = ForceOff then cf_confirm confirm = Some (vm_name vm) else True) \<and>
        audited_step C E ''audit vm'' (\<lambda>c. if mutating c then \<exists>d. is_call_of act d c else True)
          (entry_of C peer h se ''vm'' (vm_name vm)) st st')"
proof -
  obtain r st' where run: "vm_run C E H J peer h se i action_name raw st = (r, st')" by (metis surj_pair)
  show ?thesis
  proof (cases "st' = st")
    case True
    with run show ?thesis by simp
  next
    case False
    then obtain act vm confirm L where c: "Power_parse action_name = Some act" "hm_get (vms (h_inventory H)) i = Some vm"
        "body_or_default J \<lparr>cf_confirm = None\<rparr> raw = Ok confirm" "h_virt H = Some L"
        "act = ForceOff \<longrightarrow> cf_confirm confirm = Some (vm_name vm)"
      using run by (auto simp: vm_run_def split: option.splits result.splits if_splits)
    obtain a s where st: "st = (a, s)" by (cases st)
    have "audited_step C E ''audit vm'' (\<lambda>c. if mutating c then \<exists>d. is_call_of act d c else True) (entry_of C peer h se ''vm'' (vm_name vm)) (a, s) st'"
      by (rule vm_call_step [where f = "\<lambda>_. respond 204 NoBody" and act = "Power_name act" and event = LIFECYCLE and H = H and r = r,
            OF makes_mono [OF power_calls]])
        (use run c st in \<open>auto simp: vm_run_def Let_def\<close>)
    with run c st show ?thesis by auto
  qed
qed

text \<open>The calls of a VM delete: the undefine, and volume deletes only on request.\<close>

lemma makes_delete_targets: "makes (\<lambda>(c, _). mutating c \<longrightarrow> (\<exists>v. c = VolDelete v)) (delete_targets L us ts report)"
  by (induction ts arbitrary: report)
    (auto simp: delete_target_def intro!: makes_intros split: option.splits result.splits)

lemma makes_finish_delete:
  "makes (\<lambda>(c, _). mutating c \<longrightarrow> (\<exists>d b. c = DomainUndefine d b) \<or> ts \<noteq> [] \<and> (\<exists>v. c = VolDelete v))
     (finish_delete L i d us ts report)"
  unfolding finish_delete_def undefine_def
  by (cases "ts = []")
    (auto intro!: makes_intros makes_mono [OF makes_delete_targets] simp: ex_bool_eq split: result.splits)

lemma vm_delete_calls:
  "makes (\<lambda>(c, _). mutating c \<longrightarrow> (\<exists>d b. c = DomainUndefine d b) \<or> rv \<and> (\<exists>v. c = VolDelete v)) (vm_delete L X F tf i rv)"
proof (cases rv)
  case True
  then show ?thesis
    unfolding vm_delete_def vm_delete_on_plan
    by (auto intro!: makes_intros makes_mono [OF reads_delete_plan] makes_mono [OF makes_finish_delete])
next
  case False
  have "vm_delete_on L X F i False =
      vbind (ask_e (lv_handle L) (LookupDomain i)) (\<lambda>d.
      vbind (ask_e (lv_bool L) (DomainIsActive d)) (\<lambda>active.
        if active then vreturn (Err (WrongState ''shut the VM down first''))
        else finish_delete L i d [] [] removal_default))"
    by (simp add: vm_delete_on_def delete_candidates_def delete_users_def vbind_return cong: if_cong)
  with False show ?thesis
    unfolding vm_delete_def by (auto intro!: makes_intros makes_mono [OF makes_finish_delete])
qed


end
