(* ===== verification/Pools_Api.thy ===== *)
theory Pools_Api
  imports Actions "HOL-Library.Product_Lexorder"
begin

text \<open>\<^verbatim>\<open>lodger/src/pools.rs\<close>: the storage pools API.\<close>

section \<open>Model\<close>

definition POOL_NOT_FOUND :: NotFound where
  "POOL_NOT_FOUND = \<lparr>nf_reason = ''no_such_pool'', nf_message = ''no such pool''\<rparr>"

definition NFS_MOUNT_ROOT :: string where
  "NFS_MOUNT_ROOT = ''/var/lib/libvirt/pools''"

definition nfs_mount_path :: "ustr \<Rightarrow> ustr" where
  "nfs_mount_path name = lit NFS_MOUNT_ROOT @ lit ''/'' @ name"

definition in_lodger_mount_root :: "xmltree \<Rightarrow> PoolXml \<Rightarrow> ustr \<Rightarrow> bool" where
  "in_lodger_mount_root X px name \<longleftrightarrow>
     PoolXml_pool_type X px = Some (lit ''netfs'') \<and> PoolXml_target_path X px = Some (nfs_mount_path name)"

datatype PoolKind = KindDir | KindNfs

record CreatePool =
  cp_name :: ustr
  cp_kind :: PoolKind
  cp_path :: "ustr option"
  cp_host :: "ustr option"
  cp_export :: "ustr option"
  cp_autostart :: bool

record PoolChange =
  pc_active :: "bool option"
  pc_autostart :: "bool option"

record PoolRemoval =
  pr_confirm :: "ustr option"
  pr_delete_files :: bool

definition pools_list :: "'w host \<Rightarrow> api_response" where
  "pools_list H = respond 200 (Content (Pools (sort_key (\<lambda>p. (pl_name p, pl_uuid p)) (map snd (pools (h_inventory H))))))"

definition pool_facts :: "'w libvirt \<Rightarrow> 'w host \<Rightarrow> uuid \<Rightarrow> ('w, PoolXml \<times> ustr list, Error) virt" where
  "pool_facts L H i =
     vbind (pool_xml L (h_task H ''pool xml'') i) (\<lambda>xml.
       case PoolXml_parse (h_xml H) xml of
         Err e \<Rightarrow> vreturn (Err (XmlFailed e))
       | Ok px \<Rightarrow> vbind (pool_users L (h_xml H) (h_task H ''pool users'') i) (\<lambda>used_by. vreturn (Ok (px, used_by))))"

definition pools_detail :: "'w host \<Rightarrow> uuid \<Rightarrow> 'w conn \<Rightarrow> api_response \<times> 'w conn" where
  "pools_detail H i s =
     (case hm_get (pools (h_inventory H)) i of
        None \<Rightarrow> (error_response 404 ''no such pool'', s)
      | Some pool \<Rightarrow>
      case h_virt H of
        None \<Rightarrow> (no_libvirt, s)
      | Some L \<Rightarrow>
          (case pool_facts L H i s of
             (Ok (px, used_by), s) \<Rightarrow>
               (respond 200 (Content (PoolFacts
                 \<lparr>pd_pool = pool, pd_kind = PoolXml_pool_type (h_xml H) px, pd_path = PoolXml_target_path (h_xml H) px,
                  pd_nfs = PoolXml_nfs_source (h_xml H) px, pd_used_by = used_by\<rparr>)), s)
           | (Err e, s) \<Rightarrow>
               (if is_not_found e then error_response 404 ''no such pool'' else error_answer H 502 e, s)))"

text \<open>The pool that a create request describes, before the check against the others.\<close>

definition pool_of_request :: "CreatePool \<Rightarrow> Name \<Rightarrow> (NewPool, api_response) result" where
  "pool_of_request request name =
     (let missing = (\<lambda>field. error_response 422 (field @ '' is empty''));
          invalid = (\<lambda>e. respond 422 (BadInput e)) in
      case cp_kind request of
        KindDir \<Rightarrow>
          (case cp_path request of
             None \<Rightarrow> Err (missing ''Pool folder'')
           | Some path \<Rightarrow> map_err invalid (NewPool_dir name path))
      | KindNfs \<Rightarrow>
          (case cp_host request of
             None \<Rightarrow> Err (missing ''NFS server'')
           | Some host \<Rightarrow>
               (case cp_export request of
                  None \<Rightarrow> Err (missing ''NFS export'')
                | Some export \<Rightarrow>
                    map_err invalid (NewPool_nfs name host export
                      (case cp_path request of Some path \<Rightarrow> path | None \<Rightarrow> nfs_mount_path (cp_name request))))))"

definition new_pool :: "xmltree \<Rightarrow> CreatePool \<Rightarrow> (ustr \<times> ustr) list \<Rightarrow> (NewPool, api_response) result" where
  "new_pool X request existing =
     (case Name_parse ''Pool name'' (cp_name request) of
        Err e \<Rightarrow> Err (respond 422 (BadInput e))
      | Ok name \<Rightarrow>
          if list_ex (\<lambda>(other, _). other = cp_name request) existing
          then Err (respond 409 (MessageAbout ''a pool called {} exists already'' (cp_name request)))
          else and_then (pool_of_request request name) (\<lambda>pool.
            let parsed = List.map_filter (\<lambda>(name, xml). map_option (Pair name) (ok (PoolXml_parse X xml))) existing in
            case NewPool_check_against X pool parsed of
              Err e \<Rightarrow> Err (respond 422 (BadInput e))
            | Ok _ \<Rightarrow> Ok pool))"

definition pool_row :: "conf \<Rightarrow> ipaddr \<Rightarrow> headers \<Rightarrow> Session \<Rightarrow> ustr \<Rightarrow> AuditEntry \<Rightarrow> AuditEntry" where
  "pool_row C peer h se name entry =
     target_pool name (entry_client_ip (client_ip C peer h) (entry_account (session_username se) entry))"

definition pools_create ::
    "conf \<Rightarrow> env \<Rightarrow> 'w host \<Rightarrow> CreatePool json \<Rightarrow> ipaddr \<Rightarrow> headers \<Rightarrow> Session \<Rightarrow> bytes \<Rightarrow> 'w site \<Rightarrow> api_response \<times> 'w site" where
  "pools_create C E H J peer h se raw st =
     (case J raw of
        Err m \<Rightarrow> (bad_json m, st)
      | Ok request \<Rightarrow>
      case h_virt H of
        None \<Rightarrow> (no_libvirt, st)
      | Some L \<Rightarrow>
          (let (a, s) = st in
           case pool_xmls L (h_task H ''pool xmls'') s of
             (Err e, s) \<Rightarrow> (error_answer H 502 e, a, s)
           | (Ok existing, s) \<Rightarrow>
               (case new_pool (h_xml H) request existing of
                  Err response \<Rightarrow> (response, a, s)
                | Ok pool \<Rightarrow>
                    (let row = pool_row C peer h se (as_str (pool_name pool)) in
                     case create_pool L (h_task H ''create pool'') (NewPool_to_xml (h_xml H) pool) (cp_autostart request) s of
                       (Ok i, s) \<Rightarrow>
                         (respond 201 (Content (NewUuid i)), audit_log_entry C E ''audit pool'' (row (entry_ok ''pool.created'')) a, s)
                     | (Err e, s) \<Rightarrow>
                         (error_answer H 502 e,
                          audit_log_entry C E ''audit pool'' (row (entry_failed ''pool.created'' ''libvirt_error'')) a, s)))))"

text \<open>One optional part of a change: skipped if absent, and its failure is the answer.\<close>

definition change_part ::
    "'b option \<Rightarrow> ('b \<Rightarrow> 'w site \<Rightarrow> (unit, api_response) result \<times> 'w site) \<Rightarrow> ('w site \<Rightarrow> api_response \<times> 'w site)
      \<Rightarrow> 'w site \<Rightarrow> api_response \<times> 'w site" where
  "change_part part call rest st =
     (case part of
        None \<Rightarrow> rest st
      | Some x \<Rightarrow> (case call x st of (Err response, st) \<Rightarrow> (response, st) | (Ok _, st) \<Rightarrow> rest st))"

definition pools_change ::
    "conf \<Rightarrow> env \<Rightarrow> 'w host \<Rightarrow> PoolChange json \<Rightarrow> ipaddr \<Rightarrow> headers \<Rightarrow> Session \<Rightarrow> uuid \<Rightarrow> bytes \<Rightarrow> 'w site \<Rightarrow> api_response \<times> 'w site" where
  "pools_change C E H J peer h se i raw st =
     (case J raw of
        Err m \<Rightarrow> (bad_json m, st)
      | Ok change \<Rightarrow>
      if pc_active change = None \<and> pc_autostart change = None
      then (error_response 400 ''the body needs \"active\" or \"autostart\"'', st)
      else case hm_get (pools (h_inventory H)) i of
        None \<Rightarrow> (error_response 404 ''no such pool'', st)
      | Some pool \<Rightarrow>
      case h_virt H of
        None \<Rightarrow> (no_libvirt, st)
      | Some L \<Rightarrow>
          (let row = pool_row C peer h se (pl_name pool) in
           change_part (pc_active change)
             (\<lambda>active. audited C E H ''audit active'' POOL_NOT_FOUND row (if active then ''pool.started'' else ''pool.stopped'') None
               (set_pool_active L (h_task H ''pool active'') i active))
             (change_part (pc_autostart change)
               (\<lambda>on. audited C E H ''audit autostart'' POOL_NOT_FOUND row ''pool.edited''
                 (Some (if on then ''autostart-on'' else ''autostart-off'')) (set_pool_autostart L (h_task H ''pool autostart'') i on))
               (\<lambda>st. (respond 204 NoBody, st))) st))"

text \<open>The libvirt calls of a removal: the pool's XML decides whether the folder is Lodger's own.\<close>

definition pool_removal :: "'w libvirt \<Rightarrow> 'w host \<Rightarrow> uuid \<Rightarrow> ustr \<Rightarrow> bool \<Rightarrow> ('w, unit, Error) virt" where
  "pool_removal L H i name delete_files =
     vbind (pool_xml L (h_task H ''pool xml'') i) (\<lambda>xml.
       remove_pool L (h_task H ''remove pool'') i delete_files
         (case PoolXml_parse (h_xml H) xml of Ok px \<Rightarrow> in_lodger_mount_root (h_xml H) px name | Err _ \<Rightarrow> False))"

definition pools_remove ::
    "conf \<Rightarrow> env \<Rightarrow> 'w host \<Rightarrow> PoolRemoval json \<Rightarrow> ipaddr \<Rightarrow> headers \<Rightarrow> Session \<Rightarrow> uuid \<Rightarrow> bytes \<Rightarrow> 'w site \<Rightarrow> api_response \<times> 'w site" where
  "pools_remove C E H J peer h se i raw st =
     (case body_or_default J \<lparr>pr_confirm = None, pr_delete_files = False\<rparr> raw of
        Err m \<Rightarrow> (bad_json m, st)
      | Ok request \<Rightarrow>
      case hm_get (pools (h_inventory H)) i of
        None \<Rightarrow> (error_response 404 ''no such pool'', st)
      | Some pool \<Rightarrow>
      if pr_confirm request \<noteq> Some (pl_name pool)
      then (error_response 422 ''type the pool's name to remove it'', st)
      else case h_virt H of
        None \<Rightarrow> (no_libvirt, st)
      | Some L \<Rightarrow>
          (case audited C E H ''audit pool'' POOL_NOT_FOUND (pool_row C peer h se (pl_name pool)) ''pool.deleted''
              (Some (if pr_delete_files request then ''delete-files'' else ''keep-files''))
              (pool_removal L H i (pl_name pool) (pr_delete_files request)) st of
             (Ok _, st) \<Rightarrow> (respond 204 NoBody, st)
           | (Err response, st) \<Rightarrow> (response, st)))"

section \<open>What the handlers do\<close>

text \<open>A step that only reads: nothing is written to the service's state, and no call changes the host.\<close>

definition read_step :: "'w site \<Rightarrow> 'w site \<Rightarrow> bool" where
  "read_step st st' \<longleftrightarrow> fst st' = fst st \<and>
     (\<exists>new. trace (snd st') = trace (snd st) @ new \<and> list_all (\<lambda>(c, _). \<not> mutating c) new)"

lemma read_step_refl [simp]: "read_step st st"
  by (simp add: read_step_def)

lemma read_stepI: "reads_only m \<Longrightarrow> m s = (r, s') \<Longrightarrow> read_step (a, s) (a, s')"
  by (drule (1) makesD) (auto simp: read_step_def case_prod_unfold)

text \<open>The calls of a handler that reads and then changes something are those of the change.\<close>

lemma audited_step_after_read:
  assumes "read_step st st1" and "audited_step C E label P Q st1 st'" and "\<And>c. \<not> mutating c \<Longrightarrow> P c"
  shows "audited_step C E label P Q st st'"
proof -
  obtain new1 where 1: "fst st1 = fst st" "trace (snd st1) = trace (snd st) @ new1" "list_all (\<lambda>(c, _). \<not> mutating c) new1"
    using assms(1) by (auto simp: read_step_def)
  obtain entry new2 where 2: "Q entry" "fst st' = audit_log_entry C E label entry (fst st1)"
      "trace (snd st') = trace (snd st1) @ new2" "list_all (\<lambda>(c, _). P c) new2"
    using assms(2) by (auto simp: audited_step_def)
  have "list_all (\<lambda>(c, _). P c) new1"
    using 1(3) assms(3) by (auto simp: list_all_iff)
  with 1 2 show ?thesis
    unfolding audited_step_def by (intro exI [of _ entry] exI [of _ "new1 @ new2"]) simp
qed

lemma pool_row_fields: "entry_of C peer h se ''pool'' name (pool_row C peer h se name e)"
  by (simp add: entry_of_def pool_row_def target_pool_def entry_client_ip_def entry_account_def)

text \<open>What the code of a removal reads of the pool's XML: the folder is Lodger's own mount point.\<close>

definition lodger_owned :: "'w libvirt \<Rightarrow> 'w host \<Rightarrow> uuid \<Rightarrow> ustr \<Rightarrow> 'w conn \<Rightarrow> bool" where
  "lodger_owned L H i name s =
     (case fst (pool_xml L (h_task H ''pool xml'') i s) of
        Ok xml \<Rightarrow> (case PoolXml_parse (h_xml H) xml of Ok px \<Rightarrow> in_lodger_mount_root (h_xml H) px name | Err _ \<Rightarrow> False)
      | Err _ \<Rightarrow> False)"

lemma removal_call_read: "\<not> mutating c \<Longrightarrow> removal_call p df re c"
  by (cases c) auto

lemma pool_removal_steps:
  assumes "pool_removal L H i name df s = (r, s')"
  shows "\<exists>p new. trace s' = trace s @ new \<and> list_all (\<lambda>(c, _). removal_call p df (lodger_owned L H i name s) c) new"
proof -
  obtain x s1 where x: "pool_xml L (h_task H ''pool xml'') i s = (x, s1)" by fastforce
  obtain new1 where 1: "trace s1 = trace s @ new1" "list_all (\<lambda>c. \<not> mutating (fst c)) new1"
    using makesD [OF reads_pool_xml x] by blast
  have all1: "list_all (\<lambda>(c, _). removal_call p df re c) new1" for p re
    using 1(2) removal_call_read by (auto simp: list_all_iff)
  show ?thesis
  proof (cases x)
    case (Err e)
    with assms x 1 all1 show ?thesis by (auto simp: pool_removal_def vbind_def)
  next
    case (Ok xml)
    then have "remove_pool L (h_task H ''remove pool'') i df (lodger_owned L H i name s) s1 = (r, s')"
      using assms x by (simp add: pool_removal_def vbind_def lodger_owned_def)
    then obtain p new2 where "trace s' = trace s1 @ new2"
        "list_all (\<lambda>(c, _). removal_call p df (lodger_owned L H i name s) c) new2"
      using remove_pool_steps by blast
    with 1(1) all1 show ?thesis
      by (intro exI [of _ p] exI [of _ "new1 @ new2"]) simp
  qed
qed

text \<open>The calls of a create: the define of this XML, and the steps on the new pool; never a delete of its folder.\<close>

fun pool_creation_call :: "ustr \<Rightarrow> bool \<Rightarrow> call \<Rightarrow> bool" where
  "pool_creation_call xml autostart (DefinePool x) = (x = xml)"
| "pool_creation_call xml autostart (PoolSetAutostart p on) = (on = autostart)"
| "pool_creation_call xml autostart (PoolBuild p) = True"
| "pool_creation_call xml autostart (PoolCreate p) = True"
| "pool_creation_call xml autostart (PoolDestroy p) = True"
| "pool_creation_call xml autostart (PoolUndefine p) = True"
| "pool_creation_call xml autostart c = (\<not> mutating c)"

lemma pool_creation_call_read: "\<not> mutating c \<Longrightarrow> pool_creation_call xml autostart c"
  by (cases c) auto

lemma create_pool_calls: "makes (\<lambda>(c, _). pool_creation_call xml autostart c) (create_pool L tf xml autostart)"
  unfolding create_pool_def create_pool_on_def by (auto intro!: makes_intros split: result.splits)

text \<open>A pool that fits beside the others: a new name, a folder that no other has and no NFS export that another mounts.\<close>

definition pool_fits :: "xmltree \<Rightarrow> NewPool \<Rightarrow> (ustr \<times> ustr) list \<Rightarrow> bool" where
  "pool_fits X pool existing \<longleftrightarrow>
     list_all (\<lambda>(name, xml). name \<noteq> as_str (pool_name pool) \<and>
       (case PoolXml_parse X xml of
          Err _ \<Rightarrow> True
        | Ok px \<Rightarrow> Option.bind (PoolXml_target_path X px) plain \<noteq> Some (pool_path pool) \<and> \<not> nfs_clash X pool px)) existing"

lemma target_path_stable: "target_path v = Ok p \<Longrightarrow> target_path p = Ok p"
  using parse_path_plain plain_path_fixed by (auto simp: target_path_Ok)

lemma pool_of_request_Ok:
  assumes "Name_parse f (cp_name request) = Ok name" and "pool_of_request request name = Ok pool"
  shows "pool_wf pool \<and> pool_name pool = name \<and> target_path (pool_path pool) = Ok (pool_path pool)"
proof -
  have n: "checked_name name"
    using assms(1) by (auto simp: checked_name_def Name_parse_Ok)
  show ?thesis
  proof (cases "cp_kind request")
    case KindDir
    with assms(2) obtain path where "NewPool_dir name path = Ok pool"
      by (auto simp: pool_of_request_def Let_def map_err_Ok split: option.splits)
    with n NewPool_dir_wf [OF n] show ?thesis
      by (auto simp: NewPool_dir_def result_simps dest: target_path_stable)
  next
    case KindNfs
    with assms(2) obtain hs export path where "NewPool_nfs name hs export path = Ok pool"
      by (auto simp: pool_of_request_def Let_def map_err_Ok split: option.splits)
    with n NewPool_nfs_wf [OF n] show ?thesis
      by (auto simp: NewPool_nfs_def result_simps dest: target_path_stable)
  qed
qed

lemma case_unit_Ok: "(case r of Err e \<Rightarrow> Err (g e) | Ok _ \<Rightarrow> Ok p) = Ok q \<longleftrightarrow> r = Ok () \<and> p = q"
  by (cases r) auto

lemma new_pool_Ok:
  assumes "new_pool X request existing = Ok pool"
  shows "pool_wf pool \<and> as_str (pool_name pool) = cp_name request \<and> target_path (pool_path pool) = Ok (pool_path pool) \<and>
    pool_fits X pool existing"
proof -
  let ?parsed = "List.map_filter (\<lambda>(name, xml). map_option (Pair name) (ok (PoolXml_parse X xml))) existing"
  obtain name where 1: "Name_parse ''Pool name'' (cp_name request) = Ok name" "pool_of_request request name = Ok pool"
      "\<not> list_ex (\<lambda>(other, _). other = cp_name request) existing" "NewPool_check_against X pool ?parsed = Ok ()"
    using assms
    by (cases "Name_parse ''Pool name'' (cp_name request)")
      (auto simp: new_pool_def Let_def result_simps case_unit_Ok split: if_splits)
  have name: "as_str name = cp_name request"
    using 1(1) by (auto simp: Name_parse_Ok)
  have "pool_fits X pool existing"
    unfolding pool_fits_def list_all_iff
  proof (safe, goal_cases)
    case (1 n xml)
    with \<open>\<not> list_ex _ existing\<close> name pool_of_request_Ok [OF \<open>Name_parse _ _ = Ok name\<close> \<open>pool_of_request request name = Ok pool\<close>]
    show ?case by (auto simp: list_ex_iff)
  next
    case (2 n xml)
    show ?case
    proof (cases "PoolXml_parse X xml")
      case (Ok px)
      with 2 have "(n, px) \<in> set ?parsed"
        by (force simp: List.map_filter_def)
      with \<open>NewPool_check_against X pool ?parsed = Ok ()\<close> Ok show ?thesis
        by (auto simp: check_against_Ok)
    qed simp
  qed
  with pool_of_request_Ok [OF 1(1,2)] name show ?thesis by simp
qed

section \<open>Properties\<close>


text \<open>
  C12: A pool is created only from a checked request, and the attempt is audited. Whatever other requests do and
  libvirt answers, a create request either only reads, or the new pool has the requested name, a
  folder outside the protected system folders, and neither the name nor the folder nor the NFS export of any
  pool that libvirt listed; the only definition sent to libvirt is that pool's XML, the new pool's folder is
  never deleted, and one audit entry with the account, the address and the pool's name follows.
\<close>

theorem pools_create_checked_and_audited:
  "case pools_create C E H J peer h se raw st of (r, st') \<Rightarrow>
     read_step st st' \<or>
     (\<exists>L request existing pool. h_virt H = Some L \<and> J raw = Ok request \<and>
        fst (pool_xmls L (h_task H ''pool xmls'') (snd st)) = Ok existing \<and>
        pool_wf pool \<and> as_str (pool_name pool) = cp_name request \<and> target_path (pool_path pool) = Ok (pool_path pool) \<and>
        pool_fits (h_xml H) pool existing \<and>
        audited_step C E ''audit pool'' (pool_creation_call (NewPool_to_xml (h_xml H) pool) (cp_autostart request))
          (entry_of C peer h se ''pool'' (cp_name request)) st st')"
proof -
  obtain r st' where run: "pools_create C E H J peer h se raw st = (r, st')" by (metis surj_pair)
  obtain a s where st: "st = (a, s)" by (cases st)
  show ?thesis
  proof (cases "read_step st st'")
    case True
    with run show ?thesis by simp
  next
    case False
    then obtain request L where c: "J raw = Ok request" "h_virt H = Some L"
      using run by (auto simp: pools_create_def split: option.splits result.splits)
    obtain x s1 where x: "pool_xmls L (h_task H ''pool xmls'') s = (x, s1)" by fastforce
    have read: "read_step (a, s) (a, s1)"
      by (rule read_stepI [OF reads_pool_xmls x])
    with False run c x st obtain existing pool where e: "x = Ok existing" "new_pool (h_xml H) request existing = Ok pool"
      by (auto simp: pools_create_def split: result.splits)
    let ?xml = "NewPool_to_xml (h_xml H) pool" and ?on = "cp_autostart request"
    obtain y s2 where y: "create_pool L (h_task H ''create pool'') ?xml ?on s1 = (y, s2)" by fastforce
    obtain entry where "st' = (audit_log_entry C E ''audit pool'' (pool_row C peer h se (as_str (pool_name pool)) entry) a, s2)"
      using run c x st e y by (auto simp: pools_create_def Let_def split: result.splits)
    then have "audited_step C E ''audit pool'' (pool_creation_call ?xml ?on) (entry_of C peer h se ''pool'' (cp_name request)) (a, s1) st'"
      using audited_stepI [OF create_pool_calls y] pool_row_fields new_pool_Ok [OF e(2)] by metis
    then have "audited_step C E ''audit pool'' (pool_creation_call ?xml ?on) (entry_of C peer h se ''pool'' (cp_name request)) st st'"
      using audited_step_after_read [OF read] pool_creation_call_read st by blast
    with run c x st e(1) new_pool_Ok [OF e(2)] show ?thesis by auto
  qed
qed

end
