(* ===== verification/Networks_Api.thy ===== *)
theory Networks_Api
  imports Pools_Api
begin

text \<open>\<^verbatim>\<open>lodger/src/networks.rs\<close>: the virtual networks API.\<close>

section \<open>Model\<close>

definition NETWORK_NOT_FOUND :: NotFound where
  "NETWORK_NOT_FOUND = \<lparr>nf_reason = ''no_such_network'', nf_message = ''no such network''\<rparr>"

datatype NetMode = ModeNat | ModeIsolated | ModeBridge

record CreateNetwork =
  cn_name :: ustr
  cn_mode :: NetMode
  cn_subnet :: "ustr option"
  cn_bridge :: "ustr option"
  cn_autostart :: bool

record NetworkChange =
  nc_active :: "bool option"
  nc_autostart :: "bool option"

record NetworkRemoval =
  nr_confirm :: "ustr option"

definition networks_list :: "'w host \<Rightarrow> api_response" where
  "networks_list H =
     respond 200 (Content (Networks (sort_key (\<lambda>n. (nw_name n, nw_uuid n)) (map snd (networks (h_inventory H))))))"

text \<open>Docker's default bridge, and its user networks: \<^verbatim>\<open>br-\<close> and 12 hex digits.\<close>

definition bridge_owner :: "ustr \<Rightarrow> (ustr \<times> ustr) list \<Rightarrow> ustr option" where
  "bridge_owner name libvirt =
     (case find (\<lambda>(bridge, _). bridge = name) libvirt of
        Some (_, network) \<Rightarrow> Some (lit ''libvirt network '' @ network)
      | None \<Rightarrow>
          if name = lit ''docker0'' \<or>
            (case strip_prefix (lit ''br-'') name of
               Some rest \<Rightarrow> str_len rest = 12 \<and> list_all is_ascii_hexdigit rest
             | None \<Rightarrow> False)
          then Some (lit ''Docker'') else None)"

definition created_bridge :: "xmltree \<Rightarrow> ustr \<times> ustr \<Rightarrow> (ustr \<times> ustr) option" where
  "created_bridge X p =
     (case p of (name, xml) \<Rightarrow>
      Option.bind (ok (NetworkXml_parse X xml)) (\<lambda>nx.
        if NetworkXml_forward_mode X nx = Some (lit ''bridge'') then None
        else map_option (\<lambda>b. (b, name)) (NetworkXml_bridge X nx)))"

definition host_bridges :: "'w host \<Rightarrow> 'w conn \<Rightarrow> api_response \<times> 'w conn" where
  "host_bridges H s =
     (let (found, s) = (case h_virt H of
            Some L \<Rightarrow>
              (case network_xmls L (h_task H ''network xmls'') s of
                 (Ok xs, s) \<Rightarrow> (xs, s) | (Err _, s) \<Rightarrow> ([], s))
          | None \<Rightarrow> ([], s));
          libvirt = List.map_filter (created_bridge (h_xml H)) found
      in (respond 200 (Content (Bridges
            (map (\<lambda>name. \<lparr>hb_name = name, hb_owner = bridge_owner name libvirt\<rparr>) (bridges_in (h_bridges H))))), s))"

definition network_facts :: "'w libvirt \<Rightarrow> 'w host \<Rightarrow> uuid \<Rightarrow> ('w, NetworkXml \<times> ustr list, Error) virt" where
  "network_facts L H i =
     vbind (network_xml L (h_task H ''network xml'') i) (\<lambda>xml.
       case NetworkXml_parse (h_xml H) xml of
         Err e \<Rightarrow> vreturn (Err (XmlFailed e))
       | Ok nx \<Rightarrow> vbind (network_users L (h_xml H) (h_task H ''network users'') i) (\<lambda>used_by. vreturn (Ok (nx, used_by))))"

definition networks_detail :: "'w host \<Rightarrow> uuid \<Rightarrow> 'w conn \<Rightarrow> api_response \<times> 'w conn" where
  "networks_detail H i s =
     (case hm_get (networks (h_inventory H)) i of
        None \<Rightarrow> (error_response 404 ''no such network'', s)
      | Some nw \<Rightarrow>
      case h_virt H of
        None \<Rightarrow> (no_libvirt, s)
      | Some L \<Rightarrow>
          (case network_facts L H i s of
             (Ok (nx, used_by), s) \<Rightarrow>
               (respond 200 (Content (NetworkFacts
                 \<lparr>nd_network = nw, nd_mode = NetworkXml_forward_mode (h_xml H) nx,
                  nd_subnets = map (net_to_string (h_net H)) (NetworkXml_subnets (h_xml H) (h_net H) nx),
                  nd_used_by = used_by\<rparr>)), s)
           | (Err e, s) \<Rightarrow>
               (if is_not_found e then error_response 404 ''no such network'' else error_answer H 502 e, s)))"

definition network_of_request :: "ipnet \<Rightarrow> CreateNetwork \<Rightarrow> ustr list \<Rightarrow> Name \<Rightarrow> (NewNetwork, InputError) result" where
  "network_of_request N request bridges name =
     (case cn_mode request of
        ModeNat \<Rightarrow>
          (case cn_subnet request of None \<Rightarrow> Err (Empty ''Subnet'') | Some subnet \<Rightarrow> NewNetwork_nat N name subnet)
      | ModeIsolated \<Rightarrow>
          (case cn_subnet request of None \<Rightarrow> Err (Empty ''Subnet'') | Some subnet \<Rightarrow> NewNetwork_isolated N name subnet)
      | ModeBridge \<Rightarrow>
          (case cn_bridge request of None \<Rightarrow> Err (Empty ''Host bridge'') | Some bridge \<Rightarrow> NewNetwork_bridge name bridge bridges))"

definition new_network ::
    "xmltree \<Rightarrow> ipnet \<Rightarrow> CreateNetwork \<Rightarrow> (ustr \<times> ustr) list \<Rightarrow> ustr list \<Rightarrow> (NewNetwork, api_response) result" where
  "new_network X N request existing bridges =
     (case Name_parse ''Network name'' (cn_name request) of
        Err e \<Rightarrow> Err (respond 422 (BadInput e))
      | Ok name \<Rightarrow>
          if list_ex (\<lambda>(other, _). other = cn_name request) existing
          then Err (respond 409 (MessageAbout ''a network called {} exists already'' (cn_name request)))
          else map_err (\<lambda>e. respond 422 (BadInput e))
            (and_then (network_of_request N request bridges name) (\<lambda>nw.
              let parsed = List.map_filter (\<lambda>(name, xml). map_option (Pair name) (ok (NetworkXml_parse X xml))) existing in
              and_then (NewNetwork_check_against X N nw parsed) (\<lambda>_. Ok nw))))"

definition network_row :: "conf \<Rightarrow> ipaddr \<Rightarrow> headers \<Rightarrow> Session \<Rightarrow> ustr \<Rightarrow> AuditEntry \<Rightarrow> AuditEntry" where
  "network_row C peer h se name entry =
     target_network name (entry_client_ip (client_ip C peer h) (entry_account (session_username se) entry))"

definition networks_create ::
    "conf \<Rightarrow> env \<Rightarrow> 'w host \<Rightarrow> CreateNetwork json \<Rightarrow> ipaddr \<Rightarrow> headers \<Rightarrow> Session \<Rightarrow> bytes \<Rightarrow> 'w site \<Rightarrow> api_response \<times> 'w site" where
  "networks_create C E H J peer h se raw st =
     (case J raw of
        Err m \<Rightarrow> (bad_json m, st)
      | Ok request \<Rightarrow>
      case h_virt H of
        None \<Rightarrow> (no_libvirt, st)
      | Some L \<Rightarrow>
          (let (a, s) = st in
           case network_xmls L (h_task H ''network xmls'') s of
             (Err e, s) \<Rightarrow> (error_answer H 502 e, a, s)
           | (Ok existing, s) \<Rightarrow>
               (case new_network (h_xml H) (h_net H) request existing (bridges_in (h_bridges H)) of
                  Err response \<Rightarrow> (response, a, s)
                | Ok nw \<Rightarrow>
                    (let row = network_row C peer h se (as_str (net_name nw)) in
                     case create_network L (h_task H ''create network'') (NewNetwork_to_xml (h_xml H) (h_net H) nw)
                         (cn_autostart request) s of
                       (Ok i, s) \<Rightarrow>
                         (respond 201 (Content (NewUuid i)),
                          audit_log_entry C E ''audit network'' (row (entry_ok ''network.created'')) a, s)
                     | (Err e, s) \<Rightarrow>
                         (error_answer H 502 e,
                          audit_log_entry C E ''audit network'' (row (entry_failed ''network.created'' ''libvirt_error'')) a, s)))))"

definition networks_change ::
    "conf \<Rightarrow> env \<Rightarrow> 'w host \<Rightarrow> NetworkChange json \<Rightarrow> ipaddr \<Rightarrow> headers \<Rightarrow> Session \<Rightarrow> uuid \<Rightarrow> bytes \<Rightarrow> 'w site \<Rightarrow> api_response \<times> 'w site" where
  "networks_change C E H J peer h se i raw st =
     (case J raw of
        Err m \<Rightarrow> (bad_json m, st)
      | Ok change \<Rightarrow>
      if nc_active change = None \<and> nc_autostart change = None
      then (error_response 400 ''the body needs \"active\" or \"autostart\"'', st)
      else case hm_get (networks (h_inventory H)) i of
        None \<Rightarrow> (error_response 404 ''no such network'', st)
      | Some nw \<Rightarrow>
      case h_virt H of
        None \<Rightarrow> (no_libvirt, st)
      | Some L \<Rightarrow>
          (let row = network_row C peer h se (nw_name nw) in
           change_part (nc_active change)
             (\<lambda>active. audited C E H ''audit active'' NETWORK_NOT_FOUND row
               (if active then ''network.started'' else ''network.stopped'') None
               (set_network_active L (h_task H ''network active'') i active))
             (change_part (nc_autostart change)
               (\<lambda>on. audited C E H ''audit autostart'' NETWORK_NOT_FOUND row ''network.edited''
                 (Some (if on then ''autostart-on'' else ''autostart-off''))
                 (set_network_autostart L (h_task H ''network autostart'') i on))
               (\<lambda>st. (respond 204 NoBody, st))) st))"

definition networks_remove ::
    "conf \<Rightarrow> env \<Rightarrow> 'w host \<Rightarrow> NetworkRemoval json \<Rightarrow> ipaddr \<Rightarrow> headers \<Rightarrow> Session \<Rightarrow> uuid \<Rightarrow> bytes \<Rightarrow> 'w site \<Rightarrow> api_response \<times> 'w site" where
  "networks_remove C E H J peer h se i raw st =
     (case body_or_default J \<lparr>nr_confirm = None\<rparr> raw of
        Err m \<Rightarrow> (bad_json m, st)
      | Ok request \<Rightarrow>
      case hm_get (networks (h_inventory H)) i of
        None \<Rightarrow> (error_response 404 ''no such network'', st)
      | Some nw \<Rightarrow>
      if nr_confirm request \<noteq> Some (nw_name nw)
      then (error_response 422 ''type the network's name to delete it'', st)
      else case h_virt H of
        None \<Rightarrow> (no_libvirt, st)
      | Some L \<Rightarrow>
          (case audited C E H ''audit network'' NETWORK_NOT_FOUND (network_row C peer h se (nw_name nw)) ''network.deleted'' None
              (delete_network L (h_task H ''delete network'') i) st of
             (Ok _, st) \<Rightarrow> (respond 204 NoBody, st)
           | (Err response, st) \<Rightarrow> (response, st)))"

section \<open>What the handlers do\<close>

lemma network_row_fields: "entry_of C peer h se ''network'' name (network_row C peer h se name e)"
  by (simp add: entry_of_def network_row_def target_network_def entry_client_ip_def entry_account_def)

text \<open>The calls of a create: the define of this XML, and the steps on the new network.\<close>

fun network_creation_call :: "ustr \<Rightarrow> bool \<Rightarrow> call \<Rightarrow> bool" where
  "network_creation_call xml autostart (DefineNetwork x) = (x = xml)"
| "network_creation_call xml autostart (NetworkSetAutostart n on) = (on = autostart)"
| "network_creation_call xml autostart (NetworkCreate n) = True"
| "network_creation_call xml autostart (NetworkDestroy n) = True"
| "network_creation_call xml autostart (NetworkUndefine n) = True"
| "network_creation_call xml autostart c = (\<not> mutating c)"

lemma network_creation_call_read: "\<not> mutating c \<Longrightarrow> network_creation_call xml autostart c"
  by (cases c) auto

lemma create_network_calls: "makes (\<lambda>(c, _). network_creation_call xml autostart c) (create_network L tf xml autostart)"
  unfolding create_network_def create_network_on_def by (auto intro!: makes_intros split: result.splits)

text \<open>
  A network that fits beside the others: a new name, and a subnet that shares no address with a subnet of any other.
\<close>

definition network_fits :: "xmltree \<Rightarrow> ipnet \<Rightarrow> NewNetwork \<Rightarrow> (ustr \<times> ustr) list \<Rightarrow> bool" where
  "network_fits X N nw existing \<longleftrightarrow>
     list_all (\<lambda>(name, xml). name \<noteq> as_str (net_name nw) \<and>
       (case (NewNetwork_subnet nw, NetworkXml_parse X xml) of
          (Some subnet, Ok nx) \<Rightarrow> list_all (\<lambda>m. addresses N subnet \<inter> addresses N m = {}) (NetworkXml_subnets X N nx)
        | _ \<Rightarrow> True)) existing"

text \<open>A bridge is used only if it is among the host's bridges.\<close>

definition bridge_exists :: "ustr list \<Rightarrow> NewNetwork \<Rightarrow> bool" where
  "bridge_exists bridges nw \<longleftrightarrow> (case net_mode nw of Bridge b \<Rightarrow> b \<in> set bridges | _ \<Rightarrow> True)"

lemma network_of_request_Ok:
  assumes "Name_parse f (cn_name request) = Ok name" and "network_of_request N request bridges name = Ok nw"
  shows "network_wf N nw \<and> net_name nw = name \<and> bridge_exists bridges nw"
proof -
  have n: "checked_name name"
    using assms(1) by (auto simp: checked_name_def Name_parse_Ok)
  show ?thesis
  proof (cases "cn_mode request")
    case ModeNat
    with assms(2) obtain subnet where "NewNetwork_nat N name subnet = Ok nw"
      by (auto simp: network_of_request_def split: option.splits)
    with NewNetwork_nat_wf [OF n] show ?thesis
      by (auto simp: NewNetwork_nat_def result_simps bridge_exists_def)
  next
    case ModeIsolated
    with assms(2) obtain subnet where "NewNetwork_isolated N name subnet = Ok nw"
      by (auto simp: network_of_request_def split: option.splits)
    with NewNetwork_isolated_wf [OF n] show ?thesis
      by (auto simp: NewNetwork_isolated_def result_simps bridge_exists_def)
  next
    case ModeBridge
    with assms(2) obtain b where "NewNetwork_bridge name b bridges = Ok nw"
      by (auto simp: network_of_request_def split: option.splits)
    with NewNetwork_bridge_wf [OF n] show ?thesis
      by (auto simp: NewNetwork_bridge_def result_simps bridge_exists_def list_ex_iff split: if_splits)
  qed
qed

lemma new_network_Ok:
  assumes "ipnet_laws N" and "new_network X N request existing bridges = Ok nw"
  shows "network_wf N nw \<and> as_str (net_name nw) = cn_name request \<and> bridge_exists bridges nw \<and>
    network_fits X N nw existing"
proof -
  let ?parsed = "List.map_filter (\<lambda>(name, xml). map_option (Pair name) (ok (NetworkXml_parse X xml))) existing"
  obtain name where 1: "Name_parse ''Network name'' (cn_name request) = Ok name"
      "network_of_request N request bridges name = Ok nw"
      "\<not> list_ex (\<lambda>(other, _). other = cn_name request) existing" "NewNetwork_check_against X N nw ?parsed = Ok ()"
    using assms(2)
    by (cases "Name_parse ''Network name'' (cn_name request)")
      (auto simp: new_network_def Let_def result_simps map_err_Ok split: if_splits)
  note wf = network_of_request_Ok [OF 1(1,2)]
  have name: "as_str name = cn_name request"
    using 1(1) by (auto simp: Name_parse_Ok)
  have disjoint: "list_all (\<lambda>m. addresses N subnet \<inter> addresses N m = {}) (NetworkXml_subnets X N nx)"
    if "(n, xml) \<in> set existing" "NewNetwork_subnet nw = Some subnet" "NetworkXml_parse X xml = Ok nx" for n xml subnet nx
  proof -
    have "(n, nx) \<in> set ?parsed"
      using that by (force simp: List.map_filter_def)
    with check_against_disjoint [OF assms(1) _ that(2), of X ?parsed] wf 1(4) show ?thesis
      by (fastforce simp: list_all_iff)
  qed
  have "case (NewNetwork_subnet nw, NetworkXml_parse X xml) of
      (Some subnet, Ok nx) \<Rightarrow> list_all (\<lambda>m. addresses N subnet \<inter> addresses N m = {}) (NetworkXml_subnets X N nx)
    | _ \<Rightarrow> True" if "(n, xml) \<in> set existing" for n xml
    using disjoint [OF that] by (cases "NewNetwork_subnet nw"; cases "NetworkXml_parse X xml") simp_all
  then have "network_fits X N nw existing"
    using 1(3) name wf by (fastforce simp: network_fits_def list_all_iff list_ex_iff)
  with wf name show ?thesis by simp
qed

section \<open>Properties\<close>

text \<open>
  C14: A network is created only from a checked request, and the attempt is audited. Whatever other requests do and
  libvirt answers, a create request either only reads, or the new network has the requested name, which no
  network that libvirt listed has, its subnet shares no address with any of theirs, its bridge is one of the
  host's; the only definition sent to libvirt is that network's XML, and one audit entry with the
  account, the address and the network's name follows.
\<close>

theorem networks_create_checked_and_audited:
  assumes "ipnet_laws (h_net H)" and "networks_create C E H J peer h se raw st = (r, st')"
  shows "read_step st st' \<or>
     (\<exists>L request existing nw. h_virt H = Some L \<and> J raw = Ok request \<and>
        fst (network_xmls L (h_task H ''network xmls'') (snd st)) = Ok existing \<and>
        network_wf (h_net H) nw \<and> as_str (net_name nw) = cn_name request \<and>
        bridge_exists (bridges_in (h_bridges H)) nw \<and> network_fits (h_xml H) (h_net H) nw existing \<and>
        audited_step C E ''audit network''
          (network_creation_call (NewNetwork_to_xml (h_xml H) (h_net H) nw) (cn_autostart request))
          (entry_of C peer h se ''network'' (cn_name request)) st st')"
proof (cases "read_step st st'")
  case False
  note run = assms(2)
  obtain a s where st: "st = (a, s)" by (cases st)
  from False obtain request L where c: "J raw = Ok request" "h_virt H = Some L"
    using run by (auto simp: networks_create_def split: option.splits result.splits)
  obtain x s1 where x: "network_xmls L (h_task H ''network xmls'') s = (x, s1)" by fastforce
  have read: "read_step (a, s) (a, s1)"
    by (rule read_stepI [OF reads_network_xmls x])
  with False run c x st obtain existing nw where e: "x = Ok existing"
      "new_network (h_xml H) (h_net H) request existing (bridges_in (h_bridges H)) = Ok nw"
    by (auto simp: networks_create_def split: result.splits)
  note new = new_network_Ok [OF assms(1) e(2)]
  let ?xml = "NewNetwork_to_xml (h_xml H) (h_net H) nw" and ?on = "cn_autostart request"
  let ?P = "network_creation_call ?xml ?on" and ?Q = "entry_of C peer h se ''network'' (cn_name request)"
  obtain y s2 where y: "create_network L (h_task H ''create network'') ?xml ?on s1 = (y, s2)" by fastforce
  obtain entry where "st' = (audit_log_entry C E ''audit network'' (network_row C peer h se (as_str (net_name nw)) entry) a, s2)"
    using run c x st e y by (auto simp: networks_create_def Let_def split: result.splits)
  then have "audited_step C E ''audit network'' ?P ?Q (a, s1) st'"
    using audited_stepI [OF create_network_calls y] network_row_fields new by metis
  then have "audited_step C E ''audit network'' ?P ?Q st st'"
    using audited_step_after_read [OF read] network_creation_call_read st by blast
  with c x st e(1) new show ?thesis by auto
qed simp

subsection \<open>Witnesses\<close>

text \<open>A host without networks, and a request for one.\<close>

definition empty_libvirt :: "unit libvirt" where
  "empty_libvirt =
     \<lparr>lv_unit = (\<lambda>_ w. (Ok (), w)), lv_bool = (\<lambda>_ w. (Ok False, w)), lv_handle = (\<lambda>_ w. (Ok 5, w)),
      lv_handles = (\<lambda>_ w. (Ok [], w)), lv_text = (\<lambda>_ w. (Ok [], w)), lv_uuid = (\<lambda>_ w. (Ok (Uuid 7), w)),
      lv_dominfo = (\<lambda>_ w. (Ok \<lparr>di_state = 0, di_memory = 0, di_vcpus = 0\<rparr>, w)),
      lv_poolinfo = (\<lambda>_ w. (Ok \<lparr>pi_state = 0, pi_capacity = 0, pi_allocation = 0, pi_available = 0\<rparr>, w)),
      lv_volinfo = (\<lambda>_ w. (Ok \<lparr>vi_kind = 0, vi_capacity = 0, vi_allocation = 0\<rparr>, w))\<rparr>"

definition empty_host :: "unit host" where
  "empty_host =
     \<lparr>h_state = Connected, h_inventory = inventory_default, h_virt = Some empty_libvirt, h_xml = xml_codec, h_net = cidr,
      h_fs = (\<lambda>p. None), h_task = (\<lambda>_. None), h_show = (\<lambda>_. []), h_bridges = None\<rparr>"

definition example_network_request :: CreateNetwork where
  "example_network_request = \<lparr>cn_name = lit ''images'', cn_mode = ModeNat, cn_subnet = Some (lit ''192.168.150.0/24''),
     cn_bridge = None, cn_autostart = True\<rparr>"

definition example_login :: Session where
  "example_login = \<lparr>session_account_id = 1, session_username = lit ''admin'', session_csrf_token = lit ''csrf''\<rparr>"

definition example_creation :: "api_response \<times> unit site" where
  "example_creation = networks_create example_conf (quiet_env 5) empty_host (\<lambda>_. Ok example_network_request)
     (V4 2) no_headers example_login [] (example_app, \<lparr>world = (), trace = []\<rparr>)"

lemma example_network_new: "new_network xml_codec cidr example_network_request [] [] = Ok example_nat"
proof -
  have "Name_parse ''Network name'' (lit ''images'') = Ok (Name (lit ''images''))"
    by code_simp
  then show ?thesis
    using example_nat_built
    by (simp add: new_network_def example_network_request_def network_of_request_def List.map_filter_simps NewNetwork_check_against_def
        check_no_overlap_def split: option.split)
qed

lemmas empty_host_simps = empty_host_def empty_libvirt_def job_def verr_def vbind_def vtry_def vreturn_def ask_def

lemma example_creation_works:
  "status (fst example_creation) = 201"
  "trace (snd (snd example_creation)) =
    [(ListNetworks, None), (DefineNetwork (NewNetwork_to_xml xml_codec cidr example_nat), None),
     (NetworkSetAutostart 5 True, None), (NetworkCreate 5, None), (NetworkUuid 5, None)]"
  using example_network_new
  by (simp_all add: example_creation_def networks_create_def network_xmls_def create_network_def create_network_on_def
      bridges_in_def empty_host_simps respond_def example_network_request_def Let_def)

theorem networks_create_checked_and_audited_witness:
  "\<exists>nw. network_wf cidr nw \<and> as_str (net_name nw) = lit ''images'' \<and>
     audited_step example_conf (quiet_env 5) ''audit network''
       (network_creation_call (NewNetwork_to_xml xml_codec cidr nw) True)
       (entry_of example_conf (V4 2) no_headers example_login ''network'' (lit ''images''))
       (example_app, \<lparr>world = (), trace = []\<rparr>) (snd example_creation)"
proof -
  have "\<not> read_step (example_app, \<lparr>world = (), trace = []\<rparr>) (snd example_creation)"
    using example_creation_works(2) by (simp add: read_step_def)
  moreover have "networks_create example_conf (quiet_env 5) empty_host (\<lambda>_. Ok example_network_request)
      (V4 2) no_headers example_login [] (example_app, \<lparr>world = (), trace = []\<rparr>) = (fst example_creation, snd example_creation)"
    by (simp add: example_creation_def)
  ultimately show ?thesis
    using networks_create_checked_and_audited [of empty_host example_conf "quiet_env 5" "\<lambda>_. Ok example_network_request"
        "V4 2" no_headers example_login "[]" "(example_app, \<lparr>world = (), trace = []\<rparr>)" "fst example_creation" "snd example_creation"]
    by (auto simp: empty_host_def cidr_laws example_network_request_def)
qed

end
