(* ===== verification/Volumes_Api.thy ===== *)
theory Volumes_Api
  imports Pools_Api
begin

text \<open>\<^verbatim>\<open>lodger/src/volumes.rs\<close>: the storage volumes API. A volume is identified by its pool's UUID and its name.\<close>

section \<open>Model\<close>

definition VOLUME_NOT_FOUND :: NotFound where
  "VOLUME_NOT_FOUND = \<lparr>nf_reason = ''no_such_volume'', nf_message = ''no such pool or volume''\<rparr>"

datatype Format = FormatQcow2 | FormatRaw

record CreateVolume =
  cv_name :: ustr
  cv_format :: Format
  cv_capacity_bytes :: u64

text \<open>The answer when a read of the pool's volumes fails.\<close>

definition volume_read_failed :: "'w host \<Rightarrow> Error \<Rightarrow> api_response" where
  "volume_read_failed H e =
     (if is_not_found e then error_response 404 ''no such pool''
      else if is_invalid_operation e then error_answer H 409 e
      else error_answer H 502 e)"

definition volumes_list :: "'w host \<Rightarrow> uuid \<Rightarrow> 'w conn \<Rightarrow> api_response \<times> 'w conn" where
  "volumes_list H i s =
     (if hm_get (pools (h_inventory H)) i = None then (error_response 404 ''no such pool'', s)
      else case h_virt H of
        None \<Rightarrow> (no_libvirt, s)
      | Some L \<Rightarrow>
          (case volume_list L (h_xml H) (h_fs H) (h_task H ''volumes'') i s of
             (Ok vs, s) \<Rightarrow> (respond 200 (Content (Volumes vs)), s)
           | (Err e, s) \<Rightarrow> (volume_read_failed H e, s)))"

definition volume_row :: "conf \<Rightarrow> ipaddr \<Rightarrow> headers \<Rightarrow> Session \<Rightarrow> ustr \<Rightarrow> ustr \<Rightarrow> AuditEntry \<Rightarrow> AuditEntry" where
  "volume_row C peer h se pool_nm name entry =
     target_volume pool_nm name (entry_client_ip (client_ip C peer h) (entry_account (session_username se) entry))"

definition volumes_create ::
    "conf \<Rightarrow> env \<Rightarrow> 'w host \<Rightarrow> CreateVolume json \<Rightarrow> ipaddr \<Rightarrow> headers \<Rightarrow> Session \<Rightarrow> uuid \<Rightarrow> bytes \<Rightarrow> 'w site \<Rightarrow> api_response \<times> 'w site" where
  "volumes_create C E H J peer h se i raw st =
     (case J raw of
        Err m \<Rightarrow> (bad_json m, st)
      | Ok request \<Rightarrow>
      case hm_get (pools (h_inventory H)) i of
        None \<Rightarrow> (error_response 404 ''no such pool'', st)
      | Some pool \<Rightarrow>
      case and_then (Name_parse ''Volume name'' (cv_name request)) (\<lambda>name.
          NewVolume_new name (case cv_format request of FormatQcow2 \<Rightarrow> Qcow2 | FormatRaw \<Rightarrow> Raw) (cv_capacity_bytes request)) of
        Err e \<Rightarrow> (respond 422 (BadInput e), st)
      | Ok vol \<Rightarrow>
      case h_virt H of
        None \<Rightarrow> (no_libvirt, st)
      | Some L \<Rightarrow>
          (let (a, s) = st in
           case volume_names L (h_task H ''volume names'') i s of
             (Err e, s) \<Rightarrow> (volume_read_failed H e, a, s)
           | (Ok existing, s) \<Rightarrow>
               (case NewVolume_check_against vol (pl_name pool) existing of
                  Err e \<Rightarrow> (respond 409 (BadInput e), a, s)
                | Ok _ \<Rightarrow>
                    (case audited C E H ''audit volume'' VOLUME_NOT_FOUND
                        (volume_row C peer h se (pl_name pool) (as_str (volume_name vol))) ''volume.created'' None
                        (create_volume L (h_task H ''create volume'') i (NewVolume_to_xml (h_xml H) vol)) (a, s) of
                       (Ok _, st) \<Rightarrow> (respond 201 (Content (NewName (as_str (volume_name vol)))), st)
                     | (Err response, st) \<Rightarrow> (response, st)))))"

definition volumes_remove ::
    "conf \<Rightarrow> env \<Rightarrow> 'w host \<Rightarrow> ipaddr \<Rightarrow> headers \<Rightarrow> Session \<Rightarrow> uuid \<Rightarrow> ustr \<Rightarrow> 'w site \<Rightarrow> api_response \<times> 'w site" where
  "volumes_remove C E H peer h se i name st =
     (case check_text ''Volume name'' name of
        Err e \<Rightarrow> (respond 422 (BadInput e), st)
      | Ok _ \<Rightarrow>
      case hm_get (pools (h_inventory H)) i of
        None \<Rightarrow> (error_response 404 ''no such pool'', st)
      | Some pool \<Rightarrow>
      case h_virt H of
        None \<Rightarrow> (no_libvirt, st)
      | Some L \<Rightarrow>
          (case audited C E H ''audit volume'' VOLUME_NOT_FOUND (volume_row C peer h se (pl_name pool) name) ''volume.deleted'' None
              (delete_volume L (h_xml H) (h_fs H) (h_task H ''delete volume'') i name) st of
             (Ok _, st) \<Rightarrow> (respond 204 NoBody, st)
           | (Err response, st) \<Rightarrow> (response, st)))"

section \<open>What the handlers do\<close>

lemma volume_row_fields:
  "entry_of C peer h se ''volume'' (pool_nm @ lit ''/'' @ name) (volume_row C peer h se pool_nm name e)"
  by (simp add: entry_of_def volume_row_def target_volume_def entry_client_ip_def entry_account_def)

lemma reads_volume_names: "reads_only (volume_names L tf i)"
  unfolding volume_names_def by (auto intro!: makes_intros reads_running_pool)

text \<open>The only change of a create is one new volume.\<close>

fun volume_creation_call :: "ustr \<Rightarrow> call \<Rightarrow> bool" where
  "volume_creation_call xml (VolCreate p x) = (x = xml)"
| "volume_creation_call xml c = (\<not> mutating c)"

lemma volume_creation_call_read: "\<not> mutating c \<Longrightarrow> volume_creation_call xml c"
  by (cases c) auto

lemma create_volume_calls: "makes (\<lambda>(c, _). volume_creation_call xml c) (create_volume L tf i xml)"
  unfolding create_volume_def
  by (auto intro!: makes_intros makes_mono [OF reads_running_pool] simp: volume_creation_call_read)

section \<open>Properties\<close>

text \<open>
  A volume is created only from a checked request, and the attempt is audited. Whatever other requests do and
  libvirt answers, a create request either only reads, or its pool is in the inventory, the volume has the requested
  name, in the plain form of names, and the requested size, between 1 MiB and 1 PiB, no volume that libvirt
  listed has the name, the only change sent to libvirt is that volume's XML, and one audit entry with the
  account, the address, the pool and the volume follows.
\<close>

theorem volumes_create_checked_and_audited:
  "case volumes_create C E H J peer h se i raw st of (r, st') \<Rightarrow>
     read_step st st' \<or>
     (\<exists>L request pool existing vol. h_virt H = Some L \<and> J raw = Ok request \<and>
        hm_get (pools (h_inventory H)) i = Some pool \<and>
        fst (volume_names L (h_task H ''volume names'') i (snd st)) = Ok existing \<and>
        checked_name (volume_name vol) \<and> as_str (volume_name vol) = cv_name request \<and> cv_name request \<notin> set existing \<and>
        capacity_bytes vol = cv_capacity_bytes request \<and>
        2 ^ 20 \<le> unat (capacity_bytes vol) \<and> unat (capacity_bytes vol) \<le> 2 ^ 50 \<and>
        audited_step C E ''audit volume''
          (volume_creation_call (NewVolume_to_xml (h_xml H) vol))
          (entry_of C peer h se ''volume'' (pl_name pool @ lit ''/'' @ cv_name request)) st st')"
proof -
  obtain r st' where run: "volumes_create C E H J peer h se i raw st = (r, st')" by (metis surj_pair)
  obtain a s where st: "st = (a, s)" by (cases st)
  show ?thesis
  proof (cases "read_step st st'")
    case True
    with run show ?thesis by simp
  next
    case False
    let ?vol = "\<lambda>request. and_then (Name_parse ''Volume name'' (cv_name request)) (\<lambda>name.
      NewVolume_new name (case cv_format request of FormatQcow2 \<Rightarrow> Qcow2 | FormatRaw \<Rightarrow> Raw) (cv_capacity_bytes request))"
    from False obtain request pool vol L where c: "J raw = Ok request" "hm_get (pools (h_inventory H)) i = Some pool"
        "?vol request = Ok vol" "h_virt H = Some L"
      using run by (auto simp: volumes_create_def split: option.splits result.splits)
    have vol: "checked_name (volume_name vol)" "as_str (volume_name vol) = cv_name request"
        "capacity_bytes vol = cv_capacity_bytes request" "MIN_BYTES \<le> capacity_bytes vol" "capacity_bytes vol \<le> MAX_BYTES"
      using c(3) by (auto simp: result_simps NewVolume_new_def Name_parse_Ok checked_name_def split: if_splits)
    then have size: "2 ^ 20 \<le> unat (capacity_bytes vol)" "unat (capacity_bytes vol) \<le> 2 ^ 50"
      by (simp_all add: MIN_BYTES_def MAX_BYTES_def word_le_nat_alt push_bit_eq_mult)
    obtain x s1 where x: "volume_names L (h_task H ''volume names'') i s = (x, s1)" by fastforce
    have read: "read_step (a, s) (a, s1)"
      by (rule read_stepI [OF reads_volume_names x])
    with False run c x st obtain existing where e: "x = Ok existing" "cv_name request \<notin> set existing"
      by (auto simp: volumes_create_def NewVolume_check_against_def list_ex_iff vol(2) split: result.splits if_splits)
    let ?call = "create_volume L (h_task H ''create volume'') i (NewVolume_to_xml (h_xml H) vol)"
    have "NewVolume_check_against vol (pl_name pool) existing = Ok ()"
      using e(2) by (auto simp: NewVolume_check_against_def list_ex_iff vol(2))
    then obtain r' where "audited C E H ''audit volume'' VOLUME_NOT_FOUND
        (volume_row C peer h se (pl_name pool) (as_str (volume_name vol))) ''volume.created'' None ?call (a, s1) = (r', st')"
      using run c x st e(1) by (auto simp: volumes_create_def split: result.splits prod.splits)
    then have "audited_step C E ''audit volume'' (volume_creation_call (NewVolume_to_xml (h_xml H) vol))
        (entry_of C peer h se ''volume'' (pl_name pool @ lit ''/'' @ cv_name request)) (a, s1) st'"
      using volume_row_fields [of C peer h se "pl_name pool" "cv_name request"]
      by (elim audited_audits) (auto simp: vol(2) dest: makesD [OF create_volume_calls])
    with audited_step_after_read [OF read this volume_creation_call_read] run c x st e vol(1-3) size show ?thesis by auto
  qed
qed

end
