(* ===== verification/Assets.thy ===== *)
theory Assets
  imports Service
begin

text \<open>
  \<^verbatim>\<open>lodger/src/assets.rs\<close>: the web UI's files. The embedded folder is the argument \<open>source\<close>, and \<open>header_value\<close> says which
  strings \<^verbatim>\<open>HeaderValue::from_str\<close> accepts.
\<close>

section \<open>Model\<close>

definition FALLBACK :: string where
  "FALLBACK = ''200.html''"

definition IMMUTABLE_PREFIX :: string where
  "IMMUTABLE_PREFIX = ''_app/immutable/''"

definition IMMUTABLE_CACHE :: string where
  "IMMUTABLE_CACHE = ''public, max-age=31536000, immutable''"

definition REVALIDATE :: string where
  "REVALIDATE = ''no-cache''"

definition STUB_PAGE :: string where
  "STUB_PAGE = ''<!doctype html>'' @ [CHR 0x0A] @ ''<html lang='' @ [CHR 0x22] @ ''en'' @ [CHR 0x22] @ ''><head><meta charset='' @
     [CHR 0x22] @ ''utf-8'' @ [CHR 0x22] @ ''><title>Lodger</title></head>'' @ [CHR 0x0A] @
     ''<body><h1>Lodger</h1><p>This binary was built without the web UI. Build it with <code>just build</code>, which runs <code>pnpm run build</code> in <code>web/</code> before <code>cargo build --release</code>.</p></body></html>'' @
     [CHR 0x0A]"

record Asset =
  asset_bytes :: "8 word list"
  asset_sha256 :: "8 word list"
  asset_mime :: ustr

datatype asset_content = FileBytes "8 word list" | PageText string

type_synonym asset_source = "ustr \<Rightarrow> Asset option"

text \<open>\<^verbatim>\<open>{b:02x}\<close>.\<close>

definition hex_digit :: "nat \<Rightarrow> uchar" where
  "hex_digit n = (if n < 10 then 48 + n else 87 + n)"

definition hex_byte :: "8 word \<Rightarrow> ustr" where
  "hex_byte b = [hex_digit (unat b div 16), hex_digit (unat b mod 16)]"

definition etag :: "8 word list \<Rightarrow> ustr" where
  "etag sha = [34] @ concat (map hex_byte (take 16 sha)) @ [34]"

definition with_charset :: "ustr \<Rightarrow> ustr" where
  "with_charset mime =
     (let text = starts_with (lit ''text/'') mime \<or>
            mime \<in> set (map lit [''application/javascript'', ''application/json'', ''application/xml'', ''image/svg+xml'']) \<or>
            ends_with (lit ''+xml'') mime \<or> ends_with (lit ''+json'') mime
      in if text \<and> \<not> contains_str (lit ''charset='') mime then mime @ lit ''; charset=utf-8'' else mime)"

definition asset_status :: "nat \<Rightarrow> asset_content response" where
  "asset_status code = \<lparr>status = code, resp_headers = [], body = NoBody\<rparr>"

definition asset_html :: "http_method \<Rightarrow> string \<Rightarrow> asset_content response" where
  "asset_html m page =
     \<lparr>status = 200,
      resp_headers = [(''content-type'', lit ''text/html; charset=utf-8''), (''cache-control'', lit REVALIDATE)],
      body = (if m = HEAD then NoBody else Content (PageText page))\<rparr>"

definition asset_file ::
    "(ustr \<Rightarrow> bool) \<Rightarrow> http_method \<Rightarrow> headers \<Rightarrow> Asset \<Rightarrow> string \<Rightarrow> asset_content response" where
  "asset_file header_value m h asset cache =
     (let tag = etag (asset_sha256 asset);
          not_modified = (case header h ''if-none-match'' of
              Some v \<Rightarrow> list_ex (\<lambda>t. trim t = tag) (split_on 44 v) | None \<Rightarrow> False);
          hs = [(''etag'', tag), (''cache-control'', lit cache)]
      in if not_modified then \<lparr>status = 304, resp_headers = hs, body = NoBody\<rparr>
         else let mime = (if header_value (with_charset (asset_mime asset)) then with_charset (asset_mime asset)
                else lit ''application/octet-stream'')
          in \<lparr>status = 200,
              resp_headers = hs @ [(''content-type'', mime), (''content-length'', dec (length (asset_bytes asset)))],
              body = (if m = HEAD then NoBody else Content (FileBytes (asset_bytes asset)))\<rparr>)"

definition asset_respond ::
    "(ustr \<Rightarrow> bool) \<Rightarrow> asset_source \<Rightarrow> http_method \<Rightarrow> ustr \<Rightarrow> headers \<Rightarrow> asset_content response" where
  "asset_respond header_value source m full_path h =
     (if m \<noteq> GET \<and> m \<noteq> HEAD
      then \<lparr>status = 405, resp_headers = [(''allow'', lit ''GET, HEAD'')], body = NoBody\<rparr>
      else let path = dropWhile (\<lambda>c. c = 47) full_path;
               fallback = (case source (lit FALLBACK) of
                   Some asset \<Rightarrow> asset_file header_value m h asset REVALIDATE
                 | None \<Rightarrow> asset_html m STUB_PAGE)
      in if 92 \<in> set path \<or> list_ex (\<lambda>seg. seg = lit ''..'') (split_on 47 path) then asset_status 404
         else if path = [] then fallback
         else case source path of
           Some asset \<Rightarrow>
             asset_file header_value m h asset
               (if starts_with (lit IMMUTABLE_PREFIX) path then IMMUTABLE_CACHE else REVALIDATE)
         | None \<Rightarrow> if 46 \<in> set (last (split_on 47 path)) then asset_status 404 else fallback)"

section \<open>What is looked up\<close>

text \<open>A path inside the folder: not empty, relative, without a parent folder and without a backslash.\<close>

definition plain_key :: "ustr \<Rightarrow> bool" where
  "plain_key key \<longleftrightarrow> key \<noteq> [] \<and> hd key \<noteq> 47 \<and> 92 \<notin> set key \<and> lit ''..'' \<notin> set (split_on 47 key)"

lemma FALLBACK_plain: "plain_key (lit FALLBACK)"
  by (simp add: plain_key_def FALLBACK_def lit_def)

lemma dropWhile_hd: "dropWhile P xs \<noteq> [] \<Longrightarrow> \<not> P (hd (dropWhile P xs))"
  by (simp add: hd_dropWhile)

section \<open>Properties\<close>

text \<open>
  The web UI never reads outside its folder, and only answers reads. The answer depends on the source only at paths
  inside the folder (not empty, relative, no \<^verbatim>\<open>..\<close> segment, no backslash): two sources that agree there give
  the same answer to every request. Any other method than GET and HEAD gets 405; HEAD gets exactly the status and the headers
  of GET and no body; a missing file whose name has a dot gets 404, never the page.
\<close>

theorem assets_stay_inside:
  assumes "\<And>key. plain_key key \<Longrightarrow> source key = other key"
  shows "asset_respond V source m path h = asset_respond V other m path h \<and>
    (m \<notin> {GET, HEAD} \<longrightarrow> status (asset_respond V source m path h) = 405) \<and>
    asset_respond V source HEAD path h = (asset_respond V source GET path h)\<lparr>body := NoBody\<rparr> \<and>
    (source (dropWhile (\<lambda>c. c = 47) path) = None \<and> 46 \<in> set (last (split_on 47 path)) \<and> m \<in> {GET, HEAD} \<longrightarrow>
       asset_respond V source m path h = asset_status 404)"
proof -
  let ?p = "dropWhile (\<lambda>c. c = 47) path"
  have agree: "source ?p = other ?p" if "?p \<noteq> []" "92 \<notin> set ?p" "lit ''..'' \<notin> set (split_on 47 ?p)"
    using that assms dropWhile_hd [of "\<lambda>c. c = 47" path] by (simp add: plain_key_def)
  have "split_on 47 path = replicate (length (takeWhile (\<lambda>c. c = 47) path)) [] @ split_on 47 ?p"
    by (induction path) (auto split: list.splits)
  then have last: "last (split_on 47 path) = last (split_on 47 ?p)"
    by simp
  have "?p \<noteq> []" if "46 \<in> set (last (split_on 47 path))"
    using that last by (metis last.simps list.set(1) empty_iff split_on.simps(1))
  then have "asset_respond V source m path h = asset_status 404"
    if "source ?p = None" "46 \<in> set (last (split_on 47 path))" "m \<in> {GET, HEAD}"
    using that last by (auto simp: asset_respond_def Let_def)
  moreover have "asset_respond V source m path h = asset_respond V other m path h"
    using agree assms [OF FALLBACK_plain] by (auto simp: asset_respond_def Let_def list_ex_iff)
  moreover have "asset_respond V source HEAD path h = (asset_respond V source GET path h)\<lparr>body := NoBody\<rparr>"
    by (simp add: asset_respond_def asset_file_def asset_html_def asset_status_def Let_def split: option.split)
  ultimately show ?thesis
    by (auto simp: asset_respond_def)
qed

theorem assets_stay_inside_witness:
  "asset_respond (\<lambda>_. True) (\<lambda>_. None) GET (lit ''/../etc/passwd'') \<lparr>header = (\<lambda>_. None), cookie_headers = []\<rparr> =
   asset_respond (\<lambda>_. True) (\<lambda>key. if key = lit ''../etc/passwd'' then Some \<lparr>asset_bytes = [1], asset_sha256 = [], asset_mime = []\<rparr> else None)
     GET (lit ''/../etc/passwd'') \<lparr>header = (\<lambda>_. None), cookie_headers = []\<rparr>"
  by (rule conjunct1 [OF assets_stay_inside]) (auto simp: plain_key_def lit_def)

end
