(* ===== verification/Rest_Api.thy ===== *)
theory Rest_Api
  imports Actions "HOL-Library.Product_Lexorder" "HOL-Library.Multiset"
begin

text \<open>
  \<^verbatim>\<open>lodger/src/api.rs\<close>, the reads of the REST API, with \<^verbatim>\<open>Virt::host_info\<close> of \<^verbatim>\<open>lodger-virt/src/conn.rs\<close> and \<^verbatim>\<open>HostInfo\<close>
  of \<^verbatim>\<open>lodger-core/src/model/host.rs\<close>. The answers of libvirt about the node are the arguments \<open>node\<close> (CPUs and
  memory) and \<open>version\<close>.
\<close>

section \<open>Model\<close>

record HostInfo =
  hi_hostname :: ustr
  hi_libvirt_version :: ustr
  hi_cpus :: nat
  hi_memory_kib :: nat

record Connection =
  cn_state :: string
  cn_error :: "ustr option"

fun connection_of :: "ConnState \<Rightarrow> Connection" where
  "connection_of Connecting = \<lparr>cn_state = ''connecting'', cn_error = None\<rparr>"
| "connection_of Connected = \<lparr>cn_state = ''connected'', cn_error = None\<rparr>"
| "connection_of (Disconnected e) = \<lparr>cn_state = ''disconnected'', cn_error = Some e\<rparr>"

record Health =
  he_status :: string
  he_database :: string
  he_libvirt :: string

record VmCounts =
  vc_total :: nat
  vc_running :: nat

record HostReport =
  hr_connection :: Connection
  hr_info :: "HostInfo option"
  hr_info_error :: "ustr option"
  hr_vms :: VmCounts
  hr_pools :: nat
  hr_networks :: nat

datatype rest_content = HealthReport Health | HostFacts HostReport | VmList "Vm list" | VmFacts Vm

definition rest_health :: "env \<Rightarrow> 'w host \<Rightarrow> app \<Rightarrow> rest_content response \<times> app" where
  "rest_health E H a =
     (let libvirt = cn_state (connection_of (h_state H)) in
      case db_call E ''ping'' ping a of
        (r, a) \<Rightarrow>
          (let (code, st, database) = (case r of
               Err _ \<Rightarrow> (503, ''error'', ''error'')
             | Ok _ \<Rightarrow> if libvirt = ''connected'' then (200, ''ok'', ''ok'') else (200, ''degraded'', ''ok''))
           in (respond code (Content (HealthReport \<lparr>he_status = st, he_database = database, he_libvirt = libvirt\<rparr>)), a)))"

text \<open>\<^verbatim>\<open>v / 1_000_000\<close>, \<^verbatim>\<open>v / 1000 % 1000\<close> and \<^verbatim>\<open>v % 1000\<close>.\<close>

definition version_text :: "nat \<Rightarrow> ustr" where
  "version_text v = dec (v div 1000000) @ lit ''.'' @ dec (v div 1000 mod 1000) @ lit ''.'' @ dec (v mod 1000)"

definition host_info ::
    "'w libvirt \<Rightarrow> ('w, nat \<times> nat) answer \<Rightarrow> ('w, nat) answer \<Rightarrow> ustr option \<Rightarrow> ('w, HostInfo, Error) virt" where
  "host_info L node version task_failed =
     job task_failed (
       vbind (ask_e node NodeInfo) (\<lambda>(cpus, memory).
       vbind (ask_e version LibVersion) (\<lambda>v.
       vbind (ask_e (lv_text L) Hostname) (\<lambda>hostname.
         vreturn (Ok \<lparr>hi_hostname = hostname, hi_libvirt_version = version_text v, hi_cpus = cpus, hi_memory_kib = memory\<rparr>)))))"

definition rest_host ::
    "('w, nat \<times> nat) answer \<Rightarrow> ('w, nat) answer \<Rightarrow> 'w host \<Rightarrow> 'w conn \<Rightarrow> rest_content response \<times> 'w conn" where
  "rest_host node version H s =
     (let ((info, info_error), s) = (case h_virt H of
            Some L \<Rightarrow>
              (case host_info L node version (h_task H ''host info'') s of
                 (Ok info, s) \<Rightarrow> ((Some info, None), s)
               | (Err e, s) \<Rightarrow> ((None, Some (h_show H e)), s))
          | None \<Rightarrow> ((None, None), s));
          inv = h_inventory H
      in (respond 200 (Content (HostFacts
           \<lparr>hr_connection = connection_of (h_state H), hr_info = info, hr_info_error = info_error,
            hr_vms = \<lparr>vc_total = hm_len (vms inv),
              vc_running = length (filter (\<lambda>(_, vm). vm_state vm = Running) (vms inv))\<rparr>,
            hr_pools = hm_len (pools inv), hr_networks = hm_len (networks inv)\<rparr>)), s))"

definition rest_vms :: "'w host \<Rightarrow> rest_content response" where
  "rest_vms H = respond 200 (Content (VmList (sort_key (\<lambda>vm. (vm_name vm, vm_uuid vm)) (map snd (vms (h_inventory H))))))"

definition rest_vm :: "'w host \<Rightarrow> uuid \<Rightarrow> rest_content response" where
  "rest_vm H i =
     (case hm_get (vms (h_inventory H)) i of
        Some vm \<Rightarrow> respond 200 (Content (VmFacts vm))
      | None \<Rightarrow> respond 404 NoBody)"

section \<open>What the answers say\<close>

text \<open>The version text determines the version, since its two last parts are below 1000.\<close>

lemma version_text_inject: "version_text v = version_text w \<longleftrightarrow> v = w"
proof
  assume eq: "version_text v = version_text w"
  have parts: "split_on 46 (version_text x) = [dec (x div 1000000), dec (x div 1000 mod 1000), dec (x mod 1000)]" for x
  proof -
    have "46 \<notin> set (dec n)" for n
      using dec_digits [of 46 n] by (auto simp: is_digit_def)
    then show ?thesis
      by (simp add: version_text_def lit_def split_on_append split_on_no_sep)
  qed
  have "v div 1000000 = w div 1000000 \<and> v div 1000 mod 1000 = w div 1000 mod 1000 \<and> v mod 1000 = w mod 1000"
    using arg_cong [OF eq, of "split_on 46"] by (simp add: parts)
  moreover have "x = (x div 1000000) * 1000000 + (x div 1000 mod 1000) * 1000 + x mod 1000" for x :: nat
  proof -
    have "x div 1000000 = x div 1000 div 1000"
      by (simp add: div_mult2_eq [symmetric])
    moreover have "x div 1000 = (x div 1000 div 1000) * 1000 + x div 1000 mod 1000" "x = (x div 1000) * 1000 + x mod 1000"
      by simp_all
    ultimately show ?thesis by linarith
  qed
  ultimately show "v = w" by metis
qed simp

text \<open>
  The list of VMs has every VM of the inventory once and in the order of names, whatever the order of the map.
\<close>

lemma rest_vms_order:
  assumes "vms (h_inventory H) = map (\<lambda>vm. (vm_uuid vm, vm)) xs" and "vms (h_inventory H') = map (\<lambda>vm. (vm_uuid vm, vm)) ys"
    and "mset xs = mset ys" and "distinct (map vm_uuid xs)"
  shows "rest_vms H = rest_vms H'"
proof -
  let ?f = "\<lambda>vm. (vm_name vm, vm_uuid vm)"
  have sorted: "map ?f (sort_key ?f zs) = sort (map ?f zs)" for zs
    by (rule properties_for_sort [symmetric]) simp_all
  have "sort (map ?f xs) = sort (map ?f ys)"
    using assms(3) by (intro properties_for_sort) (simp_all add: mset_map)
  then have "map ?f (sort_key ?f xs) = map ?f (sort_key ?f ys)"
    by (simp add: sorted)
  moreover have "inj_on ?f (set (sort_key ?f xs) \<union> set (sort_key ?f ys))"
    using assms(3,4) mset_eq_setD [OF assms(3)] by (auto simp: distinct_map inj_on_def)
  ultimately have "sort_key ?f xs = sort_key ?f ys"
    by (rule map_inj_on)
  with assms(1,2) show ?thesis by (simp add: rest_vms_def comp_def)
qed

end
