(* ===== verification/F64.thy ===== *)
theory F64
  imports Complex_Main "HOL-Library.Log_Nat"
begin

text \<open>
  Rust's \<^verbatim>\<open>f64\<close>, as far as the VM stats use it: positive finite doubles as the rational numbers they stand for.
  An operation is the exact result rounded to the nearest double, ties to the even significand of 53
  bits. The numbers here lie between \<open>2\<^sup>-\<^sup>6\<^sup>4\<close> and \<open>2\<^sup>1\<^sup>0\<^sup>0\<close>, so the limits of the exponent do not matter.
\<close>

section \<open>Rounding\<close>

text \<open>The exponent of the leading bit.\<close>

definition fl_exp :: "rat \<Rightarrow> int" where
  "fl_exp x = (let (p, q) = quotient_of x; k = bitlen p - bitlen q in if 2 powi k \<le> x then k else k - 1)"

definition round_even :: "rat \<Rightarrow> int" where
  "round_even x =
     (let n = \<lfloor>x\<rfloor>; r = x - of_int n
      in if r < 1 / 2 then n else if r > 1 / 2 then n + 1 else if even n then n else n + 1)"

definition fl :: "rat \<Rightarrow> rat" where
  "fl x = (if x \<le> 0 then 0 else let u = 2 powi (fl_exp x - 52) in of_int (round_even (x / u)) * u)"

text \<open>\<^verbatim>\<open>f64::round\<close> of a number that is not negative, and the cast \<^verbatim>\<open>as u64\<close>, which saturates.\<close>

definition fl_round :: "rat \<Rightarrow> int" where
  "fl_round x = \<lfloor>x + 1 / 2\<rfloor>"

definition as_u64 :: "int \<Rightarrow> nat" where
  "as_u64 n = min (2 ^ 64 - 1) (nat n)"

section \<open>Error bounds\<close>

lemma bitlen_powi:
  assumes "0 < (x :: int)"
  shows "2 powi (bitlen x - 1) \<le> (of_int x :: rat)" and "(of_int x :: rat) < 2 powi bitlen x"
proof -
  have "1 \<le> bitlen x" using assms by (simp add: bitlen_alt_def)
  then have "(2 :: rat) powi (bitlen x - 1) = 2 ^ nat (bitlen x - 1)" "(2 :: rat) powi bitlen x = 2 ^ nat (bitlen x)"
    by (simp_all add: power_int_def)
  moreover have "(2 :: rat) ^ nat (bitlen x - 1) \<le> of_int x" "of_int x < (2 :: rat) ^ nat (bitlen x)"
    using bitlen_bounds [OF assms] by (metis of_int_le_iff of_int_less_iff of_int_numeral of_int_power)+
  ultimately show "2 powi (bitlen x - 1) \<le> (of_int x :: rat)" "(of_int x :: rat) < 2 powi bitlen x"
    by simp_all
qed

lemma fl_exp_bounds:
  assumes "0 < x"
  shows "2 powi fl_exp x \<le> x" and "x < 2 powi (fl_exp x + 1)"
proof -
  obtain p q where pq: "quotient_of x = (p, q)" by (cases "quotient_of x")
  then have q: "0 < q" and x: "x = of_int p / of_int q"
    by (auto simp: quotient_of_denom_pos quotient_of_div)
  with assms have p: "0 < p"
    by (simp add: zero_less_divide_iff)
  let ?k = "bitlen p - bitlen q"
  have "x < 2 powi bitlen p / 2 powi (bitlen q - 1)"
    unfolding x using bitlen_powi [OF p] bitlen_powi [OF q] q p
    by (intro frac_less) simp_all
  also have "\<dots> = 2 powi (?k + 1)"
    by (simp add: power_int_diff [symmetric] algebra_simps)
  finally have upper: "x < 2 powi (?k + 1)" .
  have "2 powi (bitlen p - 1) / 2 powi bitlen q \<le> x"
    unfolding x using bitlen_powi [OF p] bitlen_powi [OF q] q p
    by (intro frac_le) simp_all
  moreover have "(2 :: rat) powi (bitlen p - 1) / 2 powi bitlen q = 2 powi (?k - 1)"
    by (simp add: power_int_diff [symmetric] algebra_simps)
  ultimately have lower: "2 powi (?k - 1) \<le> x" by simp
  show "2 powi fl_exp x \<le> x" "x < 2 powi (fl_exp x + 1)"
    using upper lower by (auto simp: fl_exp_def pq Let_def not_le)
qed

lemma round_even_error: "\<bar>of_int (round_even x) - x\<bar> \<le> 1 / 2"
proof -
  have "of_int \<lfloor>x\<rfloor> \<le> x" "x < of_int \<lfloor>x\<rfloor> + 1" by linarith+
  then show ?thesis by (auto simp: round_even_def Let_def abs_le_iff)
qed

text \<open>A rounded operation is off by at most one part in \<open>2\<^sup>5\<^sup>3\<close>.\<close>

lemma fl_error:
  assumes "0 \<le> x"
  shows "\<bar>fl x - x\<bar> \<le> x / 2 ^ 53"
proof (cases "x = 0")
  case False
  with assms have pos: "0 < x" by simp
  let ?u = "2 powi (fl_exp x - 52) :: rat"
  have u: "0 < ?u" by simp
  have "fl x - x = (of_int (round_even (x / ?u)) - x / ?u) * ?u"
    using pos u by (simp add: fl_def Let_def algebra_simps)
  then have "\<bar>fl x - x\<bar> = \<bar>of_int (round_even (x / ?u)) - x / ?u\<bar> * ?u"
    using u by (simp add: abs_mult)
  also have "\<dots> \<le> 1 / 2 * ?u"
    using round_even_error u by (intro mult_right_mono) simp_all
  also have "\<dots> = 2 powi fl_exp x / 2 ^ 53"
    by (simp add: power_int_diff)
  also have "\<dots> \<le> x / 2 ^ 53"
    using fl_exp_bounds(1) [OF pos] by (intro divide_right_mono) simp_all
  finally show ?thesis .
qed (simp add: fl_def)

lemma fl_nonneg: "0 \<le> fl x"
proof (cases "x \<le> 0")
  case False
  then have "\<bar>fl x - x\<bar> \<le> x / 2 ^ 53" by (intro fl_error) simp
  moreover have "x / 2 ^ 53 \<le> x" using False by simp
  ultimately show ?thesis by linarith
qed (simp add: fl_def)

lemma fl_pos: "0 < x \<Longrightarrow> 0 < fl x"
proof -
  assume "0 < x"
  then have "\<bar>fl x - x\<bar> \<le> x / 2 ^ 53" by (intro fl_error) simp
  moreover have "x / 2 ^ 53 < x" using \<open>0 < x\<close> by simp
  ultimately show ?thesis by linarith
qed

lemma fl_round_error: "\<bar>of_int (fl_round x) - x\<bar> \<le> 1 / 2"
  unfolding fl_round_def by linarith

end
