(* ===== verification/Stats.thy ===== *)
theory Stats
  imports F64 Inventory
begin

text \<open>
  Live VM stats: \<^verbatim>\<open>lodger-core/src/model/stats.rs\<close> (the counters of a sample and the rates between two of
  them), \<^verbatim>\<open>lodger-virt/src/stats/mod.rs\<close> (the sample of every domain) and \<^verbatim>\<open>lodger/src/stats.rs\<close> (the hub with its one poll
  task). Durations and instants are in nanoseconds. A \<^verbatim>\<open>u64\<close> is a natural number, with saturation written out.
\<close>

section \<open>Counters\<close>

definition U64_MAX :: nat where
  "U64_MAX = 2 ^ 64 - 1"

datatype StatValue = StatInt int | StatUInt nat | StatDouble rat | StatBool bool | StatText ustr

fun as_counter :: "StatValue \<Rightarrow> nat option" where
  "as_counter (StatInt v) = (if v < 0 then None else Some (nat v))"
| "as_counter (StatUInt v) = Some v"
| "as_counter _ = None"

record VmCounters =
  cpu_time_ns :: "nat option"
  memory_current_kib :: "nat option"
  memory_available_kib :: "nat option"
  memory_unused_kib :: "nat option"
  disk_read_bytes :: "nat option"
  disk_write_bytes :: "nat option"
  net_rx_bytes :: "nat option"
  net_tx_bytes :: "nat option"

definition counters_default :: VmCounters where
  "counters_default = \<lparr>cpu_time_ns = None, memory_current_kib = None, memory_available_kib = None, memory_unused_kib = None,
     disk_read_bytes = None, disk_write_bytes = None, net_rx_bytes = None, net_tx_bytes = None\<rparr>"

definition indexed :: "ustr \<Rightarrow> (ustr \<times> ustr) option" where
  "indexed name =
     Option.bind (split_once 46 name) (\<lambda>(grp, rest).
     Option.bind (split_once 46 rest) (\<lambda>(index, field).
     Option.bind (parse_uint (2 ^ 32 - 1) index) (\<lambda>_. Some (grp, field))))"

text \<open>The closure \<^verbatim>\<open>add\<close>.\<close>

definition add_sum :: "nat \<Rightarrow> nat option \<Rightarrow> nat option" where
  "add_sum v so_far = Some (min U64_MAX ((case so_far of Some s \<Rightarrow> s | None \<Rightarrow> 0) + v))"

definition param_step :: "ustr \<times> StatValue \<Rightarrow> VmCounters \<Rightarrow> VmCounters" where
  "param_step p c =
     (case p of (name, value) \<Rightarrow>
      case as_counter value of
        None \<Rightarrow> c
      | Some v \<Rightarrow>
          if name = lit ''cpu.time'' then c\<lparr>cpu_time_ns := Some v\<rparr>
          else if name = lit ''balloon.current'' then c\<lparr>memory_current_kib := Some v\<rparr>
          else if name = lit ''balloon.available'' then c\<lparr>memory_available_kib := Some v\<rparr>
          else if name = lit ''balloon.unused'' then c\<lparr>memory_unused_kib := Some v\<rparr>
          else if indexed name = Some (lit ''block'', lit ''rd.bytes'') then c\<lparr>disk_read_bytes := add_sum v (disk_read_bytes c)\<rparr>
          else if indexed name = Some (lit ''block'', lit ''wr.bytes'') then c\<lparr>disk_write_bytes := add_sum v (disk_write_bytes c)\<rparr>
          else if indexed name = Some (lit ''net'', lit ''rx.bytes'') then c\<lparr>net_rx_bytes := add_sum v (net_rx_bytes c)\<rparr>
          else if indexed name = Some (lit ''net'', lit ''tx.bytes'') then c\<lparr>net_tx_bytes := add_sum v (net_tx_bytes c)\<rparr>
          else c)"

definition from_params :: "(ustr \<times> StatValue) list \<Rightarrow> VmCounters" where
  "from_params params = fold param_step params counters_default"

text \<open>The records that \<^verbatim>\<open>ffi::all_domain_stats\<close> copied out of libvirt: the UUID and the named values.\<close>

definition domain_stats ::
    "('w, (uuid \<times> (ustr \<times> StatValue) list) list) answer \<Rightarrow> ustr option \<Rightarrow> ('w, (uuid \<times> VmCounters) list, Error) virt" where
  "domain_stats records task_failed =
     job task_failed (vbind (ask_e records AllDomainStats) (\<lambda>rs.
       vreturn (Ok (map (\<lambda>(i, params). (i, from_params params)) rs))))"

section \<open>Rates\<close>

record VmStats =
  vs_uuid :: uuid
  vs_cpu_percent :: "rat option"
  vs_memory_kib :: "nat option"
  vs_memory_used_kib :: "nat option"
  vs_disk_read_bps :: "nat option"
  vs_disk_write_bps :: "nat option"
  vs_net_rx_bps :: "nat option"
  vs_net_tx_bps :: "nat option"

definition checked_sub :: "nat \<Rightarrow> nat \<Rightarrow> nat option" where
  "checked_sub a b = (if b \<le> a then Some (a - b) else None)"

text \<open>\<^verbatim>\<open>Duration::as_secs_f64\<close>: whole seconds plus nanoseconds over \<open>10\<^sup>9\<close>. Both casts of a \<^verbatim>\<open>u32\<close> are exact.\<close>

definition as_secs_f64 :: "nat \<Rightarrow> rat" where
  "as_secs_f64 ns = fl (fl (of_nat (ns div 10 ^ 9)) + fl (of_nat (ns mod 10 ^ 9) / 10 ^ 9))"

definition delta ::
    "VmCounters option \<Rightarrow> VmCounters \<Rightarrow> nat \<Rightarrow> (VmCounters \<Rightarrow> nat option) \<Rightarrow> rat option" where
  "delta before now elapsed pick =
     Option.bind before (\<lambda>b.
     Option.bind (pick b) (\<lambda>x.
     Option.bind (pick now) (\<lambda>y.
     Option.bind (checked_sub y x) (\<lambda>d.
       if as_secs_f64 elapsed > 0 then Some (fl (fl (of_nat d) / as_secs_f64 elapsed)) else None))))"

definition rate ::
    "VmCounters option \<Rightarrow> VmCounters \<Rightarrow> nat \<Rightarrow> (VmCounters \<Rightarrow> nat option) \<Rightarrow> nat option" where
  "rate before now elapsed pick = map_option (\<lambda>r. as_u64 (fl_round r)) (delta before now elapsed pick)"

definition between :: "uuid \<Rightarrow> VmCounters option \<Rightarrow> VmCounters \<Rightarrow> nat \<Rightarrow> nat \<Rightarrow> VmStats" where
  "between i before now elapsed vcpus =
     \<lparr>vs_uuid = i,
      vs_cpu_percent =
        (if vcpus > 0
         then map_option (\<lambda>ns_per_s. max 0 (min 100 (fl (fl (fl (ns_per_s / 10 ^ 9) / of_nat vcpus) * 100))))
           (delta before now elapsed cpu_time_ns)
         else None),
      vs_memory_kib = memory_current_kib now,
      vs_memory_used_kib = (case (memory_available_kib now, memory_unused_kib now) of
          (Some available, Some unused) \<Rightarrow> checked_sub available unused | _ \<Rightarrow> None),
      vs_disk_read_bps = rate before now elapsed disk_read_bytes,
      vs_disk_write_bps = rate before now elapsed disk_write_bytes,
      vs_net_rx_bps = rate before now elapsed net_rx_bytes,
      vs_net_tx_bps = rate before now elapsed net_tx_bytes\<rparr>"

section \<open>The poll task\<close>

definition PERIOD :: nat where
  "PERIOD = 5 * 10 ^ 9"

type_synonym samples = "(uuid, nat \<times> VmCounters) hmap"

text \<open>One sample of a round: its stats, and its counters for the next round.\<close>

definition sample_step ::
    "nat \<Rightarrow> (uuid, Vm) hmap \<Rightarrow> samples \<Rightarrow> uuid \<times> VmCounters \<Rightarrow> VmStats list \<times> samples \<Rightarrow> VmStats list \<times> samples" where
  "sample_step t_now machines before sample acc =
     (case sample of (i, counters) \<Rightarrow>
      case acc of (stats, now) \<Rightarrow>
      let vcpus = (case hm_get machines i of Some vm \<Rightarrow> vm_vcpus vm | None \<Rightarrow> 0);
          last = hm_get before i;
          elapsed = (case last of Some (t, _) \<Rightarrow> t_now - t | None \<Rightarrow> 0)
      in (stats @ [between i (map_option snd last) counters elapsed vcpus], hm_insert i (t_now, counters) now))"

definition poll_round :: "nat \<Rightarrow> (uuid, Vm) hmap \<Rightarrow> (uuid \<times> VmCounters) list \<Rightarrow> samples \<Rightarrow> VmStats list \<times> samples" where
  "poll_round t_now machines samples before =
     (case fold (sample_step t_now machines before) samples ([], []) of
        (stats, now) \<Rightarrow> (sort_key vs_uuid stats, now))"

text \<open>What the task meets at one tick of its clock.\<close>

record tick =
  tk_receivers :: nat
  tk_connected :: bool
  tk_samples :: "((uuid \<times> VmCounters) list, ustr) result"
  tk_at :: nat
  tk_vms :: "(uuid, Vm) hmap"

text \<open>The task over its ticks: the snapshots it publishes, the stats calls it makes, and whether it stopped.\<close>

fun poll :: "tick list \<Rightarrow> samples \<Rightarrow> VmStats list list \<times> nat \<times> bool" where
  "poll [] before = ([], 0, False)"
| "poll (t # ts) before =
     (if tk_receivers t = 0 then ([], 0, True)
      else if \<not> tk_connected t then poll ts before
      else case tk_samples t of
        Err _ \<Rightarrow> (case poll ts before of (out, calls, stopped) \<Rightarrow> (out, Suc calls, stopped))
      | Ok samples \<Rightarrow>
          (case poll_round (tk_at t) (tk_vms t) samples before of (stats, now) \<Rightarrow>
           case poll ts now of (out, calls, stopped) \<Rightarrow> (stats # out, Suc calls, stopped)))"

section \<open>The hub\<close>

text \<open>
  The lock's flag, the receivers of the watch channel, and the poll tasks that run. Every step that touches the flag holds
  the lock: a subscription, and the check that a task makes at its tick. A receiver can be dropped at any time.
\<close>

record hub =
  hub_running :: bool
  hub_receivers :: nat
  hub_tasks :: nat

definition hub_new :: hub where
  "hub_new = \<lparr>hub_running = False, hub_receivers = 0, hub_tasks = 0\<rparr>"

datatype hub_label = Subscribe | DropReceiver | Tick

definition hub_subscribe :: "hub \<Rightarrow> hub" where
  "hub_subscribe s =
     (let s = s\<lparr>hub_receivers := hub_receivers s + 1\<rparr>
      in if hub_running s then s else s\<lparr>hub_running := True, hub_tasks := hub_tasks s + 1\<rparr>)"

definition hub_tick :: "hub \<Rightarrow> hub" where
  "hub_tick s = (if hub_tasks s > 0 \<and> hub_receivers s = 0 then s\<lparr>hub_running := False, hub_tasks := hub_tasks s - 1\<rparr> else s)"

fun hub_step :: "hub_label \<Rightarrow> hub \<Rightarrow> hub" where
  "hub_step Subscribe s = hub_subscribe s"
| "hub_step DropReceiver s = s\<lparr>hub_receivers := hub_receivers s - 1\<rparr>"
| "hub_step Tick s = hub_tick s"

definition hub_wf :: "hub \<Rightarrow> bool" where
  "hub_wf s \<longleftrightarrow> hub_tasks s = (if hub_running s then 1 else 0) \<and> (hub_receivers s > 0 \<longrightarrow> hub_running s)"

interpretation hub_run: kept_invariant hub_step hub_wf
proof
  fix s l
  assume "hub_wf s"
  then show "hub_wf (hub_step l s)"
    by (cases l) (auto simp: hub_wf_def hub_subscribe_def hub_tick_def Let_def)
qed

section \<open>What the numbers mean\<close>

text \<open>The values of one kind of device: every counter with that group and field, in the order of libvirt.\<close>

definition device_values :: "string \<Rightarrow> string \<Rightarrow> (ustr \<times> StatValue) list \<Rightarrow> nat list" where
  "device_values grp field params =
     List.map_filter (\<lambda>(name, value). if indexed name = Some (lit grp, lit field) then as_counter value else None) params"

definition total :: "nat list \<Rightarrow> nat option" where
  "total vs = (if vs = [] then None else Some (min U64_MAX (sum_list vs)))"

lemma fixed_names_not_indexed:
  "indexed (lit ''cpu.time'') = None" "indexed (lit ''balloon.current'') = None"
  "indexed (lit ''balloon.available'') = None" "indexed (lit ''balloon.unused'') = None"
  by (simp_all add: indexed_def lit_def)

lemma add_sum_total: "add_sum v (total vs) = total (vs @ [v])"
  by (auto simp: add_sum_def total_def)

lemma device_values_snoc:
  "device_values grp field (ps @ [(name, value)]) =
     device_values grp field ps @ (if indexed name = Some (lit grp, lit field) then case as_counter value of None \<Rightarrow> [] | Some v \<Rightarrow> [v] else [])"
  by (auto simp: device_values_def List.map_filter_def split: option.splits)

lemma from_params_snoc: "from_params (ps @ [p]) = param_step p (from_params ps)"
  by (simp add: from_params_def)

lemma device_sums:
  "disk_read_bytes (from_params ps) = total (device_values ''block'' ''rd.bytes'' ps)"
  "disk_write_bytes (from_params ps) = total (device_values ''block'' ''wr.bytes'' ps)"
  "net_rx_bytes (from_params ps) = total (device_values ''net'' ''rx.bytes'' ps)"
  "net_tx_bytes (from_params ps) = total (device_values ''net'' ''tx.bytes'' ps)"
proof (induction ps rule: rev_induct)
  case Nil
  show "disk_read_bytes (from_params []) = total (device_values ''block'' ''rd.bytes'' [])"
    "disk_write_bytes (from_params []) = total (device_values ''block'' ''wr.bytes'' [])"
    "net_rx_bytes (from_params []) = total (device_values ''net'' ''rx.bytes'' [])"
    "net_tx_bytes (from_params []) = total (device_values ''net'' ''tx.bytes'' [])"
    by (simp_all add: from_params_def counters_default_def device_values_def total_def List.map_filter_simps)
next
  case (snoc p ps)
  obtain name v where p: "p = (name, v)" by (cases p)
  note step = from_params_snoc param_step_def device_values_snoc fixed_names_not_indexed add_sum_total snoc p
  show "disk_read_bytes (from_params (ps @ [p])) = total (device_values ''block'' ''rd.bytes'' (ps @ [p]))"
    "disk_write_bytes (from_params (ps @ [p])) = total (device_values ''block'' ''wr.bytes'' (ps @ [p]))"
    "net_rx_bytes (from_params (ps @ [p])) = total (device_values ''net'' ''rx.bytes'' (ps @ [p]))"
    "net_tx_bytes (from_params (ps @ [p])) = total (device_values ''net'' ''tx.bytes'' (ps @ [p]))"
    by (auto simp: step split: option.splits)
qed

text \<open>The sample of one device of a disk, as libvirt names it, counts under its field.\<close>

lemma indexed_name:
  assumes "n < 2 ^ 32" and "46 \<notin> set grp"
  shows "indexed (grp @ [46] @ dec n @ [46] @ field) = Some (grp, field)"
proof -
  have "46 \<notin> set (dec n)"
    using dec_digits [of 46 n] by (auto simp: is_digit_def)
  then have "split_once 46 (dec n @ 46 # field) = Some (dec n, field)"
    by (simp add: split_once_Some)
  moreover have "split_once 46 (grp @ 46 # dec n @ 46 # field) = Some (grp, dec n @ 46 # field)"
    using assms(2) by (simp add: split_once_Some)
  moreover have "parse_uint (2 ^ 32 - 1) (dec n) = Some n"
    using assms(1) by (intro parse_uint_dec) simp
  ultimately show ?thesis by (simp add: indexed_def)
qed

section \<open>Accuracy of the rates\<close>

abbreviation eps :: rat where
  "eps \<equiv> 1 / 2 ^ 53"

lemma fl_bounds:
  assumes "0 \<le> x"
  shows "x * (1 - eps) \<le> fl x" and "fl x \<le> x * (1 + eps)"
proof -
  have "x - x / 2 ^ 53 \<le> fl x" "fl x \<le> x + x / 2 ^ 53"
    using fl_error [OF assms] by (simp_all only: abs_le_iff) linarith+
  then show "x * (1 - eps) \<le> fl x" "fl x \<le> x * (1 + eps)"
    by (simp_all add: algebra_simps)
qed

text \<open>Seconds with a fraction.\<close>

abbreviation secs_of :: "nat \<Rightarrow> rat" where
  "secs_of ns \<equiv> of_nat ns / 10 ^ 9"

lemma secs_split: "secs_of ns = of_nat (ns div 10 ^ 9) + of_nat (ns mod 10 ^ 9) / 10 ^ 9"
proof -
  have "(of_nat ns :: rat) = of_nat (ns div 10 ^ 9 * 10 ^ 9 + ns mod 10 ^ 9)" by simp
  also have "\<dots> = of_nat (ns div 10 ^ 9) * 10 ^ 9 + of_nat (ns mod 10 ^ 9)"
    by (simp only: of_nat_add of_nat_mult of_nat_power of_nat_numeral)
  finally show ?thesis by (simp add: field_simps)
qed

lemma as_secs_bounds:
  "secs_of ns * (1 - eps) ^ 2 \<le> as_secs_f64 ns" "as_secs_f64 ns \<le> secs_of ns * (1 + eps) ^ 2"
proof -
  define a b where "a = (of_nat (ns div 10 ^ 9) :: rat)" and "b = (of_nat (ns mod 10 ^ 9) / 10 ^ 9 :: rat)"
  have nn: "0 \<le> a" "0 \<le> b" by (simp_all add: a_def b_def)
  have s: "secs_of ns = a + b"
    unfolding a_def b_def by (rule secs_split)
  have f: "as_secs_f64 ns = fl (fl a + fl b)"
    by (simp only: a_def b_def as_secs_f64_def)
  have lo: "(a + b) * (1 - eps) \<le> fl a + fl b" and hi: "fl a + fl b \<le> (a + b) * (1 + eps)"
    using fl_bounds [OF nn(1)] fl_bounds [OF nn(2)] by (simp_all add: algebra_simps)
  have sum: "0 \<le> fl a + fl b" using fl_nonneg by (simp add: add_nonneg_nonneg)
  have "(a + b) * (1 - eps) * (1 - eps) \<le> (fl a + fl b) * (1 - eps)"
    using lo by (rule mult_right_mono) simp
  also have "\<dots> \<le> fl (fl a + fl b)" by (rule fl_bounds(1) [OF sum])
  finally show "secs_of ns * (1 - eps) ^ 2 \<le> as_secs_f64 ns" by (simp only: s f power2_eq_square mult.assoc)
  have "fl (fl a + fl b) \<le> (fl a + fl b) * (1 + eps)" by (rule fl_bounds(2) [OF sum])
  also have "\<dots> \<le> (a + b) * (1 + eps) * (1 + eps)"
    using hi by (rule mult_right_mono) simp
  finally show "as_secs_f64 ns \<le> secs_of ns * (1 + eps) ^ 2" by (simp only: s f power2_eq_square mult.assoc)
qed

lemma ratio_square: "(d * u) / (S * v ^ 2) * u = d / S * (u / v) ^ 2" for d u S v :: rat
  by (simp add: divide_inverse power2_eq_square ac_simps)

lemma fl_quotient_bounds:
  assumes "0 \<le> d" and "0 < ns"
  shows "fl (fl d / as_secs_f64 ns) \<le> d / secs_of ns * ((1 + eps) / (1 - eps)) ^ 2"
    and "d / secs_of ns * ((1 - eps) / (1 + eps)) ^ 2 \<le> fl (fl d / as_secs_f64 ns)"
proof -
  let ?S = "secs_of ns" and ?T = "as_secs_f64 ns"
  have S: "0 < ?S" using assms(2) by simp
  have low: "0 < ?S * (1 - eps) ^ 2"
    by (intro mult_pos_pos S zero_less_power) simp
  have T: "0 < ?T" by (rule less_le_trans [OF low as_secs_bounds(1)])
  have nn: "0 \<le> fl d / ?T"
    using T fl_nonneg by (simp add: divide_nonneg_pos)
  have "fl d / ?T \<le> (d * (1 + eps)) / (?S * (1 - eps) ^ 2)"
    using fl_bounds(2) [OF assms(1)] as_secs_bounds(1) [of ns] low assms(1) by (intro frac_le) simp_all
  then have "fl d / ?T * (1 + eps) \<le> (d * (1 + eps)) / (?S * (1 - eps) ^ 2) * (1 + eps)"
    by (rule mult_right_mono) simp
  with fl_bounds(2) [OF nn] have "fl (fl d / ?T) \<le> (d * (1 + eps)) / (?S * (1 - eps) ^ 2) * (1 + eps)"
    by (rule order_trans)
  also have "\<dots> = d / ?S * ((1 + eps) / (1 - eps)) ^ 2"
    by (rule ratio_square)
  finally show "fl (fl d / ?T) \<le> d / ?S * ((1 + eps) / (1 - eps)) ^ 2" .
  have "(d * (1 - eps)) / (?S * (1 + eps) ^ 2) \<le> fl d / ?T"
    using fl_bounds(1) [OF assms(1)] as_secs_bounds(2) [of ns] T assms(1) by (intro frac_le) simp_all
  then have "(d * (1 - eps)) / (?S * (1 + eps) ^ 2) * (1 - eps) \<le> fl d / ?T * (1 - eps)"
    by (rule mult_right_mono) simp
  from this fl_bounds(1) [OF nn] have "(d * (1 - eps)) / (?S * (1 + eps) ^ 2) * (1 - eps) \<le> fl (fl d / ?T)"
    by (rule order_trans)
  then show "d / ?S * ((1 - eps) / (1 + eps)) ^ 2 \<le> fl (fl d / ?T)"
    by (simp only: ratio_square)
qed

lemma eps_ratios: "((1 + eps) / (1 - eps)) ^ 2 \<le> 1 + 1 / 2 ^ 50" "1 - 1 / 2 ^ 50 \<le> ((1 - eps) / (1 + eps)) ^ 2"
  by (simp_all add: power2_eq_square)

lemma fl_quotient_error:
  assumes "0 \<le> d" and "0 < ns"
  shows "\<bar>fl (fl d / as_secs_f64 ns) - d / secs_of ns\<bar> \<le> d / secs_of ns / 2 ^ 50"
proof -
  let ?r = "d / secs_of ns"
  have "0 \<le> ?r" using assms by simp
  then have "?r * ((1 + eps) / (1 - eps)) ^ 2 \<le> ?r * (1 + 1 / 2 ^ 50)" "?r * (1 - 1 / 2 ^ 50) \<le> ?r * ((1 - eps) / (1 + eps)) ^ 2"
    using eps_ratios by (simp_all only: mult_left_mono)
  with fl_quotient_bounds [OF assms] have "fl (fl d / as_secs_f64 ns) \<le> ?r * (1 + 1 / 2 ^ 50)"
      "?r * (1 - 1 / 2 ^ 50) \<le> fl (fl d / as_secs_f64 ns)"
    by (blast intro: order_trans)+
  then have "fl (fl d / as_secs_f64 ns) \<le> ?r + ?r / 2 ^ 50" "?r - ?r / 2 ^ 50 \<le> fl (fl d / as_secs_f64 ns)"
    by (simp_all only: distrib_left right_diff_distrib mult_1_right times_divide_eq_right)
  then show ?thesis unfolding abs_le_iff by linarith
qed

section \<open>Properties\<close>


text \<open>
  The counters of a VM add up its devices. The bytes read and written by disks, and received and sent by network
  cards, are the sums over every device that libvirt reports, whatever other values it reports and in whatever order;
  a sum that does not fit into 64 bits stays at the largest value, and without any device there is no value.
\<close>

theorem counters_add_up_devices:
  "disk_read_bytes (from_params ps) = total (device_values ''block'' ''rd.bytes'' ps) \<and>
   disk_write_bytes (from_params ps) = total (device_values ''block'' ''wr.bytes'' ps) \<and>
   net_rx_bytes (from_params ps) = total (device_values ''net'' ''rx.bytes'' ps) \<and>
   net_tx_bytes (from_params ps) = total (device_values ''net'' ''tx.bytes'' ps)"
  by (simp add: device_sums)

text \<open>
  There is at most one poll task, and one whenever somebody watches. In every order of subscriptions, dropped receivers
  and ticks, at most one poll task runs; while there is a receiver exactly one does; and once the last receiver is
  gone, the next tick leaves none, so that no stats call is made while nobody watches.
\<close>

theorem stats_one_poll_task:
  "let s = fold hub_step labels hub_new in
     hub_tasks s \<le> 1 \<and> (if hub_receivers s = 0 then hub_tasks (hub_step Tick s) = 0 else hub_tasks s = 1)"
proof -
  have "hub_wf (fold hub_step labels hub_new)"
    by (rule hub_run.run_inv) (simp add: hub_wf_def hub_new_def)
  then show ?thesis by (auto simp: hub_wf_def hub_tick_def Let_def)
qed

subsection \<open>Witnesses\<close>

lemma example_rate:
  "rate (Some (counters_default\<lparr>disk_read_bytes := Some 0\<rparr>)) (counters_default\<lparr>disk_read_bytes := Some 1000\<rparr>) PERIOD disk_read_bytes =
     Some 200"
  by code_simp


end
