(* ===== verification/Sockets.thy ===== *)
theory Sockets
  imports Rest_Api Stats
begin

text \<open>
  The two WebSockets: \<^verbatim>\<open>lodger/src/ws.rs\<close> (\<^verbatim>\<open>/ws/events\<close>) and \<^verbatim>\<open>lodger/src/console.rs\<close> with \<^verbatim>\<open>lodger-virt/src/console.rs\<close>
  (\<^verbatim>\<open>/ws/vms/{id}/vnc\<close>). After the upgrade each is a task that waits on several sources at once; its run is the list of
  what the sources gave it, in the order in which \<^verbatim>\<open>select!\<close> took them. JSON parsing is the argument \<open>parse\<close>.
\<close>

section \<open>The events socket\<close>

datatype Update = UpdVm uuid | UpdPool uuid | UpdNetwork uuid | Resync | UpdConnection Connection | UpdStats "VmStats list"

datatype Topic = TopicStats

datatype Request = SubscribeTo Topic | UnsubscribeFrom Topic

definition ws_request :: "(ustr \<Rightarrow> Request option) \<Rightarrow> ustr \<Rightarrow> Request option" where
  "ws_request parse text = (if str_len text > 256 then None else parse text)"

fun update_for :: "received \<Rightarrow> Update option" where
  "update_for (Got (EvDomain i _)) = Some (UpdVm i)"
| "update_for (Got (EvPool i _)) = Some (UpdPool i)"
| "update_for (Got (EvNetwork i _)) = Some (UpdNetwork i)"
| "update_for (Got (EvClosed _)) = None"
| "update_for Lagged = Some Resync"
| "update_for HubClosed = None"

definition POLICY :: nat where
  "POLICY = 1008"

datatype ws_message = Text Update | Binary bytes | Close "(nat \<times> string) option"

definition session_over :: ws_message where
  "session_over = Close (Some (POLICY, ''the session ended''))"

text \<open>What the browser sends: a text, a close, an error or the end of the stream, or another message.\<close>

datatype incoming = InText ustr | InClose | InEnd | InOther

text \<open>What the task of a socket meets, with the result of the send that follows, if one does.\<close>

datatype socket_event =
    EvReceived received bool
  | EvReload bool
  | EvConnState ConnState bool
  | EvSessionEnded
  | EvStats "VmStats list" bool
  | EvIncoming incoming

text \<open>
  The loop of \<^verbatim>\<open>forward\<close>. The flag says whether the client subscribed to the stats. Without a subscription
  \<^verbatim>\<open>next_stats\<close> never finishes, so the stats branch is not taken. The result is what was sent and
  whether the task ended.
\<close>

fun forward :: "(ustr \<Rightarrow> Request option) \<Rightarrow> bool \<Rightarrow> socket_event list \<Rightarrow> ws_message list \<times> bool" where
  "forward parse subscribed [] = ([], False)"
| "forward parse subscribed (EvReceived received sent # evs) =
     (if received = HubClosed then ([], True)
      else case update_for received of
        None \<Rightarrow> forward parse subscribed evs
      | Some u \<Rightarrow> if sent then (case forward parse subscribed evs of (out, ended) \<Rightarrow> (Text u # out, ended)) else ([], True))"
| "forward parse subscribed (EvReload sent # evs) =
     (if sent then (case forward parse subscribed evs of (out, ended) \<Rightarrow> (Text Resync # out, ended)) else ([], True))"
| "forward parse subscribed (EvConnState st sent # evs) =
     (if sent
      then (case forward parse subscribed evs of (out, ended) \<Rightarrow> (Text (UpdConnection (connection_of st)) # out, ended))
      else ([], True))"
| "forward parse subscribed (EvSessionEnded # evs) = ([session_over], True)"
| "forward parse subscribed (EvStats vs sent # evs) =
     (if \<not> subscribed then forward parse subscribed evs
      else if sent then (case forward parse subscribed evs of (out, ended) \<Rightarrow> (Text (UpdStats vs) # out, ended))
      else ([], True))"
| "forward parse subscribed (EvIncoming i # evs) =
     (case i of
        InClose \<Rightarrow> ([], True)
      | InEnd \<Rightarrow> ([], True)
      | InText text \<Rightarrow>
          (case ws_request parse text of
             Some (SubscribeTo TopicStats) \<Rightarrow> forward parse True evs
           | Some (UnsubscribeFrom TopicStats) \<Rightarrow> forward parse False evs
           | None \<Rightarrow> forward parse subscribed evs)
      | InOther \<Rightarrow> forward parse subscribed evs)"

text \<open>The answer to an upgrade request: a refusal, or a socket that belongs to the session with this key.\<close>

datatype 'x upgrade = Upgraded digest | Declined "'x response"

definition ws_events ::
    "conf \<Rightarrow> env \<Rightarrow> headers \<Rightarrow> ustr option \<Rightarrow> app \<Rightarrow> ('x upgrade \<times> app) option" where
  "ws_events C E h query_ticket a =
     map_option (\<lambda>(r, a). (case r of Ok key \<Rightarrow> Upgraded key | Err response \<Rightarrow> Declined response, a))
       (open_socket C E h query_ticket a)"

section \<open>The console\<close>

definition CHUNK :: nat where
  "CHUNK = 64 * 1024"

text \<open>\<open>pair_failed\<close>: the error of \<^verbatim>\<open>UnixStream::pair\<close>, if it fails.\<close>

definition open_vnc :: "'w libvirt \<Rightarrow> ustr option \<Rightarrow> ustr option \<Rightarrow> uuid \<Rightarrow> ('w, unit, Error) virt" where
  "open_vnc L pair_failed task_failed i =
     (case pair_failed of
        Some e \<Rightarrow> vreturn (Err (Io e))
      | None \<Rightarrow>
          job task_failed (vbind (ask_e (lv_handle L) (LookupDomain i)) (\<lambda>d. ask_e (lv_unit L) (OpenGraphics d 0))))"

text \<open>\<open>socket_failed\<close>: the error of making the stream nonblocking and handing it to tokio, if that fails.\<close>

definition vnc ::
    "conf \<Rightarrow> env \<Rightarrow> 'w host \<Rightarrow> ustr option \<Rightarrow> ustr option \<Rightarrow> uuid \<Rightarrow> headers \<Rightarrow> ustr option \<Rightarrow> 'w site
      \<Rightarrow> ('x upgrade \<times> 'w site) option" where
  "vnc C E H pair_failed socket_failed i h query_ticket st =
     (case st of (a, s) \<Rightarrow>
      case open_socket C E h query_ticket a of
        None \<Rightarrow> None
      | Some (Err response, a) \<Rightarrow> Some (Declined response, a, s)
      | Some (Ok key, a) \<Rightarrow>
          (case h_virt H of
             None \<Rightarrow> Some (Declined (respond 503 (Message ''libvirt is not connected'')), a, s)
           | Some L \<Rightarrow>
               (case open_vnc L pair_failed (h_task H ''open vnc'') i s of
                  (Ok _, s) \<Rightarrow>
                    (case socket_failed of
                       Some e \<Rightarrow> Some (Declined (respond 500 (MessageAbout [] e)), a, s)
                     | None \<Rightarrow> Some (Upgraded key, a, s))
                | (Err e, s) \<Rightarrow>
                    Some (Declined (if is_not_found e then respond 404 NoBody else respond 409 (MessageAbout [] (h_show H e))), a, s))))"

text \<open>
  What the relay meets: a message from the browser (binary, with the result of the write to QEMU), its close or its
  end; bytes read from QEMU (with the result of the send), or their end; the end of the session.
\<close>

datatype relay_event =
    FromBrowser bytes bool
  | BrowserOther
  | BrowserEnded
  | FromVm bytes bool
  | VmEnded
  | SessionEnded

text \<open>What the relay wrote to QEMU and sent to the browser, and whether it ended.\<close>

fun relay :: "relay_event list \<Rightarrow> bytes \<times> ws_message list \<times> bool" where
  "relay [] = ([], [], False)"
| "relay (FromBrowser bs written # evs) =
     (if written then (case relay evs of (vm, browser, ended) \<Rightarrow> (bs @ vm, browser, ended)) else ([], [], True))"
| "relay (BrowserOther # evs) = relay evs"
| "relay (BrowserEnded # evs) = ([], [], True)"
| "relay (FromVm bs sent # evs) =
     (if bs = [] then ([], [Close None], True)
      else if sent then (case relay evs of (vm, browser, ended) \<Rightarrow> (vm, Binary bs # browser, ended)) else ([], [], True))"
| "relay (VmEnded # evs) = ([], [Close None], True)"
| "relay (SessionEnded # evs) = ([], [session_over], True)"

section \<open>What the sockets do\<close>

text \<open>What the client must learn from an event of the task, as one update.\<close>

fun due :: "socket_event \<Rightarrow> Update option" where
  "due (EvReceived r _) = update_for r"
| "due (EvReload _) = Some Resync"
| "due (EvConnState st _) = Some (UpdConnection (connection_of st))"
| "due _ = None"

fun is_stats :: "ws_message \<Rightarrow> bool" where
  "is_stats (Text (UpdStats _)) = True"
| "is_stats _ = False"

text \<open>A task that has not ended sent every update that was due, in order, and besides them only stats.\<close>

lemma forward_updates:
  "forward parse subscribed evs = (out, False) \<Longrightarrow> filter (\<lambda>m. \<not> is_stats m) out = map Text (List.map_filter due evs)"
proof (induction parse subscribed evs arbitrary: out rule: forward.induct)
  case (2 parse subscribed r sent evs)
  then show ?case
    by (cases "update_for r")
      (auto simp: List.map_filter_simps split: if_splits prod.splits elim!: update_for.elims)
qed (auto simp: List.map_filter_simps split: if_splits prod.splits incoming.splits option.splits Request.splits Topic.splits)

lemma forward_append_ended: "forward parse subscribed evs = (out, True) \<Longrightarrow> forward parse subscribed (evs @ post) = (out, True)"
  by (induction parse subscribed evs arbitrary: out rule: forward.induct)
    (auto split: if_splits prod.splits incoming.splits option.splits Request.splits Topic.splits)

lemma forward_session_over:
  "forward parse subscribed evs = (out, False) \<Longrightarrow>
     forward parse subscribed (evs @ EvSessionEnded # post) = (out @ [session_over], True)"
  by (induction parse subscribed evs arbitrary: out rule: forward.induct)
    (auto split: if_splits prod.splits incoming.splits option.splits Request.splits Topic.splits)

text \<open>Without a message that subscribes, no stats are sent.\<close>

lemma forward_no_stats:
  assumes "\<And>text. EvIncoming (InText text) \<in> set evs \<Longrightarrow> ws_request parse text \<noteq> Some (SubscribeTo TopicStats)"
  shows "\<not> list_ex is_stats (fst (forward parse False evs))"
  using assms
proof (induction evs)
  case (Cons e evs)
  then have IH: "\<not> list_ex is_stats (fst (forward parse False evs))" by simp
  show ?case
  proof (cases e)
    case (EvReceived r sent)
    with IH show ?thesis
      by (cases "update_for r") (auto split: prod.splits elim!: update_for.elims)
  next
    case (EvIncoming i)
    with IH Cons.prems show ?thesis
      by (cases i) (fastforce split: option.splits Request.splits Topic.splits)+
  qed (use IH in \<open>auto simp: session_over_def split: prod.splits\<close>)
qed simp

lemma relay_append_ended: "relay evs = (vm, browser, True) \<Longrightarrow> relay (evs @ post) = (vm, browser, True)"
  by (induction evs arbitrary: vm browser rule: relay.induct) (auto split: if_splits prod.splits)

fun to_vm :: "relay_event \<Rightarrow> bytes" where
  "to_vm (FromBrowser bs _) = bs"
| "to_vm _ = []"

fun to_browser :: "relay_event \<Rightarrow> bytes" where
  "to_browser (FromVm bs _) = bs"
| "to_browser _ = []"

fun payload :: "ws_message \<Rightarrow> bytes" where
  "payload (Binary bs) = bs"
| "payload _ = []"

lemma relay_copies:
  "relay evs = (vm, browser, False) \<Longrightarrow>
     vm = concat (map to_vm evs) \<and> concat (map payload browser) = concat (map to_browser evs) \<and>
     relay (evs @ SessionEnded # post) = (vm, browser @ [session_over], True)"
  by (induction evs arbitrary: vm browser rule: relay.induct) (auto split: if_splits prod.splits)

section \<open>Properties\<close>


text \<open>
  The console relay changes nothing. While it runs, what QEMU got is exactly what the browser sent in binary messages, in order,
  and what the browser got is exactly what QEMU sent; when the session ends, both directions stop with the close of
  code 1008, whatever comes after.
\<close>

theorem relay_transparent:
  assumes "relay evs = (vm, browser, False)"
  shows "vm = concat (map to_vm evs) \<and> concat (map payload browser) = concat (map to_browser evs) \<and>
    relay (evs @ SessionEnded # post) = (vm, browser @ [Close (Some (1008, ''the session ended''))], True)"
  using relay_copies [OF assms, of post] by (simp add: session_over_def POLICY_def)


subsection \<open>Witnesses\<close>


theorem relay_transparent_witness:
  "relay ([FromBrowser [1, 2] True, FromVm [3] True, FromBrowser [4] True] @ SessionEnded # [FromVm [5] True]) =
     ([1, 2, 4], [Binary [3], Close (Some (1008, ''the session ended''))], True)"
proof -
  have "relay [FromBrowser [1, 2] True, FromVm [3] True, FromBrowser [4] True] = ([1, 2, 4], [Binary [3]], False)"
    by simp
  from relay_transparent [OF this, of "[FromVm [5] True]"] show ?thesis by simp
qed

end
