(* ===== verification/Router.thy ===== *)
theory Router
  imports Setup Accounts Pools_Api Networks_Api Volumes_Api Assets Rest_Api Sockets
begin

text \<open>
  \<^verbatim>\<open>router\<close> of \<^verbatim>\<open>lodger/src/server.rs\<close>: the table of routes with every handler of the other theories behind it, the guard around the protected
  routes, and the two layers around everything. What axum does is a parameter: which route a
  path matches, how a path parameter, a query or a body is read, and how it rejects a request. The laws that
  its documentation states for the matching of paths are the predicate \<open>matching_laws\<close>.
\<close>

section \<open>Handlers\<close>

datatype content =
    RestContent rest_content
  | AuthContent auth_content
  | SetupContent setup_content
  | AccountContent account_content
  | ApiContent api_content
  | AssetContent asset_content
  | SocketFor digest
  | Panicked

datatype guarded_handler =
    ApiHost | ApiVms | ApiVm | ActionsDelete | ActionsUpdate | ActionsRun
  | PoolsList | PoolsCreate | PoolsDetail | PoolsChange | PoolsRemove
  | VolumesList | VolumesCreate | VolumesRemove
  | NetworksList | NetworksCreate | NetworksDetail | NetworksChange | NetworksRemove | HostBridges
  | AuthCurrent | AuthLogout | AuthIssueTicket
  | AccountsList | AccountsCreate | AccountsDelete | AccountsChangePassword

datatype open_handler = ApiHealth | SetupStatus | SetupClaim | AuthLogin | WsEvents | ConsoleVnc

datatype handler = Guarded guarded_handler | Open open_handler | Reserved

datatype seg = Static string | Param | CatchAll

datatype method_router = Methods "(http_method \<times> handler) list" | AnyMethod handler

type_synonym pattern = "seg list"
type_synonym route_table = "(pattern \<times> method_router) list"

record request =
  rq_method :: http_method
  rq_path :: ustr
  rq_headers :: headers
  rq_peer :: ipaddr

text \<open>What axum, serde and the parts of libvirt and of the system outside the host handle do with a request.\<close>

record 'w framework =
  fw_match :: "pattern list \<Rightarrow> ustr \<Rightarrow> (pattern \<times> ustr list) option"
  fw_reject :: "request \<Rightarrow> nat"
  fw_no_method :: "request \<Rightarrow> app \<Rightarrow> nat \<times> app"
  fw_uuid :: "ustr \<Rightarrow> uuid option"
  fw_i64 :: "ustr \<Rightarrow> int option"
  fw_text :: "ustr \<Rightarrow> ustr option"
  fw_bytes :: "request \<Rightarrow> bytes option"
  fw_upgrade :: "request \<Rightarrow> bool"
  fw_ticket :: "request \<Rightarrow> ustr option option"
  js_login :: "request \<Rightarrow> Login payload"
  js_claim :: "request \<Rightarrow> Claim payload"
  js_account :: "request \<Rightarrow> NewAccount payload"
  js_password :: "request \<Rightarrow> PasswordChange payload"
  js_confirm :: "Confirm json"
  js_delete :: "DeleteRequest json"
  js_settings :: "Settings json"
  js_pool :: "CreatePool json"
  js_pool_change :: "PoolChange json"
  js_pool_removal :: "PoolRemoval json"
  js_network :: "CreateNetwork json"
  js_network_change :: "NetworkChange json"
  js_network_removal :: "NetworkRemoval json"
  js_volume :: "CreateVolume json"
  fw_node :: "('w, nat \<times> nat) answer"
  fw_version :: "('w, nat) answer"
  fw_pair_failed :: "ustr option"
  fw_socket_failed :: "ustr option"
  fw_header_value :: "ustr \<Rightarrow> bool"
  fw_assets :: asset_source

text \<open>axum's own answer, by its status. For a method that a path does not have, the guard may run first.\<close>

definition rejection :: "'w framework \<Rightarrow> request \<Rightarrow> content response" where
  "rejection F rq = respond (fw_reject F rq) Rejection"

definition into :: "('x \<Rightarrow> 'y) \<Rightarrow> 'x response \<Rightarrow> 'y response" where
  "into f r = \<lparr>status = status r, resp_headers = resp_headers r, body = map_body f (body r)\<rparr>"

text \<open>A handler that only reads, one on the database side, one on the libvirt side, and one on both.\<close>

definition run_pure :: "('x \<Rightarrow> content) \<Rightarrow> 'x response \<Rightarrow> 'w site \<Rightarrow> content response \<times> 'w site" where
  "run_pure f r st = (into f r, st)"

definition run_app :: "('x \<Rightarrow> content) \<Rightarrow> (app \<Rightarrow> 'x response \<times> app) \<Rightarrow> 'w site \<Rightarrow> content response \<times> 'w site" where
  "run_app f g st = (case st of (a, k) \<Rightarrow> case g a of (r, a) \<Rightarrow> (into f r, a, k))"

definition run_conn ::
    "('x \<Rightarrow> content) \<Rightarrow> ('w conn \<Rightarrow> 'x response \<times> 'w conn) \<Rightarrow> 'w site \<Rightarrow> content response \<times> 'w site" where
  "run_conn f g st = (case st of (a, k) \<Rightarrow> case g k of (r, k) \<Rightarrow> (into f r, a, k))"

definition run_site ::
    "('x \<Rightarrow> content) \<Rightarrow> ('w site \<Rightarrow> 'x response \<times> 'w site) \<Rightarrow> 'w site \<Rightarrow> content response \<times> 'w site" where
  "run_site f g st = (case g st of (r, st) \<Rightarrow> (into f r, st))"

text \<open>An \<^verbatim>\<open>expect\<close> that fails is a panic, which ends the connection without a response.\<close>

definition or_panic :: "('x \<Rightarrow> content) \<Rightarrow> (app \<Rightarrow> ('x response \<times> app) option) \<Rightarrow> 'w site \<Rightarrow> content response \<times> 'w site" where
  "or_panic f g st =
     (case st of (a, k) \<Rightarrow> case g a of None \<Rightarrow> (respond 500 (Content Panicked), st) | Some (r, a) \<Rightarrow> (into f r, a, k))"

text \<open>Extractors: one path parameter that is a UUID, and the body.\<close>

definition with_uuid ::
    "'w framework \<Rightarrow> request \<Rightarrow> ustr list \<Rightarrow> (uuid \<Rightarrow> 'w site \<Rightarrow> content response \<times> 'w site) \<Rightarrow> 'w site
      \<Rightarrow> content response \<times> 'w site" where
  "with_uuid F rq ps run st =
     (case ps of
        [p] \<Rightarrow> (case fw_uuid F p of Some i \<Rightarrow> run i st | None \<Rightarrow> (rejection F rq, st))
      | _ \<Rightarrow> (rejection F rq, st))"

definition with_uuid_and_name ::
    "'w framework \<Rightarrow> request \<Rightarrow> ustr list \<Rightarrow> (uuid \<Rightarrow> ustr \<Rightarrow> 'w site \<Rightarrow> content response \<times> 'w site) \<Rightarrow> 'w site
      \<Rightarrow> content response \<times> 'w site" where
  "with_uuid_and_name F rq ps run st =
     (case ps of
        [p, q] \<Rightarrow> (case (fw_uuid F p, fw_text F q) of (Some i, Some n) \<Rightarrow> run i n st | _ \<Rightarrow> (rejection F rq, st))
      | _ \<Rightarrow> (rejection F rq, st))"

definition with_bytes ::
    "'w framework \<Rightarrow> request \<Rightarrow> (bytes \<Rightarrow> 'w site \<Rightarrow> content response \<times> 'w site) \<Rightarrow> 'w site \<Rightarrow> content response \<times> 'w site" where
  "with_bytes F rq run st = (case fw_bytes F rq of Some raw \<Rightarrow> run raw st | None \<Rightarrow> (rejection F rq, st))"

fun exec_guarded ::
    "'w framework \<Rightarrow> conf \<Rightarrow> env \<Rightarrow> 'w host \<Rightarrow> request \<Rightarrow> guarded_handler \<Rightarrow> ustr list \<Rightarrow> Session \<Rightarrow> 'w site
      \<Rightarrow> content response \<times> 'w site" where
  "exec_guarded F C E H rq ApiHost ps s = run_conn RestContent (rest_host (fw_node F) (fw_version F) H)"
| "exec_guarded F C E H rq ApiVms ps s = run_pure RestContent (rest_vms H)"
| "exec_guarded F C E H rq ApiVm ps s = with_uuid F rq ps (\<lambda>i. run_pure RestContent (rest_vm H i))"
| "exec_guarded F C E H rq ActionsDelete ps s = with_uuid F rq ps (\<lambda>i. with_bytes F rq (\<lambda>raw.
     run_site ApiContent (vm_remove C E H (js_delete F) (rq_peer rq) (rq_headers rq) s i raw)))"
| "exec_guarded F C E H rq ActionsUpdate ps s = with_uuid F rq ps (\<lambda>i. with_bytes F rq (\<lambda>raw.
     run_site ApiContent (vm_update C E H (js_settings F) (rq_peer rq) (rq_headers rq) s i raw)))"
| "exec_guarded F C E H rq ActionsRun ps s = with_uuid_and_name F rq ps (\<lambda>i act. with_bytes F rq (\<lambda>raw.
     run_site ApiContent (vm_run C E H (js_confirm F) (rq_peer rq) (rq_headers rq) s i act raw)))"
| "exec_guarded F C E H rq PoolsList ps s = run_pure ApiContent (pools_list H)"
| "exec_guarded F C E H rq PoolsCreate ps s = with_bytes F rq (\<lambda>raw.
     run_site ApiContent (pools_create C E H (js_pool F) (rq_peer rq) (rq_headers rq) s raw))"
| "exec_guarded F C E H rq PoolsDetail ps s = with_uuid F rq ps (\<lambda>i. run_conn ApiContent (pools_detail H i))"
| "exec_guarded F C E H rq PoolsChange ps s = with_uuid F rq ps (\<lambda>i. with_bytes F rq (\<lambda>raw.
     run_site ApiContent (pools_change C E H (js_pool_change F) (rq_peer rq) (rq_headers rq) s i raw)))"
| "exec_guarded F C E H rq PoolsRemove ps s = with_uuid F rq ps (\<lambda>i. with_bytes F rq (\<lambda>raw.
     run_site ApiContent (pools_remove C E H (js_pool_removal F) (rq_peer rq) (rq_headers rq) s i raw)))"
| "exec_guarded F C E H rq VolumesList ps s = with_uuid F rq ps (\<lambda>i. run_conn ApiContent (volumes_list H i))"
| "exec_guarded F C E H rq VolumesCreate ps s = with_uuid F rq ps (\<lambda>i. with_bytes F rq (\<lambda>raw.
     run_site ApiContent (volumes_create C E H (js_volume F) (rq_peer rq) (rq_headers rq) s i raw)))"
| "exec_guarded F C E H rq VolumesRemove ps s = with_uuid_and_name F rq ps (\<lambda>i name.
     run_site ApiContent (volumes_remove C E H (rq_peer rq) (rq_headers rq) s i name))"
| "exec_guarded F C E H rq NetworksList ps s = run_pure ApiContent (networks_list H)"
| "exec_guarded F C E H rq NetworksCreate ps s = with_bytes F rq (\<lambda>raw.
     run_site ApiContent (networks_create C E H (js_network F) (rq_peer rq) (rq_headers rq) s raw))"
| "exec_guarded F C E H rq NetworksDetail ps s = with_uuid F rq ps (\<lambda>i. run_conn ApiContent (networks_detail H i))"
| "exec_guarded F C E H rq NetworksChange ps s = with_uuid F rq ps (\<lambda>i. with_bytes F rq (\<lambda>raw.
     run_site ApiContent (networks_change C E H (js_network_change F) (rq_peer rq) (rq_headers rq) s i raw)))"
| "exec_guarded F C E H rq NetworksRemove ps s = with_uuid F rq ps (\<lambda>i. with_bytes F rq (\<lambda>raw.
     run_site ApiContent (networks_remove C E H (js_network_removal F) (rq_peer rq) (rq_headers rq) s i raw)))"
| "exec_guarded F C E H rq HostBridges ps s = run_conn ApiContent (host_bridges H)"
| "exec_guarded F C E H rq AuthCurrent ps s = run_pure AuthContent (current s)"
| "exec_guarded F C E H rq AuthLogout ps s = or_panic AuthContent (logout C E (rq_headers rq))"
| "exec_guarded F C E H rq AuthIssueTicket ps s = or_panic AuthContent (issue_ticket C E (rq_headers rq))"
| "exec_guarded F C E H rq AccountsList ps s = run_app AccountContent (accounts_list E s)"
| "exec_guarded F C E H rq AccountsCreate ps s =
     run_app AccountContent (accounts_create C E (rq_peer rq) (rq_headers rq) s (js_account F rq))"
| "exec_guarded F C E H rq AccountsDelete ps s =
     (case map (fw_i64 F) ps of
        [Some i] \<Rightarrow> run_app AccountContent (accounts_delete C E (rq_peer rq) (rq_headers rq) s i)
      | _ \<Rightarrow> Pair (rejection F rq))"
| "exec_guarded F C E H rq AccountsChangePassword ps s =
     or_panic AccountContent (accounts_change_password C E (rq_peer rq) (rq_headers rq) s (js_password F rq))"

definition upgraded :: "content upgrade \<Rightarrow> content response" where
  "upgraded u = (case u of Upgraded key \<Rightarrow> respond 101 (Content (SocketFor key)) | Declined r \<Rightarrow> r)"

text \<open>A WebSocket handler needs a query that can be read and a request that asks for the upgrade.\<close>

definition with_socket ::
    "'w framework \<Rightarrow> request \<Rightarrow> (ustr option \<Rightarrow> 'w site \<Rightarrow> (content upgrade \<times> 'w site) option) \<Rightarrow> 'w site
      \<Rightarrow> content response \<times> 'w site" where
  "with_socket F rq run st =
     (case fw_ticket F rq of
        None \<Rightarrow> (rejection F rq, st)
      | Some ticket \<Rightarrow>
          if \<not> fw_upgrade F rq then (rejection F rq, st)
          else case run ticket st of
            None \<Rightarrow> (respond 500 (Content Panicked), st)
          | Some (u, st) \<Rightarrow> (upgraded u, st))"

fun exec_open ::
    "'w framework \<Rightarrow> conf \<Rightarrow> env \<Rightarrow> 'w host \<Rightarrow> request \<Rightarrow> open_handler \<Rightarrow> ustr list \<Rightarrow> 'w site \<Rightarrow> content response \<times> 'w site" where
  "exec_open F C E H rq ApiHealth ps = run_app RestContent (rest_health E H)"
| "exec_open F C E H rq SetupStatus ps = run_app SetupContent (setup_status E)"
| "exec_open F C E H rq SetupClaim ps = run_app SetupContent (claim C E (rq_peer rq) (rq_headers rq) (js_claim F rq))"
| "exec_open F C E H rq AuthLogin ps = run_app AuthContent (login C E (rq_peer rq) (rq_headers rq) (js_login F rq))"
| "exec_open F C E H rq WsEvents ps = with_socket F rq (\<lambda>ticket (a, k).
     map_option (\<lambda>(u, a). (u, a, k)) (ws_events C E (rq_headers rq) ticket a))"
| "exec_open F C E H rq ConsoleVnc ps = with_uuid F rq ps (\<lambda>i. with_socket F rq (\<lambda>ticket.
     vnc C E H (fw_pair_failed F) (fw_socket_failed F) i (rq_headers rq) ticket))"

section \<open>The table\<close>

definition api :: "seg list \<Rightarrow> pattern" where
  "api segs = Static ''api'' # segs"

definition protected :: route_table where
  "protected = map (\<lambda>(p, ms). (p, Methods (map (\<lambda>(m, g). (m, Guarded g)) ms)))
     [(api [Static ''host''], [(GET, ApiHost)]),
      (api [Static ''vms''], [(GET, ApiVms)]),
      (api [Static ''vms'', Param], [(GET, ApiVm), (DELETE, ActionsDelete), (PATCH, ActionsUpdate)]),
      (api [Static ''vms'', Param, Static ''actions'', Param], [(POST, ActionsRun)]),
      (api [Static ''pools''], [(GET, PoolsList), (POST, PoolsCreate)]),
      (api [Static ''pools'', Param], [(GET, PoolsDetail), (PATCH, PoolsChange), (DELETE, PoolsRemove)]),
      (api [Static ''pools'', Param, Static ''volumes''], [(GET, VolumesList), (POST, VolumesCreate)]),
      (api [Static ''pools'', Param, Static ''volumes'', Param], [(DELETE, VolumesRemove)]),
      (api [Static ''networks''], [(GET, NetworksList), (POST, NetworksCreate)]),
      (api [Static ''networks'', Param], [(GET, NetworksDetail), (PATCH, NetworksChange), (DELETE, NetworksRemove)]),
      (api [Static ''host-bridges''], [(GET, HostBridges)]),
      (api [Static ''session''], [(GET, AuthCurrent), (DELETE, AuthLogout)]),
      (api [Static ''ws-tickets''], [(POST, AuthIssueTicket)]),
      (api [Static ''accounts''], [(GET, AccountsList), (POST, AccountsCreate)]),
      (api [Static ''accounts'', Param], [(DELETE, AccountsDelete)]),
      (api [Static ''account'', Static ''password''], [(POST, AccountsChangePassword)])]"

text \<open>\<^verbatim>\<open>Router::merge\<close>: a path that both tables have gets the methods of both.\<close>

definition add_methods :: "route_table \<Rightarrow> pattern \<times> method_router \<Rightarrow> pattern \<times> method_router" where
  "add_methods t r = (case (snd r, map_of t (fst r)) of
      (Methods ms, Some (Methods ms')) \<Rightarrow> (fst r, Methods (ms @ ms'))
    | _ \<Rightarrow> r)"

definition merge_routes :: "route_table \<Rightarrow> route_table \<Rightarrow> route_table" where
  "merge_routes t u = map (add_methods u) t @ filter (\<lambda>r. fst r \<notin> set (map fst t)) u"

definition routes :: route_table where
  "routes =
     merge_routes
       [(api [Static ''health''], Methods [(GET, Open ApiHealth)]),
        (api [Static ''setup''], Methods [(GET, Open SetupStatus), (POST, Open SetupClaim)]),
        (api [Static ''session''], Methods [(POST, Open AuthLogin)])]
       protected @
     [([Static ''ws'', Static ''events''], Methods [(GET, Open WsEvents)]),
      ([Static ''ws'', Static ''vms'', Param, Static ''vnc''], Methods [(GET, Open ConsoleVnc)]),
      (api [], AnyMethod Reserved),
      (api [CatchAll], AnyMethod Reserved),
      ([Static ''ws''], AnyMethod Reserved),
      ([Static ''ws'', CatchAll], AnyMethod Reserved)]"

text \<open>axum answers \<^verbatim>\<open>HEAD\<close> with the \<^verbatim>\<open>GET\<close> handler, without the body.\<close>

definition handler_for :: "method_router \<Rightarrow> http_method \<Rightarrow> (handler \<times> bool) option" where
  "handler_for r m = (case r of
      AnyMethod h \<Rightarrow> Some (h, False)
    | Methods ms \<Rightarrow>
        (case map_of ms m of
           Some h \<Rightarrow> Some (h, False)
         | None \<Rightarrow> if m = HEAD then map_option (\<lambda>h. (h, True)) (map_of ms GET) else None))"

definition without_body :: "bool \<Rightarrow> content response \<times> 's \<Rightarrow> content response \<times> 's" where
  "without_body strip x = (if strip then ((fst x)\<lparr>body := NoBody\<rparr>, snd x) else x)"

definition web_ui :: "'w framework \<Rightarrow> request \<Rightarrow> content response" where
  "web_ui F rq = into AssetContent (asset_respond (fw_header_value F) (fw_assets F) (rq_method rq) (rq_path rq) (rq_headers rq))"

definition reserved :: "content response" where
  "reserved = respond 404 NoBody"

definition dispatch ::
    "'w framework \<Rightarrow> conf \<Rightarrow> env \<Rightarrow> 'w host \<Rightarrow> (guarded_handler \<Rightarrow> ustr list \<Rightarrow> Session \<Rightarrow> 'w site \<Rightarrow> content response \<times> 'w site)
      \<Rightarrow> request \<Rightarrow> 'w site \<Rightarrow> content response \<times> 'w site" where
  "dispatch F C E H guarded rq st =
     (case fw_match F (map fst routes) (rq_path rq) of
        None \<Rightarrow> (web_ui F rq, st)
      | Some (pat, ps) \<Rightarrow>
          (case Option.bind (map_of routes pat) (\<lambda>r. handler_for r (rq_method rq)) of
             None \<Rightarrow> (case st of (a, k) \<Rightarrow> case fw_no_method F rq a of (code, a) \<Rightarrow> (respond code Rejection, a, k))
           | Some (h, strip) \<Rightarrow>
               without_body strip
                 (case h of
                    Reserved \<Rightarrow> (reserved, st)
                  | Open h \<Rightarrow> exec_open F C E H rq h ps st
                  | Guarded h \<Rightarrow> require_session C E (rq_method rq) (rq_headers rq) (guarded h ps) st)))"

definition router_with ::
    "'w framework \<Rightarrow> conf \<Rightarrow> env \<Rightarrow> 'w host \<Rightarrow> (guarded_handler \<Rightarrow> ustr list \<Rightarrow> Session \<Rightarrow> 'w site \<Rightarrow> content response \<times> 'w site)
      \<Rightarrow> request \<Rightarrow> 'w site \<Rightarrow> content response \<times> 'w site" where
  "router_with F C E H guarded rq =
     add_headers C (require_same_origin C (rq_method rq) (rq_headers rq) (dispatch F C E H guarded rq))"

definition router :: "'w framework \<Rightarrow> conf \<Rightarrow> env \<Rightarrow> 'w host \<Rightarrow> request \<Rightarrow> 'w site \<Rightarrow> content response \<times> 'w site" where
  "router F C E H rq = router_with F C E H (exec_guarded F C E H rq) rq"

section \<open>What reaches libvirt\<close>

text \<open>A request the guard lets through: its cookie names a live session and, unless it only reads, it carries that session's token.\<close>

definition admitted :: "conf \<Rightarrow> env \<Rightarrow> request \<Rightarrow> app \<Rightarrow> bool" where
  "admitted C E rq a \<longleftrightarrow> guard_lets C E (rq_method rq) (rq_headers rq) a"

lemma admitted_iff:
  "admitted C E rq a \<longleftrightarrow>
     (case looked_up C E (rq_headers rq) a of
        None \<Rightarrow> False
      | Some s \<Rightarrow> is_safe (rq_method rq) \<or> header (rq_headers rq) CSRF_HEADER = Some (session_csrf_token s))"
  by (simp add: admitted_def guard_lets_def)

lemma run_keeps_virt [simp]:
  "snd (snd (run_pure f r st)) = snd st" "snd (snd (run_app f g st)) = snd st" "snd (snd (or_panic f g' st)) = snd st"
  by (auto simp: run_pure_def run_app_def or_panic_def split: prod.splits option.splits)

lemma snd_without_body [simp]: "snd (without_body strip x) = snd x"
  by (simp add: without_body_def)

text \<open>Only a request with a live session gets a socket, and so only it opens a console.\<close>

lemma socket_no_session:
  assumes "looked_up C E h a = None"
  shows "\<exists>r a'. (open_socket C E h q a :: ((digest, 'x response) result \<times> app) option) = Some (Err r, a')"
proof -
  obtain r :: "(digest, 'x response) result" and a' where
      "open_socket C E h q a = Some (r, a')" "case r of Err _ \<Rightarrow> True | Ok _ \<Rightarrow> False"
    using open_socket_cases [of C E h q a] assms by (fastforce split: result.splits)
  then show ?thesis by (cases r) auto
qed

lemma exec_open_virt:
  assumes "looked_up C E (rq_headers rq) a = None \<or> h \<noteq> ConsoleVnc"
  shows "snd (snd (exec_open F C E H rq h ps (a, k))) = k"
proof (cases "h = ConsoleVnc")
  case True
  have "\<exists>u a1. vnc C E H (fw_pair_failed F) (fw_socket_failed F) i (rq_headers rq) q (a, k) = Some (u :: content upgrade, a1, k)" for i q
    using socket_no_session [where 'x = content, of C E "rq_headers rq" a q] assms True by (auto simp: vnc_def)
  with True show ?thesis
    by (auto simp: with_socket_def with_uuid_def split: option.splits prod.splits list.splits) (metis option.inject prod.inject)
next
  case False
  then show ?thesis
    by (cases h) (auto simp: with_socket_def ws_events_def split: option.splits prod.splits)
qed

text \<open>Facts of the table.\<close>

fun reads_console :: "http_method \<times> handler \<Rightarrow> bool" where
  "reads_console (m, h) \<longleftrightarrow> h = Open ConsoleVnc \<longrightarrow> m = GET"

fun console_by_get :: "method_router \<Rightarrow> bool" where
  "console_by_get (Methods ms) = list_all reads_console ms"
| "console_by_get (AnyMethod h) = (h \<noteq> Open ConsoleVnc)"

lemma routes_console: "list_all (\<lambda>(_, r). console_by_get r) routes"
  by code_simp

lemma console_reads:
  assumes "map_of routes pat = Some r" and "handler_for r m = Some (Open ConsoleVnc, strip)"
  shows "is_safe m"
proof -
  have "console_by_get r"
    using routes_console map_of_SomeD [OF assms(1)] by (auto simp: list_all_iff)
  with assms(2) show ?thesis
    by (cases r) (auto simp: handler_for_def is_safe_def list_all_iff dest!: map_of_SomeD split: option.splits if_splits)
qed

lemma dispatch_not_admitted:
  assumes "\<not> admitted C E rq a"
  shows "snd (snd (dispatch F C E H X rq (a, k))) = k \<and>
    dispatch F C E H X rq (a, k) = dispatch F C E H Y rq (a, k)"
proof -
  obtain r a1 where guard: "\<And>Z. require_session C E (rq_method rq) (rq_headers rq) Z (a, k) = (r :: content response, a1, k)"
    using session_gate.closed [of C E "rq_method rq" "rq_headers rq" "(a, k)"] assms by (auto simp: admitted_def)
  have op: "snd (snd (exec_open F C E H rq h ps (a, k))) = k"
    if "map_of routes pat = Some q" "handler_for q (rq_method rq) = Some (Open h, strip)" for pat q h ps strip
  proof (rule exec_open_virt)
    show "looked_up C E (rq_headers rq) a = None \<or> h \<noteq> ConsoleVnc"
      using assms that console_reads by (auto simp: admitted_iff split: option.splits)
  qed
  show ?thesis
    using op by (auto simp: dispatch_def guard bind_eq_Some_conv split: option.splits prod.splits handler.splits)
qed

section \<open>What a handler answers\<close>

text \<open>An answer of Lodger's own handlers: not a file of the web UI, and no panic.\<close>

fun own :: "content body \<Rightarrow> bool" where
  "own (Content (AssetContent _)) = False"
| "own (Content Panicked) = False"
| "own _ = True"

lemma own_simps [simp]: "own NoBody" "own Rejection" "own (Message m)" "own (MessageAbout m u)"
  by simp_all

lemma own_map_body: "(\<And>x. own (Content (f x))) \<Longrightarrow> own (map_body f b)"
  by (cases b) simp_all

lemma own_into [simp]:
  "own (body (into RestContent r1))" "own (body (into AuthContent r2))" "own (body (into SetupContent r3))"
  "own (body (into AccountContent r4))" "own (body (into ApiContent r5))"
  by (simp_all add: into_def own_map_body)

lemma own_rejection [simp]: "own (body (rejection F rq))" "own (body reserved)"
  by (simp_all add: rejection_def reserved_def respond_def)

lemma own_run [simp]:
  "own (body (into f r)) \<Longrightarrow> own (body (fst (run_pure f r st)))"
  "(\<And>r. own (body (into f r))) \<Longrightarrow> own (body (fst (run_app f g st)))"
  "(\<And>r. own (body (into f r))) \<Longrightarrow> own (body (fst (run_conn f g' st)))"
  "(\<And>r. own (body (into f r))) \<Longrightarrow> own (body (fst (run_site f g'' st)))"
  by (auto simp: run_pure_def run_app_def run_conn_def run_site_def split: prod.splits)

lemma own_extract:
  "(\<And>i st. own (body (fst (run i st)))) \<Longrightarrow> own (body (fst (with_uuid F rq ps run st)))"
  "(\<And>i n st. own (body (fst (run' i n st)))) \<Longrightarrow> own (body (fst (with_uuid_and_name F rq ps run' st)))"
  "(\<And>raw st. own (body (fst (run'' raw st)))) \<Longrightarrow> own (body (fst (with_bytes F rq run'' st)))"
  by (auto simp: with_uuid_def with_uuid_and_name_def with_bytes_def split: list.splits option.splits)

lemma own_or_panic:
  "(\<And>r. own (body (into f r))) \<Longrightarrow> (\<And>a. g a \<noteq> None) \<Longrightarrow> own (body (fst (or_panic f g st)))"
  by (auto simp: or_panic_def split: prod.splits option.splits) (metis option.discI)

text \<open>Behind the guard there is a session cookie, so the \<^verbatim>\<open>expect\<close> of a handler holds.\<close>

lemma no_panic:
  assumes "session_key C h \<noteq> None"
  shows "logout C E h a \<noteq> None" and "issue_ticket C E h a \<noteq> None" and "accounts_change_password C E peer h s p a \<noteq> None"
  using assms
  by (auto simp: logout_def issue_ticket_def accounts_change_password_def store_password_def session_key_def Let_def
      split: option.splits prod.splits result.splits payload.splits)

lemma own_guarded:
  assumes "session_key C (rq_headers rq) \<noteq> None"
  shows "own (body (fst (exec_guarded F C E H rq g ps s st)))"
  by (cases g) (auto intro!: own_extract own_or_panic no_panic [OF assms] split: list.splits option.splits)

lemma socket_answers:
  obtains r :: "(digest, content response) result" and a' where
    "open_socket C E h q a = Some (r, a')" and "case r of Ok _ \<Rightarrow> True | Err e \<Rightarrow> own (body e)"
proof -
  obtain r :: "(digest, content response) result" and a' where eq: "open_socket C E h q a = Some (r, a')"
    using open_socket_cases [of C E h q a] by blast
  moreover from eq have "case r of Ok _ \<Rightarrow> True | Err e \<Rightarrow> own (body e)"
    by (auto simp: open_socket_def unauthorized_def lookup_failed_def error_response_def respond_def Let_def
        split: prod.splits result.splits option.splits if_splits)
  ultimately show ?thesis by (rule that)
qed

lemma own_with_socket:
  assumes "\<And>q. \<exists>u st'. run q st = Some (u, st') \<and> own (body (upgraded u))"
  shows "own (body (fst (with_socket F rq run st)))"
  using assms by (auto simp: with_socket_def split: option.splits) (metis option.inject option.discI prod.inject)+

lemma own_open: "own (body (fst (exec_open F C E H rq h ps st)))"
proof -
  obtain a k where st: "st = (a, k)" by fastforce
  have ws: "own (body (fst (exec_open F C E H rq WsEvents ps st)))"
    unfolding exec_open.simps
  proof (rule own_with_socket)
    fix q
    obtain r :: "(digest, content response) result" and a' where
        "open_socket C E (rq_headers rq) q a = Some (r, a')" "case r of Ok _ \<Rightarrow> True | Err e \<Rightarrow> own (body e)"
      by (rule socket_answers)
    then show "\<exists>u st'. (\<lambda>(a, k). map_option (\<lambda>(u, a). (u, a, k)) (ws_events C E (rq_headers rq) q a)) st = Some (u, st') \<and>
        own (body (upgraded u))"
      by (cases r) (auto simp: st ws_events_def upgraded_def respond_def)
  qed
  have "\<exists>u st'. vnc C E H (fw_pair_failed F) (fw_socket_failed F) i (rq_headers rq) q st = Some (u, st') \<and> own (body (upgraded u))" for i q
  proof -
    obtain r :: "(digest, content response) result" and a' where
        "open_socket C E (rq_headers rq) q a = Some (r, a')" "case r of Ok _ \<Rightarrow> True | Err e \<Rightarrow> own (body e)"
      by (rule socket_answers)
    then show ?thesis
      by (cases r) (auto simp: st vnc_def upgraded_def respond_def split: option.splits prod.splits result.splits)
  qed
  then have con: "own (body (fst (with_socket F rq (\<lambda>q. vnc C E H (fw_pair_failed F) (fw_socket_failed F) i (rq_headers rq) q) st)))" for i
    by (rule own_with_socket)
  show ?thesis
    by (cases h) (use ws con in \<open>auto simp: with_uuid_def split: list.splits option.splits\<close>)
qed

text \<open>A path that matches a route is answered by that route, never by the web UI, and no answer is a panic.\<close>

lemma dispatch_own:
  assumes "fw_match F (map fst routes) (rq_path rq) \<noteq> None"
  shows "own (body (fst (dispatch F C E H (exec_guarded F C E H rq) rq st)))"
proof -
  obtain a k where st: "st = (a, k)" by fastforce
  have guard: "own (body (fst (require_session C E (rq_method rq) (rq_headers rq) (exec_guarded F C E H rq g ps) st)))" for g ps
  proof (cases "lookup C E (rq_headers rq) a")
    case (Pair r a1)
    have "session_key C (rq_headers rq) \<noteq> None" if "r = Ok (Some s)" for s
      using lookup_Some Pair that by (fastforce simp: looked_up_def bind_eq_Some_conv)
    with Pair show ?thesis
      by (auto intro!: own_guarded simp: st require_session_def unauthorized_def lookup_failed_def error_response_def respond_def
          split: result.splits option.splits)
  qed
  have strip: "own (body (fst (without_body b x)))" if "own (body (fst x))" for b and x :: "content response \<times> 'a site"
    using that by (simp add: without_body_def)
  from assms show ?thesis
    by (auto simp: dispatch_def st respond_def intro!: strip own_open guard [unfolded st] split: option.splits prod.splits handler.splits)
qed

section \<open>Which route a path reaches\<close>

text \<open>
  The documented matching of axum, on the segments of a path: a parameter takes one segment that is not empty, a catch-all the whole
  rest if it is not empty; a static segment wins over a parameter, and both over a catch-all.
\<close>

fun path_fits :: "pattern \<Rightarrow> ustr list \<Rightarrow> ustr list option" where
  "path_fits [] [] = Some []"
| "path_fits [CatchAll] (p # ps) = (if join [47] (p # ps) = [] then None else Some [join [47] (p # ps)])"
| "path_fits (Static s # pat) (p # ps) = (if p = lit s then path_fits pat ps else None)"
| "path_fits (Param # pat) (p # ps) = (if p = [] then None else map_option (Cons p) (path_fits pat ps))"
| "path_fits _ _ = None"

fun segments :: "ustr \<Rightarrow> ustr list" where
  "segments (c # path) = (if c = 47 then split_on 47 path else [])"
| "segments [] = []"

fun preferred :: "pattern \<Rightarrow> pattern \<Rightarrow> bool" where
  "preferred (Static _ # p) (Static _ # q) = preferred p q"
| "preferred (Param # p) (Param # q) = preferred p q"
| "preferred (Static _ # _) (Param # _) = True"
| "preferred (Static _ # _) (CatchAll # _) = True"
| "preferred (Param # _) (CatchAll # _) = True"
| "preferred _ _ = False"

definition matching_laws :: "(pattern list \<Rightarrow> ustr \<Rightarrow> (pattern \<times> ustr list) option) \<Rightarrow> bool" where
  "matching_laws m \<longleftrightarrow> (\<forall>pats path.
     case m pats path of
       None \<Rightarrow> \<forall>q\<in>set pats. path_fits q (segments path) = None
     | Some (pat, ps) \<Rightarrow> pat \<in> set pats \<and> path_fits pat (segments path) = Some ps \<and>
         (\<forall>q\<in>set pats. path_fits q (segments path) \<noteq> None \<longrightarrow> \<not> preferred q pat))"

text \<open>Two patterns that no path fits both.\<close>

fun apart :: "pattern \<Rightarrow> pattern \<Rightarrow> bool" where
  "apart [] q = (q \<noteq> [])"
| "apart p [] = (p \<noteq> [])"
| "apart (CatchAll # _) _ = False"
| "apart _ (CatchAll # _) = False"
| "apart (Static s # p) (Static t # q) = (s \<noteq> t \<or> apart p q)"
| "apart (_ # p) (_ # q) = apart p q"

lemma fits_length: "path_fits p [] \<noteq> None \<longleftrightarrow> p = []"
  by (cases p) (auto elim: path_fits.elims)

lemma apart_fits: "apart p q \<Longrightarrow> path_fits p segs \<noteq> None \<Longrightarrow> path_fits q segs = None"
proof (induction p q arbitrary: segs rule: apart.induct)
  case (1 q)
  then show ?case by (cases segs; cases q) auto
next
  case (2 v va)
  then show ?case by (cases segs) (use fits_length in auto)
qed (case_tac segs; fastforce split: if_splits)+

definition reserved_pattern :: "pattern \<Rightarrow> bool" where
  "reserved_pattern p \<longleftrightarrow> map_of routes p = Some (AnyMethod Reserved)"

lemma routes_distinct: "distinct (map fst routes)"
  by code_simp

lemma routes_apart:
  "list_all (\<lambda>p. reserved_pattern p \<or> list_all (\<lambda>q. q = p \<or> apart p q \<or> preferred p q) (map fst routes)) (map fst routes)"
  by code_simp

lemma matchingD:
  assumes "matching_laws m"
  shows "case m pats path of
       None \<Rightarrow> \<forall>q\<in>set pats. path_fits q (segments path) = None
     | Some (pat, ps) \<Rightarrow> pat \<in> set pats \<and> path_fits pat (segments path) = Some ps \<and>
         (\<forall>q\<in>set pats. path_fits q (segments path) \<noteq> None \<longrightarrow> \<not> preferred q pat)"
  using assms unfolding matching_laws_def by blast

lemma reaches:
  assumes "matching_laws m" and p: "p \<in> set (map fst routes)" "\<not> reserved_pattern p" and fit: "path_fits p (segments path) = Some ps"
  shows "m (map fst routes) path = Some (p, ps)"
proof -
  note law = matchingD [OF assms(1), of "map fst routes" path]
  obtain q qs where q: "m (map fst routes) path = Some (q, qs)"
    using law p(1) fit by (cases "m (map fst routes) path") auto
  with law have fq: "q \<in> set (map fst routes)" "path_fits q (segments path) = Some qs" "\<not> preferred p q"
    using p(1) fit by auto
  have "q = p \<or> apart p q \<or> preferred p q"
    using routes_apart p fq(1) by (simp only: list_all_iff) blast
  with fq fit apart_fits [of p q "segments path"] have "q = p" by auto
  with q fq fit show ?thesis by simp
qed

text \<open>A matcher with these laws.\<close>

fun best :: "pattern list \<Rightarrow> pattern option" where
  "best [] = None"
| "best (p # ps) = (case best ps of None \<Rightarrow> Some p | Some q \<Rightarrow> Some (if preferred p q then p else q))"

definition match_best :: "pattern list \<Rightarrow> ustr \<Rightarrow> (pattern \<times> ustr list) option" where
  "match_best pats path =
     map_option (\<lambda>p. (p, the (path_fits p (segments path)))) (best (filter (\<lambda>p. path_fits p (segments path) \<noteq> None) pats))"

lemma preferred_irrefl [simp]: "\<not> preferred p p"
  by (induction p) (auto elim: preferred.elims)

lemma preferred_trans: "preferred p q \<Longrightarrow> preferred q r \<Longrightarrow> preferred p r"
  by (induction p q arbitrary: r rule: preferred.induct; case_tac r; case_tac "hd r"; simp)

lemma best_sound:
  "case best ps of None \<Rightarrow> ps = [] | Some p \<Rightarrow> p \<in> set ps \<and> (\<forall>q\<in>set ps. \<not> preferred q p)"
  by (induction ps) (auto split: option.splits dest: preferred_trans)

lemma match_best_laws: "matching_laws match_best"
proof -
  have "case match_best pats path of
       None \<Rightarrow> \<forall>q\<in>set pats. path_fits q (segments path) = None
     | Some (pat, ps) \<Rightarrow> pat \<in> set pats \<and> path_fits pat (segments path) = Some ps \<and>
         (\<forall>q\<in>set pats. path_fits q (segments path) \<noteq> None \<longrightarrow> \<not> preferred q pat)" for pats path
    using best_sound [of "filter (\<lambda>p. path_fits p (segments path) \<noteq> None) pats"]
    by (auto simp: match_best_def filter_empty_conv split: option.splits)
  then show ?thesis by (simp add: matching_laws_def)
qed

section \<open>Properties\<close>

lemma layers_cong:
  "dispatch F C E H X rq st = dispatch F C E H Y rq st \<Longrightarrow> router_with F C E H X rq st = router_with F C E H Y rq st"
  by (simp add: router_with_def add_headers_def require_same_origin_def)

lemma router_status_state:
  "own (body (fst (dispatch F C E H (exec_guarded F C E H rq) rq st))) \<Longrightarrow> own (body (fst (router F C E H rq st)))"
  "dispatch F C E H (exec_guarded F C E H rq) rq st = (reserved, st) \<Longrightarrow>
     status (fst (router F C E H rq st)) \<in> {403, 404} \<and> snd (router F C E H rq st) = st"
  by (simp_all add: router_def router_with_def add_headers_get require_same_origin_def error_response_def respond_def reserved_def)

lemma router_not_admitted:
  assumes "\<not> admitted C E rq a"
  shows "snd (snd (router F C E H rq (a, k))) = k" and "router F C E H rq (a, k) = router_with F C E H X rq (a, k)"
proof -
  show "snd (snd (router F C E H rq (a, k))) = k"
    by (simp add: dispatch_not_admitted [OF assms, THEN conjunct1] router_def router_with_def add_headers_get require_same_origin_def)
  show "router F C E H rq (a, k) = router_with F C E H X rq (a, k)"
    unfolding router_def by (intro layers_cong dispatch_not_admitted [OF assms, THEN conjunct2])
qed

text \<open>
  C1: Every handler of the API that is not meant to be open sits behind the guard. A request whose cookie names no session that is live at that
  moment, or that changes state without that session's token, makes no libvirt call: the connection
  is as it was. Nothing of the protected handlers runs for it: the answer and the state are the
  same whatever those handlers do. This holds for every path and method, for the console socket too, and for any behaviour of the web framework.
\<close>

theorem router_needs_session:
  "admitted C E rq a \<or>
   snd (snd (router F C E H rq (a, k))) = k \<and>
   (\<forall>guarded. router F C E H rq (a, k) = router_with F C E H guarded rq (a, k))"
  using router_not_admitted by blast

text \<open>
  C2: Every response, also an error, a file of the web UI and a refusal, carries the Content-Security-Policy, \<^verbatim>\<open>nosniff\<close> and the referrer
  policy, and HSTS when Lodger serves TLS itself. A request that changes state and does not come from a Lodger page
  is answered 403 before anything looks at it: no path, handler or session plays a role and
  the state is untouched.
\<close>

theorem router_outer_layers:
  "(let r = fst (router F C E H rq st) in
     hm_get (resp_headers r) ''content-security-policy'' = Some (csp_value C) \<and>
     hm_get (resp_headers r) ''x-content-type-options'' = Some (lit ''nosniff'') \<and>
     hm_get (resp_headers r) ''referrer-policy'' = Some (lit ''no-referrer'') \<and>
     (if hsts C then hm_get (resp_headers r) ''strict-transport-security'' = Some (lit ''max-age=31536000'') else True)) \<and>
   (if is_safe (rq_method rq) \<or> from_lodger (rq_headers rq) (public_origin C) then True
    else status (fst (router F C E H rq st)) = 403 \<and> snd (router F C E H rq st) = st)"
  by (simp add: router_def router_with_def add_headers_get Let_def)
    (simp add: require_same_origin_def error_response_def respond_def)

text \<open>
  No request makes a handler panic: each \<^verbatim>\<open>expect\<close> on the session's cookie is reached only when there is one.
\<close>

theorem router_never_panics:
  "body (fst (router F C E H rq st)) \<noteq> Content Panicked"
proof (cases "fw_match F (map fst routes) (rq_path rq)")
  case None
  have "body (web_ui F rq) \<noteq> Content Panicked"
    by (cases "body (asset_respond (fw_header_value F) (fw_assets F) (rq_method rq) (rq_path rq) (rq_headers rq))")
      (simp_all add: web_ui_def into_def)
  with None show ?thesis
    by (auto simp: router_def router_with_def add_headers_get require_same_origin_def dispatch_def error_response_def respond_def)
next
  case (Some x)
  then have "own (body (fst (dispatch F C E H (exec_guarded F C E H rq) rq st)))"
    by (simp add: dispatch_own)
  then show ?thesis
    by (auto simp: router_def router_with_def add_headers_get require_same_origin_def error_response_def respond_def)
qed

text \<open>
  A request for a path and method of the table reaches its handler, behind the guard if the handler is protected. The reserved
  catch-all routes do not shadow a route, and no two routes compete for a path.
\<close>

theorem routes_are_reached:
  assumes "matching_laws (fw_match F)" and "map_of routes pat = Some (Methods ms)"
    and "path_fits pat (segments (rq_path rq)) = Some ps" and "map_of ms (rq_method rq) = Some h"
  shows "dispatch F C E H guarded rq st =
    (case h of
       Guarded g \<Rightarrow> require_session C E (rq_method rq) (rq_headers rq) (guarded g ps) st
     | Open g \<Rightarrow> exec_open F C E H rq g ps st
     | Reserved \<Rightarrow> (reserved, st))"
proof -
  have "pat \<in> set (map fst routes)" "\<not> reserved_pattern pat"
    using assms(2) by (auto simp: reserved_pattern_def image_iff dest!: map_of_SomeD intro: rev_bexI)
  from reaches [OF assms(1) this assms(3)] assms(2,4) show ?thesis
    by (simp add: dispatch_def handler_for_def without_body_def)
qed

text \<open>
  A path under \<^verbatim>\<open>/api\<close> or \<^verbatim>\<open>/ws\<close> never falls through to the web UI: the answer is Lodger's own, and it is 404 with
  the state untouched, or the refusal of a foreign request, if no route but the reserved ones fits.
\<close>

theorem api_paths_never_web_ui:
  assumes "matching_laws (fw_match F)"
    and "segments (rq_path rq) = lit p # rest" and "p \<in> {''api'', ''ws''}" and "rest \<noteq> [[]]"
  shows "own (body (fst (router F C E H rq st))) \<and>
    (if \<exists>pat\<in>set (map fst routes). \<not> reserved_pattern pat \<and> path_fits pat (segments (rq_path rq)) \<noteq> None then True
     else status (fst (router F C E H rq st)) \<in> {403, 404} \<and> snd (router F C E H rq st) = st)"
proof -
  have "list_all (\<lambda>q. q \<in> set (map fst routes)) [api [], api [CatchAll], [Static ''ws''], [Static ''ws'', CatchAll]]"
    by code_simp
  then have table: "[Static p] \<in> set (map fst routes)" "[Static p, CatchAll] \<in> set (map fst routes)"
    using assms(3) by (auto simp: api_def)
  have "path_fits [Static p] (segments (rq_path rq)) \<noteq> None \<or> path_fits [Static p, CatchAll] (segments (rq_path rq)) \<noteq> None"
    using assms(2,4) by (cases rest; cases "tl rest") auto
  moreover note law = matchingD [OF assms(1), of "map fst routes" "rq_path rq"]
  ultimately obtain pat ps where m: "fw_match F (map fst routes) (rq_path rq) = Some (pat, ps)"
    using table by (cases "fw_match F (map fst routes) (rq_path rq)") auto
  have "dispatch F C E H (exec_guarded F C E H rq) rq st = (reserved, st)" if "reserved_pattern pat"
    using that m by (simp add: dispatch_def reserved_pattern_def handler_for_def without_body_def)
  then have "status (fst (router F C E H rq st)) \<in> {403, 404} \<and> snd (router F C E H rq st) = st" if "reserved_pattern pat"
    using that by (intro router_status_state(2))
  moreover have "own (body (fst (router F C E H rq st)))"
    using m by (intro router_status_state(1) dispatch_own) simp
  ultimately show ?thesis using law m by auto
qed

text \<open>\<^verbatim>\<open>/api/\<close> and \<^verbatim>\<open>/ws/\<close> fit no route, so the web UI answers them.\<close>

theorem api_slash_is_web_ui:
  assumes "matching_laws (fw_match F)" and "rq_path rq \<in> {lit ''/api/'', lit ''/ws/''}"
  shows "dispatch F C E H guarded rq st = (web_ui F rq, st)"
proof -
  have "segments (rq_path rq) \<in> {[lit ''api'', []], [lit ''ws'', []]}"
    using assms(2) by (auto simp: lit_def)
  moreover have "list_all (\<lambda>q. path_fits q [lit ''api'', []] = None \<and> path_fits q [lit ''ws'', []] = None) (map fst routes)"
    by code_simp
  ultimately have "path_fits q (segments (rq_path rq)) = None" if "q \<in> set (map fst routes)" for q
    using that by (auto simp: list_all_iff)
  moreover note matchingD [OF assms(1), of "map fst routes" "rq_path rq"]
  ultimately have "fw_match F (map fst routes) (rq_path rq) = None"
    by (cases "fw_match F (map fst routes) (rq_path rq)") (auto, force)
  then show ?thesis by (simp add: dispatch_def)
qed

subsection \<open>Witnesses\<close>

definition example_framework :: "unit framework" where
  "example_framework = \<lparr>fw_match = match_best, fw_reject = (\<lambda>_. 400), fw_no_method = (\<lambda>_ a. (405, a)),
     fw_uuid = (\<lambda>_. None), fw_i64 = (\<lambda>_. None), fw_text = Some, fw_bytes = (\<lambda>_. Some []), fw_upgrade = (\<lambda>_. False),
     fw_ticket = (\<lambda>_. Some None), js_login = (\<lambda>_. Rejected 415), js_claim = (\<lambda>_. Rejected 415),
     js_account = (\<lambda>_. Rejected 415), js_password = (\<lambda>_. Rejected 415), js_confirm = (\<lambda>_. Err []), js_delete = (\<lambda>_. Err []),
     js_settings = (\<lambda>_. Err []), js_pool = (\<lambda>_. Err []), js_pool_change = (\<lambda>_. Err []), js_pool_removal = (\<lambda>_. Err []),
     js_network = (\<lambda>_. Err []), js_network_change = (\<lambda>_. Err []), js_network_removal = (\<lambda>_. Err []), js_volume = (\<lambda>_. Err []),
     fw_node = (\<lambda>_ w. (Ok (1, 1), w)), fw_version = (\<lambda>_ w. (Ok 1, w)), fw_pair_failed = None, fw_socket_failed = None,
     fw_header_value = (\<lambda>_. True), fw_assets = (\<lambda>_. None)\<rparr>"

definition example_get :: "string \<Rightarrow> request" where
  "example_get path = \<lparr>rq_method = GET, rq_path = lit path, rq_headers = with_cookie [7], rq_peer = V4 1\<rparr>"

lemma example_laws: "matching_laws (fw_match example_framework)"
  by (simp add: example_framework_def match_best_laws)

theorem routes_are_reached_witness:
  "\<forall>C E H guarded st. dispatch example_framework C E H guarded (example_get ''/api/vms/9'') st =
     require_session C E GET (with_cookie [7]) (guarded ApiVm [lit ''9'']) st"
proof -
  have "map_of routes (api [Static ''vms'', Param]) =
      Some (Methods [(GET, Guarded ApiVm), (DELETE, Guarded ActionsDelete), (PATCH, Guarded ActionsUpdate)])"
    by code_simp
  moreover have "path_fits (api [Static ''vms'', Param]) (segments (rq_path (example_get ''/api/vms/9''))) = Some [lit ''9'']"
    by code_simp
  ultimately show ?thesis
    using routes_are_reached [OF example_laws, of "api [Static ''vms'', Param]" _ "example_get ''/api/vms/9''" "[lit ''9'']" "Guarded ApiVm"]
    by (simp add: example_get_def)
qed

theorem api_paths_never_web_ui_witness:
  "\<forall>st. own (body (fst (router example_framework example_conf (quiet_env 5) empty_host (example_get ''/api/nope'') st))) \<and>
     snd (router example_framework example_conf (quiet_env 5) empty_host (example_get ''/api/nope'') st) = st"
proof -
  have seg: "segments (rq_path (example_get ''/api/nope'')) = lit ''api'' # [lit ''nope'']"
    by code_simp
  have "list_all (\<lambda>pat. reserved_pattern pat \<or> path_fits pat (segments (rq_path (example_get ''/api/nope''))) = None) (map fst routes)"
    by code_simp
  then have "\<not> (\<exists>pat\<in>set (map fst routes). \<not> reserved_pattern pat \<and> path_fits pat (segments (rq_path (example_get ''/api/nope''))) \<noteq> None)"
    by (auto simp: list_all_iff)
  with api_paths_never_web_ui [OF example_laws seg] show ?thesis by simp
qed

end
