(* ===== verification/Config.thy ===== *)
theory Config
  imports Security
begin

text \<open>
  \<^verbatim>\<open>lodger/src/config.rs\<close>, with the defaults of \<^verbatim>\<open>lodger/src/cli.rs\<close>: the operator's settings. The file system is the argument
  \<open>read_file\<close> and the TOML parser, which refuses unknown keys, the argument \<open>toml\<close>.
\<close>

section \<open>Model\<close>

record SocketAddr =
  sa_ip :: ipaddr
  sa_port :: nat

text \<open>\<^verbatim>\<open>IpAddr::is_loopback\<close>: \<^verbatim>\<open>127.0.0.0/8\<close> or \<^verbatim>\<open>::1\<close>.\<close>

fun is_loopback :: "ipaddr \<Rightarrow> bool" where
  "is_loopback (V4 w) = (drop_bit 24 w = 127)"
| "is_loopback (V6 w) = (w = 1)"

text \<open>\<^verbatim>\<open>127.0.0.1:8460\<close>.\<close>

definition DEFAULT_LISTEN :: SocketAddr where
  "DEFAULT_LISTEN = \<lparr>sa_ip = V4 0x7F000001, sa_port = 8460\<rparr>"

definition DEFAULT_URI :: string where
  "DEFAULT_URI = ''qemu:///system''"

definition DEFAULT_CONFIG :: string where
  "DEFAULT_CONFIG = ''/etc/lodger/config.toml''"

definition DEFAULT_STATE_DIR :: string where
  "DEFAULT_STATE_DIR = ''/var/lib/lodger''"

record config_file =
  f_listen :: "SocketAddr option"
  f_uri :: "ustr option"
  f_state_dir :: "ustr option"
  f_public_url :: "ustr option"
  f_trusted_proxies :: "(ipaddr \<Rightarrow> bool) list"
  f_tls_cert :: "ustr option"
  f_tls_key :: "ustr option"
  f_allow_plain_http :: bool

definition config_file_default :: config_file where
  "config_file_default =
     \<lparr>f_listen = None, f_uri = None, f_state_dir = None, f_public_url = None, f_trusted_proxies = [],
      f_tls_cert = None, f_tls_key = None, f_allow_plain_http = False\<rparr>"

record TlsFiles =
  tls_cert :: ustr
  tls_key :: ustr

record Config =
  cfg_listen :: SocketAddr
  cfg_uri :: ustr
  cfg_state_dir :: ustr
  cfg_public_url :: "ustr option"
  cfg_trusted_proxies :: "(ipaddr \<Rightarrow> bool) list"
  cfg_tls :: "TlsFiles option"
  cfg_allow_plain_http :: bool

record Overrides =
  o_config :: "ustr option"
  o_listen :: "SocketAddr option"
  o_uri :: "ustr option"
  o_state_dir :: "ustr option"

datatype io_error = FileMissing | OtherIo ustr

datatype ConfigError =
    CannotRead ustr io_error
  | BadToml ustr ustr
  | BadPublicUrl OriginError
  | HalfTls

type_synonym read_file = "ustr \<Rightarrow> (ustr, io_error) result"
type_synonym toml = "ustr \<Rightarrow> (config_file, ustr) result"

definition config_parse :: "toml \<Rightarrow> ustr \<Rightarrow> ustr \<Rightarrow> (config_file, ConfigError) result" where
  "config_parse toml path text = map_err (BadToml path) (toml text)"

definition config_read :: "read_file \<Rightarrow> toml \<Rightarrow> ustr \<Rightarrow> (config_file, ConfigError) result" where
  "config_read read_file toml path =
     and_then (map_err (CannotRead path) (read_file path)) (config_parse toml path)"

definition or_else :: "'a option \<Rightarrow> 'a option \<Rightarrow> 'a option" where
  "or_else x y = (case x of Some _ \<Rightarrow> x | None \<Rightarrow> y)"

definition unwrap_or :: "'a \<Rightarrow> 'a option \<Rightarrow> 'a" where
  "unwrap_or d x = (case x of Some v \<Rightarrow> v | None \<Rightarrow> d)"

text \<open>The file with the settings: the one that \<^verbatim>\<open>--config\<close> names, or the default file, which may be missing.\<close>

definition config_settings :: "read_file \<Rightarrow> toml \<Rightarrow> ustr option \<Rightarrow> ustr \<Rightarrow> (config_file, ConfigError) result" where
  "config_settings read_file toml named default_config =
     (case named of
        Some path \<Rightarrow> config_read read_file toml path
      | None \<Rightarrow>
          (case read_file default_config of
             Ok text \<Rightarrow> config_parse toml default_config text
           | Err FileMissing \<Rightarrow> Ok config_file_default
           | Err e \<Rightarrow> Err (CannotRead default_config e)))"

definition config_public_url :: "(ustr \<Rightarrow> uri option) \<Rightarrow> ustr option \<Rightarrow> (ustr option, ConfigError) result" where
  "config_public_url parse_uri url =
     (case url of
        None \<Rightarrow> Ok None
      | Some u \<Rightarrow> map_err BadPublicUrl (map_ok Some (origin_of parse_uri u)))"

definition config_tls :: "ustr option \<Rightarrow> ustr option \<Rightarrow> (TlsFiles option, ConfigError) result" where
  "config_tls cert key =
     (case (cert, key) of
        (Some c, Some k) \<Rightarrow> Ok (Some \<lparr>tls_cert = c, tls_key = k\<rparr>)
      | (None, None) \<Rightarrow> Ok None
      | _ \<Rightarrow> Err HalfTls)"

definition config_load_with_default ::
    "read_file \<Rightarrow> toml \<Rightarrow> (ustr \<Rightarrow> uri option) \<Rightarrow> Overrides \<Rightarrow> ustr option \<Rightarrow> ustr \<Rightarrow> (Config, ConfigError) result" where
  "config_load_with_default read_file toml parse_uri overrides state_directory_env default_config =
     and_then (config_settings read_file toml (o_config overrides) default_config) (\<lambda>f.
     and_then (config_public_url parse_uri (f_public_url f)) (\<lambda>public_url.
     and_then (config_tls (f_tls_cert f) (f_tls_key f)) (\<lambda>tls.
       Ok \<lparr>cfg_listen = unwrap_or DEFAULT_LISTEN (or_else (o_listen overrides) (f_listen f)),
           cfg_uri = unwrap_or (lit DEFAULT_URI) (or_else (o_uri overrides) (f_uri f)),
           cfg_state_dir = unwrap_or (lit DEFAULT_STATE_DIR)
             (or_else (or_else (o_state_dir overrides) (f_state_dir f))
               (map_option (\<lambda>v. hd (split_on 58 v)) state_directory_env)),
           cfg_public_url = public_url,
           cfg_trusted_proxies = f_trusted_proxies f,
           cfg_tls = tls,
           cfg_allow_plain_http = f_allow_plain_http f\<rparr>)))"

definition config_load ::
    "read_file \<Rightarrow> toml \<Rightarrow> (ustr \<Rightarrow> uri option) \<Rightarrow> Overrides \<Rightarrow> ustr option \<Rightarrow> (Config, ConfigError) result" where
  "config_load read_file toml parse_uri overrides state_directory_env =
     config_load_with_default read_file toml parse_uri overrides state_directory_env (lit DEFAULT_CONFIG)"

text \<open>The error of \<^verbatim>\<open>check_plain_http\<close> names the address.\<close>

definition check_plain_http :: "Config \<Rightarrow> (unit, SocketAddr) result" where
  "check_plain_http c =
     (if is_loopback (sa_ip (cfg_listen c)) \<or> cfg_tls c \<noteq> None \<or> cfg_trusted_proxies c \<noteq> [] \<or> cfg_allow_plain_http c
      then Ok () else Err (cfg_listen c))"

definition plain_http_by_opt_in :: "Config \<Rightarrow> bool" where
  "plain_http_by_opt_in c \<longleftrightarrow>
     cfg_allow_plain_http c \<and> \<not> is_loopback (sa_ip (cfg_listen c)) \<and> cfg_tls c = None \<and> cfg_trusted_proxies c = []"

section \<open>Properties\<close>

lemma config_tls_Ok:
  "config_tls cert key = Ok t \<longleftrightarrow> (cert = None \<and> key = None \<and> t = None) \<or>
     (\<exists>c k. cert = Some c \<and> key = Some k \<and> t = Some \<lparr>tls_cert = c, tls_key = k\<rparr>)"
  by (auto simp: config_tls_def split: option.splits)

text \<open>
  The configuration fails safe. The file that is named, or the default file unless it does not exist, is read and parsed in
  full, or the start stops with an error: there is no way to run with some of its settings left out. TLS is on exactly
  if the file names both a certificate and a key, and half a pair is an error. A flag wins over the file, the file
  over the default, and without either Lodger listens on loopback. A public URL is stored as a checked
  origin in lower case.
\<close>

theorem config_fails_safe:
  assumes "config_load read_file toml parse_uri overrides state_env = Ok c"
  shows "\<exists>f. (case o_config overrides of
        Some path \<Rightarrow> \<exists>text. read_file path = Ok text \<and> toml text = Ok f
      | None \<Rightarrow> (\<exists>text. read_file (lit DEFAULT_CONFIG) = Ok text \<and> toml text = Ok f) \<or>
          read_file (lit DEFAULT_CONFIG) = Err FileMissing \<and> f = config_file_default) \<and>
    (cfg_tls c = None \<longleftrightarrow> f_tls_cert f = None \<and> f_tls_key f = None) \<and>
    (cfg_tls c \<noteq> None \<longleftrightarrow> f_tls_cert f \<noteq> None \<and> f_tls_key f \<noteq> None) \<and>
    (o_listen overrides = None \<and> f_listen f = None \<longrightarrow> is_loopback (sa_ip (cfg_listen c))) \<and>
    (\<forall>l. o_listen overrides = Some l \<longrightarrow> cfg_listen c = l) \<and>
    cfg_trusted_proxies c = f_trusted_proxies f \<and> cfg_allow_plain_http c = f_allow_plain_http f \<and>
    (\<forall>origin. cfg_public_url c = Some origin \<longrightarrow> to_ascii_lowercase origin = origin) \<and>
    (cfg_public_url c = None \<longleftrightarrow> f_public_url f = None)"
proof -
  obtain f u t where f: "config_settings read_file toml (o_config overrides) (lit DEFAULT_CONFIG) = Ok f"
      and u: "config_public_url parse_uri (f_public_url f) = Ok u" and t: "config_tls (f_tls_cert f) (f_tls_key f) = Ok t"
      and c: "cfg_tls c = t" "cfg_public_url c = u" "cfg_trusted_proxies c = f_trusted_proxies f"
        "cfg_allow_plain_http c = f_allow_plain_http f"
        "cfg_listen c = unwrap_or DEFAULT_LISTEN (or_else (o_listen overrides) (f_listen f))"
    using assms by (auto simp: config_load_def config_load_with_default_def result_simps)
  have "is_loopback (sa_ip DEFAULT_LISTEN)"
    by (simp add: DEFAULT_LISTEN_def)
  moreover have "case o_config overrides of
        Some path \<Rightarrow> \<exists>text. read_file path = Ok text \<and> toml text = Ok f
      | None \<Rightarrow> (\<exists>text. read_file (lit DEFAULT_CONFIG) = Ok text \<and> toml text = Ok f) \<or>
          read_file (lit DEFAULT_CONFIG) = Err FileMissing \<and> f = config_file_default"
    using f by (auto simp: config_settings_def config_read_def config_parse_def result_simps
        split: option.splits result.splits io_error.splits)
  moreover have "to_ascii_lowercase origin = origin" if "u = Some origin" for origin
    using u that origin_lower by (auto simp: config_public_url_def result_simps split: option.splits)
  moreover have "u = None \<longleftrightarrow> f_public_url f = None"
    using u by (auto simp: config_public_url_def result_simps split: option.splits)
  ultimately show ?thesis
    using t by (intro exI [of _ f]) (auto simp: c config_tls_Ok or_else_def unwrap_or_def)
qed

theorem config_fails_safe_witness:
  "\<exists>c. config_load (\<lambda>_. Err FileMissing) (\<lambda>_. Err []) (\<lambda>_. None) \<lparr>o_config = None, o_listen = None, o_uri = None, o_state_dir = None\<rparr> None = Ok c \<and>
     cfg_tls c = None \<and> is_loopback (sa_ip (cfg_listen c))"
proof -
  let ?o = "\<lparr>o_config = None, o_listen = None, o_uri = None, o_state_dir = None\<rparr>"
  obtain c where c: "config_load (\<lambda>_. Err FileMissing) (\<lambda>_. Err []) (\<lambda>_. None) ?o None = Ok c"
    by (simp add: config_load_def config_load_with_default_def config_settings_def config_file_default_def config_public_url_def config_tls_def)
  from config_fails_safe [OF c] c show ?thesis
    by (auto simp: config_file_default_def)
qed

end
