(* ===== verification/Admin.thy ===== *)
theory Admin
  imports Config Setup Accounts
begin

text \<open>
  \<^verbatim>\<open>lodger/src/admin.rs\<close>: account recovery from the command line. The command runs beside the service, so each access to the
  database comes after what the service did to it, as in theory \<open>Service\<close>. What the terminal, the file
  system and \<^verbatim>\<open>/proc/self/status\<close> give are arguments.
\<close>

section \<open>Strings\<close>

text \<open>\<^verbatim>\<open>str::lines\<close>, without the empty line after a last line end, which no caller sees.\<close>

definition str_lines :: "ustr \<Rightarrow> ustr list" where
  "str_lines s = map (\<lambda>l. if ends_with [13] l then butlast l else l) (split_on 10 s)"

fun split_by :: "('a \<Rightarrow> bool) \<Rightarrow> 'a list \<Rightarrow> 'a list list" where
  "split_by P [] = [[]]"
| "split_by P (x # xs) =
     (if P x then [] # split_by P xs
      else case split_by P xs of [] \<Rightarrow> [[x]] | p # ps \<Rightarrow> (x # p) # ps)"

definition split_whitespace :: "ustr \<Rightarrow> ustr list" where
  "split_whitespace s = filter (\<lambda>p. p \<noteq> []) (split_by is_whitespace s)"

section \<open>Model\<close>

datatype AdminError =
    NotRoot string
  | AdminConfig ConfigError
  | NoDatabase ustr
  | AdminRuntime ustr
  | OpenFailed ustr
  | DbFailed SqlError
  | BadUsername InputError
  | NoAccountCalled ustr
  | AccountExists ustr
  | CannotReadPassword ustr
  | PasswordsDiffer
  | WeakPassword PasswordError
  | CannotHash ustr

datatype AdminAction = ResetPassword ustr | Create ustr

datatype admin_done = PasswordSet ustr nat | CreatedAccount ustr

definition effective_uid :: "ustr \<Rightarrow> nat option" where
  "effective_uid status_text =
     (case List.map_filter (strip_prefix (lit ''Uid:'')) (str_lines status_text) of
        [] \<Rightarrow> None
      | ids # _ \<Rightarrow>
          (case split_whitespace ids of
             _ # uid # _ \<Rightarrow> parse_uint (2 ^ 32 - 1) uid
           | _ \<Rightarrow> None))"

definition require_root :: "(ustr, io_error) result \<Rightarrow> string \<Rightarrow> (unit, AdminError) result" where
  "require_root status_file command =
     (if Option.bind (ok status_file) effective_uid = Some 0 then Ok () else Err (NotRoot command))"

text \<open>What the user types: at a terminal two prompts, otherwise one line of stdin.\<close>

datatype password_source =
    Terminal "(ustr, ustr) result" "(ustr, ustr) result"
  | Piped "(ustr, ustr) result"

definition read_password :: "password_source \<Rightarrow> (ustr, AdminError) result" where
  "read_password src =
     (case src of
        Terminal first second \<Rightarrow>
          and_then (map_err CannotReadPassword first) (\<lambda>p1.
          and_then (map_err CannotReadPassword second) (\<lambda>p2.
            if p1 \<noteq> p2 then Err PasswordsDiffer else Ok p1))
      | Piped line \<Rightarrow>
          map_ok (\<lambda>l. rev (dropWhile (\<lambda>c. c = 10 \<or> c = 13) (rev l))) (map_err CannotReadPassword line))"

definition new_hash :: "conf \<Rightarrow> env \<Rightarrow> password_source \<Rightarrow> (ustr, AdminError) result" where
  "new_hash C E src =
     and_then (read_password src) (\<lambda>password.
     and_then (map_err WeakPassword (password_check (lower C) (common C) password)) (\<lambda>_.
       map_err CannotHash (password_hash (crypto_of C) (salt E ''hash'') password)))"

text \<open>\<^verbatim>\<open>Context::audit\<close>: the row of an admin command says \<^verbatim>\<open>cli\<close> and who used sudo. \<open>sent\<close>: the journal took the copy.\<close>

definition admin_audit ::
    "conf \<Rightarrow> env \<Rightarrow> bool \<Rightarrow> ustr option \<Rightarrow> string \<Rightarrow> AuditEntry \<Rightarrow> app \<Rightarrow> (unit, AdminError) result \<times> app" where
  "admin_audit C E sent sudo label entry a =
     (let a = others E label a;
          entry = entry\<lparr>e_detail := (e_detail entry)\<lparr>via := Some ''cli'', sudo_user := sudo\<rparr>\<rparr>;
          (r, l, d) = audit_record (ip_text C) (sql E label) sent Socket entry (app_logs a, app_db a)
      in (map_err DbFailed r, a\<lparr>app_logs := l, app_db := d\<rparr>))"

definition RESET :: string where
  "RESET = ''account.reset_password''"

definition CREATE :: string where
  "CREATE = ''account.create''"

text \<open>An audit row and then the outcome; a row that cannot be written is the error.\<close>

definition audited_outcome ::
    "conf \<Rightarrow> env \<Rightarrow> bool \<Rightarrow> ustr option \<Rightarrow> string \<Rightarrow> AuditEntry \<Rightarrow> ('r, AdminError) result \<Rightarrow> app \<Rightarrow> ('r, AdminError) result \<times> app" where
  "audited_outcome C E sent sudo label entry outcome a =
     (case admin_audit C E sent sudo label entry a of (r, a) \<Rightarrow> (and_then r (\<lambda>_. outcome), a))"

definition admin_parse_name :: "ustr \<Rightarrow> (Name, AdminError) result" where
  "admin_parse_name username = map_err BadUsername (Name_parse ''username'' username)"

definition admin_reset_password ::
    "conf \<Rightarrow> env \<Rightarrow> bool \<Rightarrow> ustr option \<Rightarrow> password_source \<Rightarrow> ustr \<Rightarrow> app \<Rightarrow> (admin_done, AdminError) result \<times> app" where
  "admin_reset_password C E sent sudo src username a =
     (case admin_parse_name username of
        Err e \<Rightarrow> (Err e, a)
      | Ok name \<Rightarrow>
      case db_call E ''find account'' (\<lambda>e. find_account e (as_str name)) a of
        (Err e, a) \<Rightarrow> (Err (DbFailed e), a)
      | (Ok None, a) \<Rightarrow>
          audited_outcome C E sent sudo ''audit'' (target_account (as_str name) (entry_failed RESET ''no_such_account''))
            (Err (NoAccountCalled (as_str name))) a
      | (Ok (Some account), a) \<Rightarrow>
          (case new_hash C E src of
             Err e \<Rightarrow> (Err e, a)
           | Ok hash \<Rightarrow>
               (case db_call E ''reset'' (\<lambda>e. reset_password e (account_username account) hash) a of
                  (Err e, a) \<Rightarrow> (Err (DbFailed e), a)
                | (Ok (Some ended), a) \<Rightarrow>
                    audited_outcome C E sent sudo ''audit'' (target_account (account_username account) (entry_ok RESET))
                      (Ok (PasswordSet (account_username account) ended)) a
                | (Ok None, a) \<Rightarrow>
                    audited_outcome C E sent sudo ''audit'' (target_account (as_str name) (entry_failed RESET ''no_such_account''))
                      (Err (NoAccountCalled (as_str name))) a)))"

definition admin_create ::
    "conf \<Rightarrow> env \<Rightarrow> bool \<Rightarrow> ustr option \<Rightarrow> password_source \<Rightarrow> ustr \<Rightarrow> app \<Rightarrow> (admin_done, AdminError) result \<times> app" where
  "admin_create C E sent sudo src username a =
     (case admin_parse_name username of
        Err e \<Rightarrow> (Err e, a)
      | Ok name \<Rightarrow>
      let taken = audited_outcome C E sent sudo ''audit'' (target_account (as_str name) (entry_failed CREATE ''name_taken''))
            (Err (AccountExists (as_str name))) in
      case db_call E ''find account'' (\<lambda>e. find_account e (as_str name)) a of
        (Err e, a) \<Rightarrow> (Err (DbFailed e), a)
      | (Ok (Some _), a) \<Rightarrow> taken a
      | (Ok None, a) \<Rightarrow>
          (case new_hash C E src of
             Err e \<Rightarrow> (Err e, a)
           | Ok hash \<Rightarrow>
               (case db_call E ''create'' (\<lambda>e. create_account e (as_str name) hash) a of
                  (Err e, a) \<Rightarrow> (Err (DbFailed e), a)
                | (Ok (Some _), a) \<Rightarrow>
                    audited_outcome C E sent sudo ''audit'' (target_account (as_str name) (entry_ok CREATE))
                      (Ok (CreatedAccount (as_str name))) a
                | (Ok None, a) \<Rightarrow> taken a)))"

text \<open>The database file in the state directory.\<close>

definition FILE :: string where
  "FILE = ''lodger.db''"

text \<open>What the command finds on the host; \<open>w_exists\<close> asks for a file in a folder.\<close>

record admin_world =
  w_status :: "(ustr, io_error) result"
  w_config :: "(Config, ConfigError) result"
  w_exists :: "ustr \<Rightarrow> string \<Rightarrow> bool"
  w_runtime :: "(unit, ustr) result"
  w_open :: "(unit, ustr) result"
  w_sent :: bool
  w_sudo_user :: "ustr option"
  w_password :: password_source

definition admin_run :: "conf \<Rightarrow> env \<Rightarrow> admin_world \<Rightarrow> AdminAction \<Rightarrow> app \<Rightarrow> (admin_done, AdminError) result \<times> app" where
  "admin_run C E W act a =
     (case require_root (w_status W) ''admin'' of
        Err e \<Rightarrow> (Err e, a)
      | Ok _ \<Rightarrow>
      case w_config W of
        Err e \<Rightarrow> (Err (AdminConfig e), a)
      | Ok config \<Rightarrow>
      if \<not> w_exists W (cfg_state_dir config) FILE then (Err (NoDatabase (cfg_state_dir config)), a)
      else case w_runtime W of
        Err e \<Rightarrow> (Err (AdminRuntime e), a)
      | Ok _ \<Rightarrow>
      case w_open W of
        Err e \<Rightarrow> (Err (OpenFailed e), a)
      | Ok _ \<Rightarrow>
      case act of
        ResetPassword username \<Rightarrow> admin_reset_password C E (w_sent W) (w_sudo_user W) (w_password W) username a
      | Create username \<Rightarrow> admin_create C E (w_sent W) (w_sudo_user W) (w_password W) username a)"

section \<open>What a command leaves\<close>

lemma new_hash_Ok:
  "new_hash C E src = Ok hash \<Longrightarrow> \<exists>password. read_password src = Ok password \<and>
     password_check (lower C) (common C) password = Ok () \<and> password_hash (crypto_of C) (salt E ''hash'') password = Ok hash"
  by (auto simp: new_hash_def result_simps)

lemma audited_outcome_alone:
  assumes "alone E" and "audited_outcome C E sent sudo label e outcome a = (r, a')"
  shows "same_tables a a'"
    and "(\<exists>x. r = Err (DbFailed x)) \<or> r = outcome \<and> audit_log (app_db a') = audit_log (app_db a) @
      [(clock (sql E label) 0, entry_row (ip_text C) (e\<lparr>e_detail := (e_detail e)\<lparr>via := Some ''cli'', sudo_user := sudo\<rparr>\<rparr>))]"
  using assms
  by (auto simp: audited_outcome_def admin_audit_def alone_def audit_record_def audit_effect same_tables_def Let_def
      result_simps split: prod.splits option.splits)

lemma failed_outcome:
  "alone E \<Longrightarrow> audited_outcome C E sent sudo label e (Err x) a = (r, a') \<Longrightarrow> same_tables a a' \<and> (\<exists>e. r = Err e)"
  by (frule (1) audited_outcome_alone(1), drule (1) audited_outcome_alone(2)) auto

lemma same_tables_refl [simp]: "same_tables a a"
  by (simp add: same_tables_def)

lemma same_tables_trans: "same_tables a b \<Longrightarrow> same_tables b c \<Longrightarrow> same_tables a c"
  by (simp add: same_tables_def)

text \<open>
  The tables after a command that took effect: account \<open>u\<close> has the new hash, and no session or only its
  own rows changed. The answer is the success with its audit row, or the row could not be written.
\<close>

definition account_reset :: "ustr \<Rightarrow> ustr \<Rightarrow> app \<Rightarrow> bool" where
  "account_reset u hash a' \<longleftrightarrow>
     (\<exists>acc\<in>set (accounts (app_db a')). eq_ignore_ascii_case (acc_username acc) u \<and> acc_password_hash acc = hash \<and>
        (\<forall>s\<in>set (sessions (app_db a')). row_account_id s \<noteq> acc_id acc))"

definition account_added :: "ustr \<Rightarrow> ustr \<Rightarrow> app \<Rightarrow> app \<Rightarrow> bool" where
  "account_added u hash a a' \<longleftrightarrow>
     (\<exists>acc. accounts (app_db a') = accounts (app_db a) @ [acc] \<and> acc_username acc = u \<and> acc_password_hash acc = hash) \<and>
     sessions (app_db a') = sessions (app_db a) \<and>
     \<not> list_ex (\<lambda>acc. eq_ignore_ascii_case (acc_username acc) u) (accounts (app_db a))"

text \<open>The last audit row is the command's: action, outcome, account, \<^verbatim>\<open>cli\<close> and the user of sudo.\<close>

definition cli_row :: "conf \<Rightarrow> ustr option \<Rightarrow> string \<Rightarrow> ustr \<Rightarrow> app \<Rightarrow> app \<Rightarrow> bool" where
  "cli_row C sudo act u a a' \<longleftrightarrow>
     (\<exists>t e. audit_log (app_db a') = audit_log (app_db a) @ [(t, entry_row (ip_text C) e)] \<and>
        e = (target_account u (entry_ok act))\<lparr>e_detail := (e_detail (target_account u (entry_ok act)))\<lparr>via := Some ''cli'', sudo_user := sudo\<rparr>\<rparr>)"

lemma same_tables_mono:
  assumes "same_tables a a'"
  shows "account_reset u hash a \<Longrightarrow> account_reset u hash a'" and "account_added u hash b a \<Longrightarrow> account_added u hash b a'"
  using assms by (simp_all add: same_tables_def account_reset_def account_added_def)

lemma create_account_Ok:
  assumes "create_account e u h d = (r, d')"
  shows "audit_log d' = audit_log d" and "r = Ok (Some i) \<Longrightarrow> sessions d' = sessions d \<and>
      (\<exists>acc. accounts d' = accounts d @ [acc] \<and> acc_username acc = u \<and> acc_password_hash acc = h) \<and>
      \<not> list_ex (\<lambda>acc. eq_ignore_ascii_case (acc_username acc) u) (accounts d)"
    and "\<forall>i. r \<noteq> Ok (Some i) \<Longrightarrow> d' = d"
  using assms
  by (auto simp: create_account_def stmt_def insert_account_def Let_def split: option.splits if_splits prod.splits result.splits SqlError.splits)

lemma admin_create_alone:
  assumes E: "alone E" and c: "admin_create C E sent sudo src username a = (r, a')"
  shows "same_tables a a' \<and> (\<exists>e. r = Err e) \<or>
    (\<exists>u hash. new_hash C E src = Ok hash \<and> account_added u hash a a' \<and>
      ((\<exists>x. r = Err (DbFailed x)) \<or> r = Ok (CreatedAccount u) \<and> cli_row C sudo CREATE u a a'))"
proof (cases "\<exists>name hash i a1 a2. admin_parse_name username = Ok name \<and> new_hash C E src = Ok hash \<and>
    db_call E ''find account'' (\<lambda>e. find_account e (as_str name)) a = (Ok None, a1) \<and>
    db_call E ''create'' (\<lambda>e. create_account e (as_str name) hash) a1 = (Ok (Some i), a2)")
  case True
  then obtain name hash i a1 a2 where x: "admin_parse_name username = Ok name" "new_hash C E src = Ok hash"
      "db_call E ''find account'' (\<lambda>e. find_account e (as_str name)) a = (Ok None, a1)"
      "db_call E ''create'' (\<lambda>e. create_account e (as_str name) hash) a1 = (Ok (Some i), a2)"
    by blast
  with c have o: "audited_outcome C E sent sudo ''audit'' (target_account (as_str name) (entry_ok CREATE))
      (Ok (CreatedAccount (as_str name))) a2 = (r, a')"
    by (simp add: admin_create_def)
  have a1: "a1 = a" by (rule find_account_alone(1) [OF E x(3)])
  note eff = create_account_Ok [OF db_call_fields(4) [OF E x(4)]]
  have "account_added (as_str name) hash a a2"
    using eff(2) a1 by (auto simp: account_added_def)
  with audited_outcome_alone [OF E o] eff(1) a1 x(2) show ?thesis
    by (fastforce simp: cli_row_def dest: same_tables_mono(2))
next
  case False
  have keep: "same_tables a a2" if "db_call E ''create'' (\<lambda>e. create_account e u hash) a = (q, a2)" "\<forall>i. q \<noteq> Ok (Some i)" for u hash q a2
    using create_account_Ok(3) [OF db_call_fields(4) [OF E that(1)]] that(2) by (simp add: same_tables_def)
  from False c have "same_tables a a' \<and> (\<exists>e. r = Err e)"
    by (auto simp: admin_create_def Let_def split: result.splits prod.splits option.splits
        dest!: find_account_alone(1) [OF E] failed_outcome [OF E] intro: keep same_tables_trans)
  then show ?thesis by blast
qed

lemma reset_password_tables:
  assumes "db_wf d" and "reset_password e u h d = (r, d')"
  shows "audit_log d' = audit_log d" and "\<forall>n. r \<noteq> Ok (Some n) \<Longrightarrow> d' = d"
    and "r = Ok (Some n) \<Longrightarrow> \<exists>acc\<in>set (accounts d'). eq_ignore_ascii_case (acc_username acc) u \<and>
      acc_password_hash acc = h \<and> (\<forall>s\<in>set (sessions d'). row_account_id s \<noteq> acc_id acc)"
proof -
  show "\<forall>n. r \<noteq> Ok (Some n) \<Longrightarrow> d' = d"
    using reset_password_ends_sessions [OF assms] by (auto split: result.splits option.splits)
  show "r = Ok (Some n) \<Longrightarrow> \<exists>acc\<in>set (accounts d'). eq_ignore_ascii_case (acc_username acc) u \<and>
      acc_password_hash acc = h \<and> (\<forall>s\<in>set (sessions d'). row_account_id s \<noteq> acc_id acc)"
    using reset_password_ends_sessions [OF assms] by auto
  show "audit_log d' = audit_log d"
    using assms(2) by (auto simp: reset_password_def transaction_def sql_bind_def stmt_def query_def update_password_def
        delete_sessions_def sql_return_def split: option.splits prod.splits result.splits)
qed

lemma admin_reset_alone:
  assumes E: "alone E" and wf: "db_wf (app_db a)" and c: "admin_reset_password C E sent sudo src username a = (r, a')"
  shows "same_tables a a' \<and> (\<exists>e. r = Err e) \<or>
    (\<exists>u hash. new_hash C E src = Ok hash \<and> account_reset u hash a' \<and>
      ((\<exists>x. r = Err (DbFailed x)) \<or> (\<exists>n. r = Ok (PasswordSet u n)) \<and> cli_row C sudo RESET u a a'))"
proof (cases "\<exists>name account hash n a1 a2. admin_parse_name username = Ok name \<and> new_hash C E src = Ok hash \<and>
    db_call E ''find account'' (\<lambda>e. find_account e (as_str name)) a = (Ok (Some account), a1) \<and>
    db_call E ''reset'' (\<lambda>e. reset_password e (account_username account) hash) a1 = (Ok (Some n), a2)")
  case True
  then obtain name account hash n a1 a2 where x: "admin_parse_name username = Ok name" "new_hash C E src = Ok hash"
      "db_call E ''find account'' (\<lambda>e. find_account e (as_str name)) a = (Ok (Some account), a1)"
      "db_call E ''reset'' (\<lambda>e. reset_password e (account_username account) hash) a1 = (Ok (Some n), a2)"
    by blast
  with c have o: "audited_outcome C E sent sudo ''audit'' (target_account (account_username account) (entry_ok RESET))
      (Ok (PasswordSet (account_username account) n)) a2 = (r, a')"
    by (simp add: admin_reset_password_def)
  have a1: "a1 = a" by (rule find_account_alone(1) [OF E x(3)])
  note eff = reset_password_tables [OF _ db_call_fields(4) [OF E x(4)], unfolded a1, OF wf]
  have "account_reset (account_username account) hash a2"
    using eff(3) by (auto simp: account_reset_def)
  with audited_outcome_alone [OF E o] eff(1) x(2) show ?thesis
    by (fastforce simp: cli_row_def dest: same_tables_mono(1))
next
  case False
  have keep: "same_tables a a2" if "db_call E ''reset'' (\<lambda>e. reset_password e u hash) a = (q, a2)" "\<forall>i. q \<noteq> Ok (Some i)" for u hash q a2
    using reset_password_tables(2) [OF wf db_call_fields(4) [OF E that(1)]] that(2) by (simp add: same_tables_def)
  from False c have "same_tables a a' \<and> (\<exists>e. r = Err e)"
    by (auto simp: admin_reset_password_def split: result.splits prod.splits option.splits
        dest!: find_account_alone(1) [OF E] failed_outcome [OF E] intro: keep same_tables_trans)
  then show ?thesis by blast
qed

text \<open>
  C22: An admin command changes accounts or sessions only for root and only with a password that meets the policy. For a
  process whose effective user is not root the answer says so and nothing at all changes. A reset that succeeds leaves the account with the new
  hash and without a session, so whoever was logged in is logged out; a creation that succeeds adds one account with a name that was free. Both
  are in the audit log as a command line action with the user of sudo. Every other error leaves the tables as they were, except that
  the action may be done and its audit row not written, which is a database error.
\<close>

theorem admin_needs_root:
  assumes "alone E" and "db_wf (app_db a)" and "admin_run C E W act a = (r, a')"
  shows "if Option.bind (ok (w_status W)) effective_uid \<noteq> Some 0 then r = Err (NotRoot ''admin'') \<and> a' = a
    else same_tables a a' \<and> (\<exists>e. r = Err e) \<or>
      (\<exists>u password hash. read_password (w_password W) = Ok password \<and> password_check (lower C) (common C) password = Ok () \<and>
         password_hash (crypto_of C) (salt E ''hash'') password = Ok hash \<and>
         (case act of
            ResetPassword _ \<Rightarrow> account_reset u hash a' \<and>
              ((\<exists>x. r = Err (DbFailed x)) \<or> (\<exists>n. r = Ok (PasswordSet u n)) \<and> cli_row C (w_sudo_user W) RESET u a a')
          | Create _ \<Rightarrow> account_added u hash a a' \<and>
              ((\<exists>x. r = Err (DbFailed x)) \<or> r = Ok (CreatedAccount u) \<and> cli_row C (w_sudo_user W) CREATE u a a')))"
proof (cases "\<exists>config. Option.bind (ok (w_status W)) effective_uid = Some 0 \<and> w_config W = Ok config \<and>
    w_exists W (cfg_state_dir config) FILE \<and> w_runtime W = Ok () \<and> w_open W = Ok ()")
  case True
  then have run: "admin_run C E W act a = (case act of
        ResetPassword username \<Rightarrow> admin_reset_password C E (w_sent W) (w_sudo_user W) (w_password W) username a
      | Create username \<Rightarrow> admin_create C E (w_sent W) (w_sudo_user W) (w_password W) username a)"
    by (auto simp: admin_run_def require_root_def)
  show ?thesis
  proof (cases act)
    case (ResetPassword username)
    with run assms(3) have "admin_reset_password C E (w_sent W) (w_sudo_user W) (w_password W) username a = (r, a')" by simp
    from admin_reset_alone [OF assms(1,2) this] True ResetPassword show ?thesis
      by (auto dest!: new_hash_Ok)
  next
    case (Create username)
    with run assms(3) have "admin_create C E (w_sent W) (w_sudo_user W) (w_password W) username a = (r, a')" by simp
    from admin_create_alone [OF assms(1) this] True Create show ?thesis
      by (auto dest!: new_hash_Ok)
  qed
next
  case False
  with assms(3) show ?thesis
    by (auto simp: admin_run_def require_root_def split: if_splits result.splits)
qed

definition root_world :: admin_world where
  "root_world = \<lparr>w_status = Ok (lit ''Uid:'' @ [9, 49, 48, 48, 48, 9, 48, 9, 48, 9, 48]),
     w_config = Ok \<lparr>cfg_listen = DEFAULT_LISTEN, cfg_uri = [], cfg_state_dir = [], cfg_public_url = None, cfg_trusted_proxies = [],
       cfg_tls = None, cfg_allow_plain_http = False\<rparr>,
     w_exists = (\<lambda>_ _. True), w_runtime = Ok (), w_open = Ok (), w_sent = True, w_sudo_user = Some (lit ''alice''),
     w_password = Piped (Ok (lit ''correct horse battery'' @ [10]))\<rparr>"

lemma example_reset:
  "fst (admin_run example_conf (quiet_env 5) root_world (ResetPassword (lit ''ADMIN'')) example_app) = Ok (PasswordSet (lit ''admin'') 1)"
  by code_simp

theorem admin_needs_root_witness:
  "\<exists>u hash a'. admin_run example_conf (quiet_env 5) root_world (ResetPassword (lit ''ADMIN'')) example_app = (Ok (PasswordSet u 1), a') \<and>
     account_reset u hash a' \<and> cli_row example_conf (Some (lit ''alice'')) RESET u example_app a'"
proof -
  let ?r = "admin_run example_conf (quiet_env 5) root_world (ResetPassword (lit ''ADMIN'')) example_app"
  note ok = example_reset
  have uid: "Option.bind (ok (w_status root_world)) effective_uid = Some 0"
    by code_simp
  have eq: "?r = (Ok (PasswordSet (lit ''admin'') 1), snd ?r)"
    using ok by (simp add: prod_eq_iff)
  have wf: "db_wf (app_db example_app)"
    using example_db_wf by (simp add: example_app_def)
  from admin_needs_root [OF quiet_alone wf eq] uid eq show ?thesis
    by (auto simp: root_world_def)
qed

end
