(* ===== verification/Access.thy ===== *)
theory Access
  imports Router Admin
begin

text \<open>
  How login, the session table, the guard and the account command of root work together: what a browser gets from a login
  opens the protected routes, and a reset of the password closes them for every cookie it had. The properties are
  in the root theory; this theory holds the lemmas that connect the components.
\<close>

section \<open>The cookie on its way to the browser and back\<close>

text \<open>The documented output of the crate \<^verbatim>\<open>hex\<close>: pairs of lower case digits.\<close>

definition hex_law :: "crypto \<Rightarrow> bool" where
  "hex_law K \<longleftrightarrow> (\<forall>bs. list_all (\<lambda>c. 48 \<le> c \<and> c \<le> 57 \<or> 97 \<le> c \<and> c \<le> 102) (hex_encode K bs))"

text \<open>
  A browser that got a cookie sends its name and value back, which is the part before the first semicolon; after it in the header
  there may be other cookies.
\<close>

definition sends_back :: "ustr \<Rightarrow> headers \<Rightarrow> bool" where
  "sends_back cookie h \<longleftrightarrow>
     (case cookie_headers h of
        [] \<Rightarrow> False
      | first # _ \<Rightarrow> hd (split_on 59 first) = hd (split_on 59 cookie))"

lemma trim_id:
  assumes "s \<noteq> []" and "\<not> is_whitespace (hd s)" and "\<not> is_whitespace (last s)"
  shows "trim s = s"
proof -
  have "dropWhile is_whitespace s = s"
    using assms(1,2) by (cases s) auto
  moreover have "dropWhile is_whitespace (rev s) = rev s"
    using assms(1,3) by (cases s rule: rev_cases) auto
  ultimately show ?thesis by (simp add: trim_def)
qed

lemma set_cookie_pair:
  assumes "list_all (\<lambda>c. 48 \<le> c \<and> c \<le> 57 \<or> 97 \<le> c \<and> c \<le> 102) token"
  shows "hd (split_on 59 (set_cookie token)) = lit COOKIE @ lit ''='' @ token"
proof -
  let ?pair = "lit COOKIE @ lit ''='' @ token"
  have "59 \<notin> set ?pair"
    using assms by (auto simp: list_all_iff lit_def COOKIE_def)
  note split = split_on_append_sep [OF this, of "lit '' Path=/; Secure; HttpOnly; SameSite=Strict''"]
  have "set_cookie token = ?pair @ 59 # lit '' Path=/; Secure; HttpOnly; SameSite=Strict''"
    by (simp add: set_cookie_def lit_def)
  then show ?thesis by (simp only: split list.sel)
qed

lemma cookie_token_sent:
  assumes "sends_back (set_cookie token) h" and "list_all (\<lambda>c. 48 \<le> c \<and> c \<le> 57 \<or> 97 \<le> c \<and> c \<le> 102) token"
  shows "cookie_token h = Some token"
proof -
  let ?c = "lit COOKIE @ lit ''='' @ token"
  obtain first rest where h: "cookie_headers h = first # rest" and "hd (split_on 59 first) = ?c"
    using assms(1) by (auto simp: sends_back_def set_cookie_pair [OF assms(2)] split: list.splits)
  then obtain ps where ps: "split_on 59 first = ?c # ps"
    by (cases "split_on 59 first") auto
  have "last ?c = 61 \<or> last ?c \<in> set token"
    by (cases token rule: rev_cases) (auto simp: lit_def)
  then have "\<not> is_whitespace (last ?c)"
    using assms(2) by (auto simp: is_whitespace_def list_all_iff)
  then have "trim ?c = ?c"
    by (intro trim_id) (auto simp: lit_def COOKIE_def is_whitespace_def)
  moreover have "split_once 61 ?c = Some (lit COOKIE, token)"
    by (auto simp: split_once_Some lit_def COOKIE_def)
  ultimately show ?thesis
    by (simp add: cookie_token_def h ps List.map_filter_simps)
qed

section \<open>A login that goes through\<close>

text \<open>An environment without failures: no SQL error, no failed task, no other request in between.\<close>

definition healthy :: "env \<Rightarrow> bool" where
  "healthy E \<longleftrightarrow> alone E \<and> (\<forall>label n. fails (sql E label) n = None) \<and> (\<forall>label. task_runs E label) \<and>
     (\<forall>label. \<exists>bytes. random_bytes E label = Ok bytes)"

lemma healthyD:
  assumes "healthy E"
  shows "alone E" and "fails (sql E label) n = None" and "task_runs E label" and "\<exists>bytes. random_bytes E label = Ok bytes"
  using assms by (simp_all add: healthy_def)

lemma delete_session_healthy:
  assumes "healthy E"
  shows "delete_session (sql E label) token d = (Ok (), d\<lparr>sessions := filter (\<lambda>s. row_token_sha256 s \<noteq> token) (sessions d)\<rparr>)"
  by (simp add: delete_session_def sql_bind_def stmt_def delete_sessions_def sql_return_def healthyD(2) [OF assms])

lemma create_session_healthy:
  assumes "healthy E" and "new_token_sha256 new \<notin> row_token_sha256 ` set (sessions d)" and "new_account_id new \<in> acc_id ` set (accounts d)"
  shows "\<exists>d'. create_session (sql E label) new d = (Ok (), d')"
  using assms(2,3)
  by (auto simp: create_session_def sql_bind_def stmt_def delete_sessions_def insert_session_def sql_return_def healthyD(2) [OF assms(1)])

text \<open>The token a session of this environment gets.\<close>

definition drawn_token :: "conf \<Rightarrow> env \<Rightarrow> ustr" where
  "drawn_token C E = (case random_token C (random_bytes E ''session token'') of Ok token \<Rightarrow> token | Err _ \<Rightarrow> [])"

lemma new_session_healthy:
  assumes "healthy E"
  shows "\<exists>new. new_session C E i client h = Ok (drawn_token C E, new) \<and> new_token_sha256 new = token_hash C (drawn_token C E) \<and>
    new_account_id new = i"
  using healthyD(4) [OF assms, of "''session token''"] healthyD(4) [OF assms, of "''csrf token''"]
  by (auto simp: new_session_def drawn_token_def random_token_def result_simps)

lemma start_session_healthy:
  assumes E: "healthy E" and fresh: "token_hash C (drawn_token C E) \<notin> row_token_sha256 ` set (sessions (app_db a))"
    and acc: "account_id acc \<in> acc_id ` set (accounts (app_db a))"
  shows "status (fst (start_session C E client h acc a)) = 200"
proof -
  obtain new where new: "new_session C E (account_id acc) client h = Ok (drawn_token C E, new)"
      "new_token_sha256 new = token_hash C (drawn_token C E)" "new_account_id new = account_id acc"
    using new_session_healthy [OF E] by blast
  define d where "d = (case session_key C h of None \<Rightarrow> app_db a
    | Some old \<Rightarrow> (app_db a)\<lparr>sessions := filter (\<lambda>s. row_token_sha256 s \<noteq> old) (sessions (app_db a))\<rparr>)"
  have old: "(case session_key C h of None \<Rightarrow> (Ok (), a)
      | Some old \<Rightarrow> db_call E ''end old session'' (\<lambda>e. delete_session e old) a) = (Ok (), a\<lparr>app_db := d\<rparr>)"
    by (auto simp: d_def db_call_alone healthyD(1) [OF E] delete_session_healthy [OF E] split: option.splits)
  have "new_token_sha256 new \<notin> row_token_sha256 ` set (sessions d)" "new_account_id new \<in> acc_id ` set (accounts d)"
    using fresh acc new(2,3) by (auto simp: d_def split: option.splits)
  then obtain d' where "create_session (sql E ''create session'') new d = (Ok (), d')"
    using create_session_healthy [OF E] by blast
  then have "db_call E ''create session'' (\<lambda>e. create_session e new) (a\<lparr>app_db := d\<rparr>) = (Ok (), a\<lparr>app_db := d'\<rparr>)"
    by (simp add: db_call_alone healthyD(1) [OF E])
  with old new(1) show ?thesis
    by (simp add: start_session_def Let_def insert_header_def respond_def)
qed

lemma login_healthy:
  assumes E: "healthy E" and wf: "db_wf (app_db a)"
    and throttle: "fst (throttle_begin (lower C) (login_username l) (client_ip C peer h) (instant_now E ''throttle'') (app_throttle a)) = Ok attempt"
    and acc: "named_account (login_username l) a = Some acc"
    and pw: "password_verify (crypto_of C) (login_password l) (account_password_hash acc)"
    and fresh: "token_hash C (drawn_token C E) \<notin> row_token_sha256 ` set (sessions (app_db a))"
  shows "status (fst (login C E peer h (Json l) a)) = 200"
proof -
  note alone = healthyD(1) [OF E]
  obtain attempt' a1 where t: "throttled C E (login_username l) (client_ip C peer h) a =
      (Ok attempt' :: (Attempt, auth_content response) result, a1)"
    using throttle alone
    by (cases "throttle_begin (lower C) (login_username l) (client_ip C peer h) (instant_now E ''throttle'') (app_throttle a)")
      (fastforce simp: throttled_def alone_def Let_def split: prod.splits)
  have db: "app_db a1 = app_db a" by (rule throttled_alone(1) [OF alone t])
  have find: "db_call E ''find account'' (\<lambda>e. find_account e (login_username l)) a1 = (Ok (Some acc), a1)"
    using acc by (simp add: db_call_alone [OF alone] find_account_def stmt_def query_def healthyD(2) [OF E] db named_account_def)
  have "login_verified C E (Some acc) (login_password l)"
    using pw by (simp add: login_verified_def run_blocking_def healthyD(3) [OF E])
  moreover have "account_id acc \<in> acc_id ` set (accounts (app_db a))"
    using acc by (auto simp: named_account_def account_of_def dest!: find_SomeD)
  ultimately show ?thesis
    using start_session_healthy [OF E, of C "throttle_succeeds C E (login_username l) (client_ip C peer h) attempt' a1" acc] fresh db alone
    by (simp add: login_def Let_def t find throttle_succeeds_def alone_def)
qed

text \<open>The session that a login started is found again by its token for the next hour.\<close>

lemma started_session_found:
  assumes start: "session_started C E client h acc r (sessions d) (sessions d')"
    and wf: "db_wf d" and accounts: "accounts d' = accounts d" and acc: "arow \<in> set (accounts d)" "acc = account_of arow"
    and fresh: "token_hash C (drawn_token C E) \<notin> row_token_sha256 ` set (sessions d)"
    and time: "t < clock (sql E ''create session'') 1 + IDLE_MINUTES * MINUTE"
  shows "\<exists>csrf. r = insert_header ''set-cookie'' (set_cookie (drawn_token C E)) (respond 200 (Content (SessionInfo (account_username acc) csrf))) \<and>
    live_session (token_hash C (drawn_token C E)) t d' =
      Some \<lparr>session_account_id = account_id acc, session_username = account_username acc, session_csrf_token = csrf\<rparr>"
proof -
  obtain token new kept row where s: "new_session C E (account_id acc) client h = Ok (token, new)"
      "sessions d' = kept @ [row]" "set kept \<subseteq> set (sessions d)" "row_token_sha256 row = token_hash C token"
      "row_account_id row = account_id acc" "row_csrf_token row = new_csrf_token new"
      "row_last_seen_at row = clock (sql E ''create session'') 1"
      "row_expires_at row = clock (sql E ''create session'') 1 + 24 * 60 * MINUTE"
      "r = insert_header ''set-cookie'' (set_cookie token) (respond 200 (Content (SessionInfo (account_username acc) (new_csrf_token new))))"
    using start unfolding session_started_def by blast
  have token: "token = drawn_token C E"
    using s(1) by (auto simp: new_session_def drawn_token_def result_simps)
  have live: "row_live t row"
    using time by (simp add: row_live_def s(7,8) IDLE_MINUTES_def MINUTE_def)
  have "find (\<lambda>x. row_token_sha256 x = token_hash C token \<and> row_live t x) (sessions d') = Some row"
    using s(2,3,4) live fresh token by (intro find_unique) (fastforce simp: image_iff)+
  moreover have "find (\<lambda>a. acc_id a = row_account_id row) (accounts d') = Some arow"
    using acc s(5) accounts wf by (intro find_unique) (auto simp: account_of_def db_wf_def distinct_map inj_on_def)
  ultimately show ?thesis
    using s(4-6,9) acc(2) token by (auto simp: live_session_def account_of_def)
qed

lemma require_session_runs:
  assumes "healthy E" and "looked_up C E h a = Some s" and "is_safe m \<or> header h CSRF_HEADER = Some (session_csrf_token s)"
  shows "\<exists>a1. \<forall>(handler :: Session \<Rightarrow> app \<times> 'k \<Rightarrow> 'x response \<times> app \<times> 'k) k.
    require_session C E m h handler (a, k) = handler s (a1, k)"
proof -
  obtain a1 where "lookup C E h a = (Ok (Some s), a1)"
    using assms(1,2)
    by (auto simp: looked_up_def lookup_def session_key_def bind_eq_Some_conv db_call_def session_def sql_bind_def stmt_def query_def
        touch_session_def sql_return_def healthyD(2) result_simps Let_def)
  then show ?thesis
    using assms(3) by (auto simp: require_session_def csrf_matches_def)
qed

section \<open>A reset that goes through\<close>

lemma admin_reset_done:
  assumes E: "alone E" and run: "admin_run C E W (ResetPassword name) a = (Ok (PasswordSet u n), a')"
  obtains e hash d where "reset_password e u hash (app_db a) = (Ok (Some n), d)" and "sessions (app_db a') = sessions d"
    and "accounts (app_db a') = accounts d"
proof -
  from run have "admin_reset_password C E (w_sent W) (w_sudo_user W) (w_password W) name a = (Ok (PasswordSet u n), a')"
    by (auto simp: admin_run_def split: result.splits if_splits)
  then obtain nm account hash a1 a2 m where
      find: "db_call E ''find account'' (\<lambda>e. find_account e nm) a = (Ok (Some account), a1)" and
      reset: "db_call E ''reset'' (\<lambda>e. reset_password e (account_username account) hash) a1 = (Ok (Some m), a2)" and
      final: "audited_outcome C E (w_sent W) (w_sudo_user W) ''audit'' (target_account (account_username account) (entry_ok RESET))
        (Ok (PasswordSet (account_username account) m)) a2 = (Ok (PasswordSet u n), a')"
    by (auto simp: admin_reset_password_def split: result.splits option.splits prod.splits
        dest!: failed_outcome [OF E] dest: audited_outcome_alone(2) [OF E])
  have "u = account_username account" "m = n"
    using audited_outcome_alone(2) [OF E final] by auto
  moreover have "a1 = a" by (rule find_account_alone(1) [OF E find])
  moreover note db_call_fields(4) [OF E reset] audited_outcome_alone(1) [OF E final]
  ultimately show thesis using that by (simp add: same_tables_def)
qed

lemma reset_tokens_gone:
  assumes wf: "db_wf d" and reset: "reset_password e (acc_username acc) hash d = (Ok (Some n), d')"
    and acc: "acc \<in> set (accounts d)" and row: "row \<in> set (sessions d)" "row_account_id row = acc_id acc"
  shows "row_token_sha256 row \<notin> row_token_sha256 ` set (sessions d')"
proof -
  obtain b where b: "find (\<lambda>b. eq_ignore_ascii_case (acc_username b) (acc_username acc)) (accounts d) = Some b"
      "sessions d' = filter (\<lambda>s. row_account_id s \<noteq> acc_id b) (sessions d)"
    by (rule reset_password_Some [OF reset])
  have "b = acc"
    using find_SomeD [OF b(1)] wf acc by (auto simp: db_wf_def eq_lowercase distinct_map inj_on_def)
  then show ?thesis
    using b(2) row wf by (auto simp: db_wf_def distinct_map inj_on_def)
qed

text \<open>A token that no row has opens nothing.\<close>

lemma not_admitted_without_row:
  assumes "session_key C (rq_headers rq) = Some key" and "key \<notin> row_token_sha256 ` set (sessions (app_db (others E ''session lookup'' a)))"
  shows "\<not> admitted C E rq a"
proof -
  have "find (\<lambda>s. row_token_sha256 s = key \<and> row_live t s) (sessions (app_db (others E ''session lookup'' a))) = None" for t
    using assms(2) by (auto simp: find_None_iff)
  then have "looked_up C E (rq_headers rq) a = None"
    using assms(1) by (simp add: looked_up_def live_session_def)
  then show ?thesis by (simp add: admitted_iff)
qed

subsection \<open>An instance\<close>

definition hex_digit :: "nat \<Rightarrow> uchar" where
  "hex_digit n = (if n < 10 then 48 + n else 87 + n)"

definition hex_crypto :: crypto where
  "hex_crypto = toy_crypto\<lparr>hex_encode := \<lambda>bs. concat (map (\<lambda>b. [hex_digit (unat b div 16), hex_digit (unat b mod 16)]) bs)\<rparr>"

definition hex_conf :: conf where
  "hex_conf = example_conf\<lparr>crypto_of := hex_crypto\<rparr>"

lemma hex_digit_range: "n < 16 \<Longrightarrow> 48 \<le> hex_digit n \<and> hex_digit n \<le> 57 \<or> 97 \<le> hex_digit n \<and> hex_digit n \<le> 102"
  by (auto simp: hex_digit_def)

lemma hex_crypto_law: "hex_law (crypto_of hex_conf)"
proof -
  have "unat b < 16 * 16" for b :: "8 word"
    using unsigned_less [of b] by simp
  then have byte: "unat b div 16 < 16" "unat b mod 16 < 16" for b :: "8 word"
    by (rule less_mult_imp_div_less) simp
  have "list_all (\<lambda>c. 48 \<le> c \<and> c \<le> 57 \<or> 97 \<le> c \<and> c \<le> 102)
      (concat (map (\<lambda>b. [hex_digit (unat b div 16), hex_digit (unat b mod 16)]) bs))" for bs :: "8 word list"
    by (induction bs) (simp_all add: hex_digit_range [OF byte(1)] hex_digit_range [OF byte(2)])
  then show ?thesis
    by (simp add: hex_law_def hex_conf_def hex_crypto_def)
qed

lemma quiet_healthy: "healthy (quiet_env t)"
  by (simp add: healthy_def quiet_alone) (simp add: quiet_env_def at_time_def)

end
