(* ===== verification/Tls.thy ===== *)
theory Tls
  imports Config
begin

text \<open>
  \<^verbatim>\<open>lodger/src/tls.rs\<close>: the certificate and key that Lodger serves with, and the self-signed pair of \<^verbatim>\<open>lodger install\<close>. The PEM and X.509
  readers, rustls and rcgen are parameters. Instants are seconds.
\<close>

section \<open>The pair of the server\<close>

type_synonym octets = "8 word list"
type_synonym der = octets

record tls_lib =
  pem_certs :: "ustr \<Rightarrow> ((der, ustr) result list, ustr) result"
  pem_key :: "ustr \<Rightarrow> (der, ustr) result"
  tls_versions :: "(unit, ustr) result"
  single_cert :: "der list \<Rightarrow> der \<Rightarrow> (unit, ustr) result"

datatype TlsError =
    CertUnreadable ustr ustr
  | NoCertificate ustr
  | KeyUnreadable ustr ustr
  | TlsSetupFailed ustr
  | PairRefused TlsFiles ustr
  | CannotCertify ustr ustr
  | NewCertUnreadable ustr

record ServerConfig =
  sc_chain :: "der list"
  sc_key :: der
  sc_alpn :: "string list"

fun collect :: "('a, 'e) result list \<Rightarrow> ('a list, 'e) result" where
  "collect [] = Ok []"
| "collect (r # rs) = and_then r (\<lambda>x. map_ok (Cons x) (collect rs))"

definition read_chain :: "tls_lib \<Rightarrow> ustr \<Rightarrow> (der list, TlsError) result" where
  "read_chain T path =
     and_then (map_err (CertUnreadable path) (pem_certs T path)) (\<lambda>parts.
     and_then (map_err (CertUnreadable path) (collect parts)) (\<lambda>chain.
       if chain = [] then Err (NoCertificate path) else Ok chain))"

definition server_config :: "tls_lib \<Rightarrow> TlsFiles \<Rightarrow> (ServerConfig, TlsError) result" where
  "server_config T files =
     and_then (read_chain T (tls_cert files)) (\<lambda>chain.
     and_then (map_err (KeyUnreadable (tls_key files)) (pem_key T (tls_key files))) (\<lambda>key.
     and_then (map_err TlsSetupFailed (tls_versions T)) (\<lambda>_.
     and_then (map_err (PairRefused files) (single_cert T chain key)) (\<lambda>_.
       Ok \<lparr>sc_chain = chain, sc_key = key, sc_alpn = [''http/1.1'']\<rparr>))))"

text \<open>\<open>cert_end\<close>: the end of the validity of the first certificate of a PEM text, in seconds.\<close>

definition not_after ::
    "(ustr \<Rightarrow> (octets, ustr) result) \<Rightarrow> (octets \<Rightarrow> (int, ustr) result) \<Rightarrow> ustr \<Rightarrow> (int, TlsError) result" where
  "not_after read cert_end path =
     and_then (map_err (CertUnreadable path) (read path)) (\<lambda>pem. map_err (CertUnreadable path) (cert_end pem))"

section \<open>Self-signed pairs\<close>

definition SELF_SIGNED_DAYS :: int where
  "SELF_SIGNED_DAYS = 730"

definition SELF_SIGNED_MARK :: string where
  "SELF_SIGNED_MARK = ''Lodger self-signed''"

text \<open>\<open>subject_of\<close>: the subject of the first certificate of a PEM text.\<close>

definition made_by_lodger :: "(octets \<Rightarrow> ustr option) \<Rightarrow> octets \<Rightarrow> bool" where
  "made_by_lodger subject_of pem =
     (case subject_of pem of
        None \<Rightarrow> False
      | Some subject \<Rightarrow> list_ex (\<lambda>part. part = lit ''O='' @ lit SELF_SIGNED_MARK) (split_on 44 subject))"

record CertParams =
  cp_names :: "ustr list"
  cp_common_name :: ustr
  cp_organization :: ustr
  cp_is_ca :: bool
  cp_server_auth :: bool
  cp_not_before :: int
  cp_not_after :: int

record SelfSigned =
  cert_pem :: octets
  key_pem :: octets
  fingerprint :: ustr
  ss_not_after :: int

text \<open>rcgen: a new key, the check of the names, and the certificate as DER and PEM.\<close>

record rcgen =
  rc_key :: "(octets, ustr) result"
  rc_params :: "ustr list \<Rightarrow> (unit, ustr) result"
  rc_sign :: "CertParams \<Rightarrow> octets \<Rightarrow> (der \<times> octets, ustr) result"
  rc_sha256 :: "der \<Rightarrow> 8 word list"
  rc_end :: "octets \<Rightarrow> (int, ustr) result"

definition hex_upper :: "8 word \<Rightarrow> ustr" where
  "hex_upper b = map (\<lambda>d. if d < 10 then 48 + d else 55 + d) [unat b div 16, unat b mod 16]"

definition self_signed_params :: "ustr \<Rightarrow> int \<Rightarrow> CertParams" where
  "self_signed_params name now =
     \<lparr>cp_names = [name], cp_common_name = name, cp_organization = lit SELF_SIGNED_MARK, cp_is_ca = False,
      cp_server_auth = True, cp_not_before = now - 60 * 60, cp_not_after = now + SELF_SIGNED_DAYS * 24 * 60 * 60\<rparr>"

definition self_signed :: "rcgen \<Rightarrow> ustr \<Rightarrow> int \<Rightarrow> (SelfSigned, TlsError) result" where
  "self_signed R name now =
     and_then (map_err (CannotCertify name) (rc_key R)) (\<lambda>key.
     and_then (map_err (CannotCertify name) (rc_params R [name])) (\<lambda>_.
     and_then (map_err (CannotCertify name) (rc_sign R (self_signed_params name now) key)) (\<lambda>(der, pem).
     and_then (map_err NewCertUnreadable (rc_end R pem)) (\<lambda>end_time.
       Ok \<lparr>cert_pem = pem, key_pem = key, fingerprint = join [58] (map hex_upper (rc_sha256 R der)), ss_not_after = end_time\<rparr>))))"

definition valid_label :: "ustr \<Rightarrow> bool" where
  "valid_label label \<longleftrightarrow> 1 \<le> str_len label \<and> str_len label \<le> 63 \<and> \<not> starts_with [45] label \<and> \<not> ends_with [45] label \<and>
     list_all (\<lambda>c. is_ascii_alphanumeric c \<or> c = 45) label"

definition valid_name :: "(ustr \<Rightarrow> ipaddr option) \<Rightarrow> ustr \<Rightarrow> bool" where
  "valid_name ip_of name \<longleftrightarrow>
     (if ip_of name \<noteq> None then True
      else name \<noteq> [] \<and> str_len name \<le> 253 \<and> list_all valid_label (split_on 46 name))"

section \<open>Properties\<close>

lemma collect_Ok: "collect rs = Ok xs \<longleftrightarrow> rs = map Ok xs"
  by (induction rs arbitrary: xs) (auto simp: result_simps Cons_eq_map_conv)

lemma byte_less: "unat (b :: 8 word) < 256"
  using unsigned_less [of b, where ?'a = nat] by simp

lemma hex_upper_inject: "hex_upper a = hex_upper b \<longleftrightarrow> a = b"
proof
  assume "hex_upper a = hex_upper b"
  then have "unat a div 16 = unat b div 16" "unat a mod 16 = unat b mod 16"
    using byte_less [of a] byte_less [of b] by (auto simp: hex_upper_def split: if_splits)
  then have "unat a = unat b" by (metis div_mult_mod_eq)
  then show "a = b" by (simp add: word_unat_eq_iff)
qed simp

lemma hex_upper_shape: "length (hex_upper b) = 2" "58 \<notin> set (hex_upper b)"
  using byte_less [of b] by (auto simp: hex_upper_def)

text \<open>Two certificates show the same fingerprint only if they have the same digest.\<close>

lemma fingerprint_inject:
  assumes "join [58] (map hex_upper xs) = join [58] (map hex_upper ys)" and "xs \<noteq> []" "ys \<noteq> []"
  shows "xs = ys"
proof -
  have "split_on 58 (join [58] (map hex_upper zs)) = map hex_upper zs" if "zs \<noteq> []" for zs
    using that hex_upper_shape(2) by (intro split_on_join) auto
  with assms have "map hex_upper xs = map hex_upper ys" by metis
  then show ?thesis
    by (metis hex_upper_inject inj_def map_injective)
qed

end
