(* ===== verification/Startup.thy ===== *)
theory Startup
  imports Tls Setup Assets
begin

text \<open>
  \<^verbatim>\<open>serve\<close> of \<^verbatim>\<open>lodger/src/server.rs\<close>: what \<^verbatim>\<open>lodger serve\<close> does from the configuration to the first request, in order, and where it stops. What the
  system and the libraries answer is the argument \<open>serve_world\<close>; what the start does is the list of
  its events.
\<close>

section \<open>Model\<close>

datatype ServeError =
    PlainHttp SocketAddr
  | BadTls TlsError
  | DbOpen ustr
  | CannotPrepare ustr
  | CountFailed SqlError
  | NoRandom ustr
  | CannotUse ustr ustr
  | StartPanic
  | CannotServe SocketAddr ustr
  | NoSignals ustr

datatype warning = NoTlsByOptIn SocketAddr | NoTlsBehindProxy SocketAddr

record serving =
  sg_conf :: conf
  sg_app :: app
  sg_tls :: "ServerConfig option"

datatype start_event =
    DbOpened
  | DummyHashMade
  | SetupTokenLine ustr
  | HostStarted ustr
  | AuditCleanupStarted
  | BoundTo SocketAddr
  | SignalHandlers
  | AddressLine bool SocketAddr
  | SummaryLine Config
  | WarningLine warning
  | Serving serving

record serve_world =
  sv_tls :: tls_lib
  sv_open :: "ustr \<Rightarrow> (db, ustr) result"
  sv_prepared :: "(unit, ustr) result"
  sv_count :: sql_env
  sv_random :: random
  sv_now :: instant
  sv_host :: "ustr \<Rightarrow> (unit, ustr) result"
  sv_bind :: "SocketAddr \<Rightarrow> (SocketAddr, ustr) result"
  sv_signals :: "(unit, ustr) result"
  sv_local_addr :: "(unit, ustr) result"
  sv_listener :: "(unit, ustr) result"
  sv_served :: "(unit, ustr) result"
  sv_assets :: asset_source
  sv_utf8 :: "8 word list \<Rightarrow> ustr"
  sv_sha256_base64 :: "ustr \<Rightarrow> ustr"

text \<open>A step that may stop the start, with the events so far.\<close>

type_synonym 'a start = "('a, ServeError) result \<times> start_event list"

definition sbind :: "'a start \<Rightarrow> ('a \<Rightarrow> 'b start) \<Rightarrow> 'b start" where
  "sbind m f = (case m of (Ok x, l) \<Rightarrow> (case f x of (r, l') \<Rightarrow> (r, l @ l')) | (Err e, l) \<Rightarrow> (Err e, l))"

definition attempt :: "('e \<Rightarrow> ServeError) \<Rightarrow> ('a, 'e) result \<Rightarrow> 'a start" where
  "attempt g r = (map_err g r, [])"

definition event :: "start_event \<Rightarrow> unit start" where
  "event ev = (Ok (), [ev])"

definition open_setup :: "conf \<Rightarrow> serve_world \<Rightarrow> db \<Rightarrow> SetupToken option start" where
  "open_setup C W d =
     sbind (attempt CountFailed (fst (account_count (sv_count W) d))) (\<lambda>n.
       if n > 0 then (Ok None, [])
       else sbind (attempt NoRandom (generate C (sv_random W) (sv_now W))) (\<lambda>(text, token).
              sbind (event (SetupTokenLine text)) (\<lambda>_. (Ok (Some token), []))))"

text \<open>\<^verbatim>\<open>AppState::new\<close>: \<open>None\<close> if the scripts of the page cannot be cut out, where it panics. \<open>C\<close> brings the libraries.\<close>

definition app_state_new ::
    "conf \<Rightarrow> serve_world \<Rightarrow> db \<Rightarrow> SetupToken option \<Rightarrow> (ipaddr \<Rightarrow> bool) list \<Rightarrow> ustr option \<Rightarrow> (conf \<times> app) option" where
  "app_state_new C W d setup proxies origin =
     (let page = (case sv_assets W (lit FALLBACK) of Some a \<Rightarrow> sv_utf8 W (asset_bytes a) | None \<Rightarrow> lit STUB_PAGE) in
      map_option (\<lambda>policy.
        (C\<lparr>trusted_proxies := proxies, public_origin := origin, csp_value := policy, hsts := False\<rparr>,
         \<lparr>app_db = d, app_throttle = throttle_new, app_tickets = [], app_setup = setup,
          app_logs = \<lparr>stderr_log = [], socket_log = []\<rparr>\<rparr>))
      (csp (sv_sha256_base64 W) page origin))"

definition warn :: "Config \<Rightarrow> unit start" where
  "warn c =
     (if plain_http_by_opt_in c then event (WarningLine (NoTlsByOptIn (cfg_listen c)))
      else if \<not> is_loopback (sa_ip (cfg_listen c)) \<and> cfg_tls c = None
      then event (WarningLine (NoTlsBehindProxy (cfg_listen c)))
      else (Ok (), []))"

definition serve_tls :: "serve_world \<Rightarrow> Config \<Rightarrow> ServerConfig option start" where
  "serve_tls W c =
     (case cfg_tls c of
        None \<Rightarrow> (Ok None, [])
      | Some files \<Rightarrow> attempt BadTls (map_ok Some (server_config (sv_tls W) files)))"

definition serve_app :: "serve_world \<Rightarrow> SocketAddr \<Rightarrow> serving \<Rightarrow> unit start" where
  "serve_app W listen g =
     sbind (if sg_tls g = None then (Ok (), []) else attempt (CannotServe listen) (sv_listener W)) (\<lambda>_.
     sbind (event (Serving g)) (\<lambda>_. attempt (CannotServe listen) (sv_served W)))"

definition serve :: "conf \<Rightarrow> serve_world \<Rightarrow> Config \<Rightarrow> unit start" where
  "serve C W c =
     (let listen = cfg_listen c in
      sbind (attempt PlainHttp (check_plain_http c)) (\<lambda>_.
      sbind (serve_tls W c) (\<lambda>tls.
      sbind (attempt DbOpen (sv_open W (cfg_state_dir c))) (\<lambda>d.
      sbind (event DbOpened) (\<lambda>_.
      sbind (attempt CannotPrepare (sv_prepared W)) (\<lambda>_.
      sbind (event DummyHashMade) (\<lambda>_.
      sbind (open_setup C W d) (\<lambda>setup.
      sbind (attempt (CannotUse (cfg_uri c)) (sv_host W (cfg_uri c))) (\<lambda>_.
      sbind (event (HostStarted (cfg_uri c))) (\<lambda>_.
      sbind (event AuditCleanupStarted) (\<lambda>_.
        case app_state_new C W d setup (cfg_trusted_proxies c) (cfg_public_url c) of
          None \<Rightarrow> (Err StartPanic, [])
        | Some (C, a) \<Rightarrow>
            sbind (attempt (CannotServe listen) (sv_bind W listen)) (\<lambda>local.
            sbind (event (BoundTo local)) (\<lambda>_.
            sbind (attempt NoSignals (sv_signals W)) (\<lambda>_.
            sbind (event SignalHandlers) (\<lambda>_.
            sbind (attempt (CannotServe listen) (sv_local_addr W)) (\<lambda>_.
            sbind (event (AddressLine (tls \<noteq> None) local)) (\<lambda>_.
            sbind (event (SummaryLine c)) (\<lambda>_.
            sbind (warn c) (\<lambda>_.
              serve_app W listen \<lparr>sg_conf = C\<lparr>hsts := tls \<noteq> None\<rparr>, sg_app = a, sg_tls = tls\<rparr>)))))))))))))))))))"

section \<open>Properties\<close>

text \<open>A step that lets the start go on, and the events after it.\<close>

lemma Serving_sbind:
  "Serving g \<in> set (snd (sbind m f)) \<longleftrightarrow> Serving g \<in> set (snd m) \<or> (\<exists>x. fst m = Ok x \<and> Serving g \<in> set (snd (f x)))"
  by (cases m) (auto simp: sbind_def split: result.splits prod.splits)

lemma snd_sbind: "fst m = Ok x \<Longrightarrow> snd (sbind m f) = snd m @ snd (f x)"
  by (cases m) (auto simp: sbind_def split: prod.splits)

lemma start_simps [simp]:
  "fst (attempt e r) = map_err e r" "snd (attempt e r) = []" "fst (event ev) = Ok ()" "snd (event ev) = [ev]"
  by (simp_all add: attempt_def event_def)

lemma open_setup_fact:
  assumes "fst (open_setup C W d) = Ok setup"
  shows "if accounts d = []
    then \<exists>text b. sv_random W = Ok b \<and> text = hex_encode (crypto_of C) b \<and>
      setup = Some \<lparr>st_hash = sha256 (crypto_of C) text, st_expires = sv_now W + TOKEN_LIFETIME\<rparr> \<and>
      snd (open_setup C W d) = [SetupTokenLine text]
    else setup = None \<and> snd (open_setup C W d) = []"
  using assms
  by (auto simp: open_setup_def sbind_def attempt_def event_def generate_def account_count_def stmt_def query_def result_simps Let_def
      split: prod.splits result.splits option.splits if_splits)

lemma open_setup_no_Serving: "Serving g \<notin> set (snd (open_setup C W d))"
  by (auto simp: open_setup_def Serving_sbind split: prod.splits)

lemma warn_events:
  "fst (warn c) = Ok ()" "Serving g \<notin> set (snd (warn c))"
  "snd (warn c) = [] \<longleftrightarrow> is_loopback (sa_ip (cfg_listen c)) \<or> cfg_tls c \<noteq> None"
  "ev \<in> set (snd (warn c)) \<Longrightarrow> \<exists>w. ev = WarningLine w"
  by (auto simp: warn_def plain_http_by_opt_in_def event_def split: if_splits)

lemma serve_tls_Ok:
  "fst (serve_tls W c) = Ok tls \<longleftrightarrow>
     (case cfg_tls c of None \<Rightarrow> tls = None | Some files \<Rightarrow> \<exists>sc. server_config (sv_tls W) files = Ok sc \<and> tls = Some sc)"
  "snd (serve_tls W c) = []"
  by (auto simp: serve_tls_def result_simps split: option.splits)

lemma serve_app_events:
  assumes "Serving g \<in> set (snd (serve_app W listen g'))"
  shows "g' = g" and "snd (serve_app W listen g) = [Serving g]"
proof -
  show eq: "g' = g" using assms by (auto simp: serve_app_def Serving_sbind split: if_splits)
  show "snd (serve_app W listen g) = [Serving g]"
    using assms unfolding eq by (auto simp: serve_app_def Serving_sbind sbind_def attempt_def event_def split: if_splits result.splits prod.splits)
qed

text \<open>What a start that serves has passed, step by step.\<close>

lemma serve_Serving:
  assumes "Serving g \<in> set (snd (serve C W c))"
  obtains tls d tok C' a local where
    "check_plain_http c = Ok ()" and "fst (serve_tls W c) = Ok tls" and "sv_open W (cfg_state_dir c) = Ok d"
    and "fst (open_setup C W d) = Ok tok"
    and "app_state_new C W d tok (cfg_trusted_proxies c) (cfg_public_url c) = Some (C', a)"
    and "sv_bind W (cfg_listen c) = Ok local"
    and "g = \<lparr>sg_conf = C'\<lparr>hsts := tls \<noteq> None\<rparr>, sg_app = a, sg_tls = tls\<rparr>"
    and "snd (serve C W c) = [DbOpened, DummyHashMade] @ snd (open_setup C W d) @
      [HostStarted (cfg_uri c), AuditCleanupStarted, BoundTo local, SignalHandlers, AddressLine (tls \<noteq> None) local, SummaryLine c] @
      snd (warn c) @ [Serving g]"
proof -
  from assms obtain tls d tok C' a local where s:
      "check_plain_http c = Ok ()" "fst (serve_tls W c) = Ok tls" "sv_open W (cfg_state_dir c) = Ok d"
      "sv_prepared W = Ok ()" "fst (open_setup C W d) = Ok tok" "sv_host W (cfg_uri c) = Ok ()"
      "app_state_new C W d tok (cfg_trusted_proxies c) (cfg_public_url c) = Some (C', a)"
      "sv_bind W (cfg_listen c) = Ok local" "sv_signals W = Ok ()" "sv_local_addr W = Ok ()"
      "Serving g \<in> set (snd (serve_app W (cfg_listen c) \<lparr>sg_conf = C'\<lparr>hsts := tls \<noteq> None\<rparr>, sg_app = a, sg_tls = tls\<rparr>))"
    by (auto simp: serve_def Let_def Serving_sbind open_setup_no_Serving serve_tls_Ok(2) warn_events(1,2) map_err_Ok
        split: option.splits)
  note app = serve_app_events [OF s(11)]
  have "snd (serve C W c) = [DbOpened, DummyHashMade] @ snd (open_setup C W d) @
      [HostStarted (cfg_uri c), AuditCleanupStarted, BoundTo local, SignalHandlers, AddressLine (tls \<noteq> None) local, SummaryLine c] @
      snd (warn c) @ [Serving g]"
    unfolding serve_def Let_def
    by (simp add: snd_sbind s(1-10) serve_tls_Ok(2) warn_events(1) app(2) app(1) [simplified])
  from that [OF s(1-3,5,7,8) app(1) [symmetric] this] show ?thesis .
qed

text \<open>
  C35: A start never serves less safely than the configuration says. Before anything else it refuses plain HTTP on the network without a
  proxy or the opt-in, and a certificate that cannot be used. When it serves, it is with exactly the configured pair and HSTS, or
  without TLS; then it is on loopback, or a warning went to the log. Setup is open exactly if there is no account,
  with a fresh token that is only in the log. The signal handlers are in place
  before the address line, and the address is printed only once the port is bound.
\<close>

theorem serve_fails_safe:
  assumes "Serving g \<in> set (snd (serve C W c))"
  shows "(case cfg_tls c of
        Some files \<Rightarrow> (\<exists>sc. server_config (sv_tls W) files = Ok sc \<and> sg_tls g = Some sc) \<and> hsts (sg_conf g)
      | None \<Rightarrow> sg_tls g = None \<and> \<not> hsts (sg_conf g) \<and>
          (is_loopback (sa_ip (cfg_listen c)) \<or>
           (cfg_trusted_proxies c \<noteq> [] \<or> cfg_allow_plain_http c) \<and> (\<exists>w. WarningLine w \<in> set (snd (serve C W c))))) \<and>
    trusted_proxies (sg_conf g) = cfg_trusted_proxies c \<and> public_origin (sg_conf g) = cfg_public_url c \<and>
    (app_setup (sg_app g) \<noteq> None \<longleftrightarrow> accounts (app_db (sg_app g)) = []) \<and>
    (case app_setup (sg_app g) of None \<Rightarrow> True
     | Some t \<Rightarrow> \<exists>text. st_hash t = sha256 (crypto_of C) text \<and> st_expires t = sv_now W + TOKEN_LIFETIME \<and>
         SetupTokenLine text \<in> set (snd (serve C W c))) \<and>
    (\<exists>before local after. snd (serve C W c) =
       before @ [BoundTo local, SignalHandlers, AddressLine (sg_tls g \<noteq> None) local] @ after @ [Serving g])"
proof -
  obtain tls d tok C' a local where
      s: "check_plain_http c = Ok ()" "fst (serve_tls W c) = Ok tls" "fst (open_setup C W d) = Ok tok"
        "app_state_new C W d tok (cfg_trusted_proxies c) (cfg_public_url c) = Some (C', a)"
        "g = \<lparr>sg_conf = C'\<lparr>hsts := tls \<noteq> None\<rparr>, sg_app = a, sg_tls = tls\<rparr>"
      and log: "snd (serve C W c) = [DbOpened, DummyHashMade] @ snd (open_setup C W d) @
      [HostStarted (cfg_uri c), AuditCleanupStarted, BoundTo local, SignalHandlers, AddressLine (tls \<noteq> None) local, SummaryLine c] @
      snd (warn c) @ [Serving g]"
    by (rule serve_Serving [OF assms])
  have app: "app_db a = d" "app_setup a = tok" "trusted_proxies C' = cfg_trusted_proxies c" "public_origin C' = cfg_public_url c"
    using s(4) by (auto simp: app_state_new_def Let_def)
  have warned: "is_loopback (sa_ip (cfg_listen c)) \<or> cfg_tls c \<noteq> None \<or> (\<exists>w. WarningLine w \<in> set (snd (serve C W c)))"
    using warn_events(3) [of c] warn_events(4) [of _ c] by (cases "snd (warn c)") (auto simp: log)
  have "\<exists>before local after. snd (serve C W c) =
       before @ [BoundTo local, SignalHandlers, AddressLine (sg_tls g \<noteq> None) local] @ after @ [Serving g]"
    by (rule exI [of _ "[DbOpened, DummyHashMade] @ snd (open_setup C W d) @ [HostStarted (cfg_uri c), AuditCleanupStarted]"],
        rule exI [of _ local], rule exI [of _ "SummaryLine c # snd (warn c)"]) (simp add: log s(5))
  with s app warned open_setup_fact [OF s(3)] show ?thesis
    by (auto simp: serve_tls_Ok check_plain_http_def log split: option.splits if_splits)
qed

text \<open>A pair that cannot be used, or plain HTTP that is not allowed, stops the start before its first event.\<close>

lemma serve_stops_first:
  "check_plain_http c = Err l \<Longrightarrow> serve C W c = (Err (PlainHttp l), [])"
  "check_plain_http c = Ok () \<Longrightarrow> cfg_tls c = Some files \<Longrightarrow> server_config (sv_tls W) files = Err e \<Longrightarrow>
     serve C W c = (Err (BadTls e), [])"
  by (simp_all add: serve_def Let_def sbind_def attempt_def serve_tls_def)

subsection \<open>Witness\<close>

definition quiet_world :: serve_world where
  "quiet_world = \<lparr>sv_tls = \<lparr>pem_certs = (\<lambda>_. Ok []), pem_key = (\<lambda>_. Ok []), tls_versions = Ok (), single_cert = (\<lambda>_ _. Ok ())\<rparr>,
     sv_open = (\<lambda>_. Ok empty_db), sv_prepared = Ok (), sv_count = at_time 1, sv_random = Ok [5], sv_now = 0, sv_host = (\<lambda>_. Ok ()),
     sv_bind = Ok, sv_signals = Ok (), sv_local_addr = Ok (), sv_listener = Ok (), sv_served = Ok (), sv_assets = (\<lambda>_. None),
     sv_utf8 = map unat, sv_sha256_base64 = id\<rparr>"

definition lan_config :: Config where
  "lan_config = \<lparr>cfg_listen = \<lparr>sa_ip = V4 0, sa_port = 8460\<rparr>, cfg_uri = [], cfg_state_dir = [], cfg_public_url = None,
     cfg_trusted_proxies = [], cfg_tls = None, cfg_allow_plain_http = True\<rparr>"

theorem serve_fails_safe_witness:
  "\<exists>w. WarningLine w \<in> set (snd (serve example_conf quiet_world lan_config))"
proof -
  let ?l = "snd (serve example_conf quiet_world lan_config)"
  have "list_ex (\<lambda>ev. case ev of Serving g \<Rightarrow> True | _ \<Rightarrow> False) ?l"
    by code_simp
  then obtain ev where ev: "ev \<in> set ?l" "case ev of Serving g \<Rightarrow> True | _ \<Rightarrow> False"
    by (auto simp only: list_ex_iff)
  then obtain g where "Serving g \<in> set ?l"
    by - (cases ev, auto)
  from serve_fails_safe [OF this] show ?thesis
    by (auto simp: lan_config_def)
qed

end
