(* ===== verification/Host_Files.thy ===== *)
theory Host_Files
  imports Admin Tls
begin

text \<open>
  The files of the host as \<^verbatim>\<open>lodger/src/install.rs\<close> changes them and \<^verbatim>\<open>lodger/src/doctor.rs\<close> reads them. A path is the list of its names below
  the root. Every operation of the file system may fail where the argument \<open>io\<close> says so, and what a failed write leaves behind is
  part of the model. Modes are hexadecimal: \<^verbatim>\<open>0x1FF\<close> is \<^verbatim>\<open>0o777\<close>, \<^verbatim>\<open>0x1ED\<close> \<^verbatim>\<open>0o755\<close>, \<^verbatim>\<open>0x1A4\<close> \<^verbatim>\<open>0o644\<close> and \<^verbatim>\<open>0x180\<close> \<^verbatim>\<open>0o600\<close>.
\<close>

section \<open>Files\<close>

type_synonym path = "string list"

record inode =
  file_bytes :: octets
  file_mode :: nat
  file_owner :: "(nat \<times> nat) option"

datatype node = DirNode nat | FileNode inode

type_synonym disk = "path \<Rightarrow> node option"

text \<open>Which step fails on which path, the umask, and what a failed write or a failed removal of a folder leaves.\<close>

record io =
  io_fails :: "string \<Rightarrow> path \<Rightarrow> ustr option"
  io_umask :: "nat \<Rightarrow> nat"
  io_partial :: "path \<Rightarrow> octets"
  io_kept :: "path \<Rightarrow> path \<Rightarrow> bool"
  io_utf8 :: "octets \<Rightarrow> ustr option"

definition is_dir :: "disk \<Rightarrow> path \<Rightarrow> bool" where
  "is_dir D p \<longleftrightarrow> p = [] \<or> (case D p of Some (DirNode _) \<Rightarrow> True | _ \<Rightarrow> False)"

definition path_exists :: "disk \<Rightarrow> path \<Rightarrow> bool" where
  "path_exists D p \<longleftrightarrow> p = [] \<or> D p \<noteq> None"

text \<open>The path as a program argument.\<close>

definition arg :: "path \<Rightarrow> ustr" where
  "arg p = lit ''/'' @ join [47] (map lit p)"

text \<open>\<^verbatim>\<open>std::fs::read\<close> and \<^verbatim>\<open>read_to_string\<close>.\<close>

definition read_bytes :: "io \<Rightarrow> disk \<Rightarrow> path \<Rightarrow> (octets, io_error) result" where
  "read_bytes X D p =
     (case D p of
        None \<Rightarrow> Err FileMissing
      | Some (DirNode _) \<Rightarrow> Err (OtherIo (lit ''is a directory''))
      | Some (FileNode f) \<Rightarrow> (case io_fails X ''read'' p of None \<Rightarrow> Ok (file_bytes f) | Some e \<Rightarrow> Err (OtherIo e)))"

definition read_to_string :: "io \<Rightarrow> disk \<Rightarrow> path \<Rightarrow> (ustr, io_error) result" where
  "read_to_string X D p =
     and_then (read_bytes X D p) (\<lambda>b.
       case io_utf8 X b of None \<Rightarrow> Err (OtherIo (lit ''stream did not contain valid UTF-8'')) | Some t \<Rightarrow> Ok t)"

definition read_or_empty :: "io \<Rightarrow> disk \<Rightarrow> path \<Rightarrow> ustr" where
  "read_or_empty X D p = unwrap_or [] (ok (read_to_string X D p))"

function create_dirs :: "io \<Rightarrow> path \<Rightarrow> disk \<Rightarrow> (unit, ustr) result \<times> disk" where
  "create_dirs X dir D =
     (if is_dir D dir then (Ok (), D)
      else case create_dirs X (butlast dir) D of
        (Err e, D) \<Rightarrow> (Err e, D)
      | (Ok _, D) \<Rightarrow>
          if path_exists D dir then (Ok (), D)
          else case io_fails X ''mkdir'' dir of
            Some e \<Rightarrow> (Err e, D)
          | None \<Rightarrow>
              (case io_fails X ''chmod'' dir of
                 Some e \<Rightarrow> (Err e, D(dir \<mapsto> DirNode (io_umask X 0x1FF)))
               | None \<Rightarrow> (Ok (), D(dir \<mapsto> DirNode 0x1ED))))"
  by pat_completeness auto
termination
  by (relation "measure (\<lambda>(_, dir, _). length dir)") (auto simp: is_dir_def)

declare create_dirs.simps [simp del]

datatype FileError = CannotCreate path ustr | CannotWrite path ustr | CannotRemove path ustr

definition temp_path :: "path \<Rightarrow> path" where
  "temp_path p = butlast p @ [''.'' @ last p @ ''.new'']"

text \<open>The temporary file: opened with the mode through the umask, then the owner, the bytes, and the mode itself.\<close>

definition open_temp :: "io \<Rightarrow> path \<Rightarrow> nat \<Rightarrow> disk \<Rightarrow> (inode, ustr) result" where
  "open_temp X temp mode D =
     (case io_fails X ''open'' temp of
        Some e \<Rightarrow> Err e
      | None \<Rightarrow>
          (case D temp of
             None \<Rightarrow> Ok \<lparr>file_bytes = [], file_mode = io_umask X mode, file_owner = None\<rparr>
           | Some (FileNode f) \<Rightarrow> Ok (f\<lparr>file_bytes := []\<rparr>)
           | Some (DirNode _) \<Rightarrow> Err (lit ''is a directory'')))"

definition fill_temp :: "io \<Rightarrow> path \<Rightarrow> octets \<Rightarrow> nat \<Rightarrow> (nat \<times> nat) option \<Rightarrow> inode \<Rightarrow> (unit, ustr) result \<times> inode" where
  "fill_temp X temp bytes mode owner f =
     (case (if owner = None then None else io_fails X ''chown'' temp) of
        Some e \<Rightarrow> (Err e, f)
      | None \<Rightarrow>
          let f = (if owner = None then f else f\<lparr>file_owner := owner\<rparr>) in
          case io_fails X ''write'' temp of
            Some e \<Rightarrow> (Err e, f\<lparr>file_bytes := io_partial X temp\<rparr>)
          | None \<Rightarrow>
              let f = f\<lparr>file_bytes := bytes\<rparr> in
              case io_fails X ''chmod'' temp of
                Some e \<Rightarrow> (Err e, f)
              | None \<Rightarrow>
                  let f = f\<lparr>file_mode := mode\<rparr> in
                  case io_fails X ''sync'' temp of Some e \<Rightarrow> (Err e, f) | None \<Rightarrow> (Ok (), f))"

definition drop_temp :: "io \<Rightarrow> path \<Rightarrow> disk \<Rightarrow> disk" where
  "drop_temp X temp D =
     (if is_dir D temp \<or> io_fails X ''remove'' temp \<noteq> None then D else D(temp := None))"

definition write_as ::
    "io \<Rightarrow> path \<Rightarrow> octets \<Rightarrow> nat \<Rightarrow> (nat \<times> nat) option \<Rightarrow> disk \<Rightarrow> (unit, FileError) result \<times> disk" where
  "write_as X p bytes mode owner D =
     (case create_dirs X (butlast p) D of
        (Err e, D) \<Rightarrow> (Err (CannotCreate (butlast p) e), D)
      | (Ok _, D) \<Rightarrow>
          let temp = temp_path p in
          case open_temp X temp mode D of
            Err e \<Rightarrow> (Err (CannotWrite p e), drop_temp X temp D)
          | Ok f \<Rightarrow>
              (case fill_temp X temp bytes mode owner f of
                 (Err e, f) \<Rightarrow> (Err (CannotWrite p e), drop_temp X temp (D(temp \<mapsto> FileNode f)))
               | (Ok _, f) \<Rightarrow>
                   let D = D(temp \<mapsto> FileNode f) in
                   case (if is_dir D p then Some (lit ''is a directory'') else io_fails X ''rename'' p) of
                     Some e \<Rightarrow> (Err (CannotWrite p e), drop_temp X temp D)
                   | None \<Rightarrow> (Ok (), D(p \<mapsto> FileNode f, temp := None))))"

definition write_file :: "io \<Rightarrow> path \<Rightarrow> octets \<Rightarrow> nat \<Rightarrow> disk \<Rightarrow> (unit, FileError) result \<times> disk" where
  "write_file X p bytes mode D = write_as X p bytes mode None D"

definition remove_file :: "io \<Rightarrow> path \<Rightarrow> disk \<Rightarrow> (unit, FileError) result \<times> disk" where
  "remove_file X p D =
     (case D p of
        None \<Rightarrow> (Ok (), D)
      | Some (DirNode _) \<Rightarrow> (Err (CannotRemove p (lit ''is a directory'')), D)
      | Some (FileNode _) \<Rightarrow>
          (case io_fails X ''remove'' p of Some e \<Rightarrow> (Err (CannotRemove p e), D) | None \<Rightarrow> (Ok (), D(p := None))))"

text \<open>\<^verbatim>\<open>remove_dir_all\<close>: everything at or below the path goes, or on a failure what \<open>io_kept\<close> does not name.\<close>

definition below :: "path \<Rightarrow> path \<Rightarrow> bool" where
  "below p q \<longleftrightarrow> starts_with p q"

definition remove_dir :: "io \<Rightarrow> path \<Rightarrow> disk \<Rightarrow> (unit, FileError) result \<times> disk" where
  "remove_dir X p D =
     (if D p = None then (Ok (), D)
      else case io_fails X ''remove all'' p of
        None \<Rightarrow> (Ok (), \<lambda>q. if below p q then None else D q)
      | Some e \<Rightarrow> (Err (CannotRemove p e), \<lambda>q. if below p q \<and> \<not> io_kept X p q then None else D q))"

section \<open>The account files\<close>

definition has_entry :: "ustr \<Rightarrow> string \<Rightarrow> bool" where
  "has_entry text name \<longleftrightarrow> list_ex (\<lambda>line. hd (split_on 58 line) = lit name) (str_lines text)"

definition user_ids :: "ustr \<Rightarrow> string \<Rightarrow> (nat \<times> nat) option" where
  "user_ids passwd name =
     (case find (\<lambda>line. hd (split_on 58 line) = lit name) (str_lines passwd) of
        None \<Rightarrow> None
      | Some line \<Rightarrow>
          (case drop 2 (split_on 58 line) of
             u # g # _ \<Rightarrow>
               (case (parse_uint (2 ^ 32 - 1) u, parse_uint (2 ^ 32 - 1) g) of (Some uid, Some gid) \<Rightarrow> Some (uid, gid) | _ \<Rightarrow> None)
           | _ \<Rightarrow> None))"

section \<open>What a write changes\<close>

lemma create_dirs_frame:
  "create_dirs X dir D = (r, D') \<Longrightarrow> (D q \<noteq> None \<or> \<not> below q dir \<or> q = [] \<longrightarrow> D' q = D q)"
proof (induction X dir D arbitrary: r D' rule: create_dirs.induct)
  case (1 X dir D)
  show ?case
  proof (cases "is_dir D dir")
    case True
    with "1.prems"(1) show ?thesis by (simp add: create_dirs.simps)
  next
    case False
    then have dir: "dir \<noteq> []" by (auto simp: is_dir_def)
    obtain r1 D1 where c: "create_dirs X (butlast dir) D = (r1, D1)" by fastforce
    have up: "below q (butlast dir) \<Longrightarrow> below q dir"
      using dir by (auto simp: below_def starts_with_iff) (metis append_butlast_last_id append.assoc)
    note ih = "1.IH" [OF False c]
    show ?thesis
      using "1.prems"(1) False c ih up
      by (subst (asm) create_dirs.simps)
        (auto simp: path_exists_def is_dir_def below_def starts_with_iff split: result.splits if_splits option.splits)
  qed
qed

lemma drop_temp_other: "q \<noteq> temp \<Longrightarrow> drop_temp X temp D q = D q"
  by (simp add: drop_temp_def)

lemma temp_path_other: "p \<noteq> [] \<Longrightarrow> temp_path p \<noteq> p"
proof
  assume "p \<noteq> []" and "temp_path p = p"
  then have "''.'' @ last p @ ''.new'' = last p"
    by (metis last_snoc temp_path_def)
  then have "length (''.'' @ last p @ ''.new'') = length (last p)" by simp
  then show False by simp
qed

lemma not_below_butlast: "p \<noteq> [] \<Longrightarrow> \<not> below p (butlast p)"
  by (cases p rule: rev_cases) (auto simp: below_def starts_with_iff dest!: arg_cong [where f = length])

text \<open>A write touches the file, its temporary file, and folders above it that did not exist.\<close>

lemma write_as_frame:
  assumes "write_as X p bytes mode owner D = (r, D')" and "q \<noteq> p" "q \<noteq> temp_path p" and "D q \<noteq> None \<or> \<not> below q (butlast p)"
  shows "D' q = D q"
  using assms create_dirs_frame [of X "butlast p" D _ _ q]
  by (auto simp: write_as_def Let_def drop_temp_other split: prod.splits result.splits option.splits if_splits)

text \<open>The file itself changes only when the write succeeds, and then it has the bytes, the mode and the owner.\<close>

lemma write_as_file:
  assumes "p \<noteq> []" and "write_as X p bytes mode owner D = (r, D')"
  shows "case r of
      Ok _ \<Rightarrow> (\<exists>f. D' p = Some (FileNode f) \<and> file_bytes f = bytes \<and> file_mode f = mode \<and> (owner = None \<or> file_owner f = owner))
    | Err _ \<Rightarrow> D' p = D p"
proof -
  obtain r1 D1 where c: "create_dirs X (butlast p) D = (r1, D1)" by fastforce
  have D1: "D1 p = D p"
    using create_dirs_frame [OF c, of p] not_below_butlast [OF assms(1)] by simp
  have temp: "temp_path p \<noteq> p" by (rule temp_path_other [OF assms(1)])
  have fill: "fill_temp X t bytes mode owner f = (Ok u, f') \<Longrightarrow>
      file_bytes f' = bytes \<and> file_mode f' = mode \<and> (owner = None \<or> file_owner f' = owner)" for t f f' u
    by (auto simp: fill_temp_def Let_def split: option.splits if_splits)
  show ?thesis
    using assms(2) c D1 temp
    by (auto simp: write_as_def Let_def drop_temp_other dest!: fill split: prod.splits result.splits option.splits if_splits)
qed

end
