(* ===== verification/Install.thy ===== *)
theory Install
  imports Host_Files
begin

text \<open>
  \<^verbatim>\<open>lodger/src/install.rs\<close>: \<^verbatim>\<open>lodger install\<close> and \<^verbatim>\<open>lodger uninstall\<close>. The programs that they run are the argument \<open>ie_run\<close>, which may change the
  disk; the templates, the TOML reader and editor, and the certificate libraries are arguments too. The state is the disk and the
  list of the programs that ran.
\<close>

section \<open>Names\<close>

definition BIN :: path where "BIN = [''usr'', ''local'', ''bin'', ''lodger'']"
definition CONFIG_DIR :: path where "CONFIG_DIR = [''etc'', ''lodger'']"
definition CONFIG_FILE :: path where "CONFIG_FILE = [''etc'', ''lodger'', ''config.toml'']"
definition TLS_CERT :: path where "TLS_CERT = [''etc'', ''lodger'', ''tls'', ''cert.pem'']"
definition TLS_KEY :: path where "TLS_KEY = [''etc'', ''lodger'', ''tls'', ''key.pem'']"
definition UNIT_FILE :: path where "UNIT_FILE = [''etc'', ''systemd'', ''system'', ''lodger.service'']"
definition SYSUSERS_FILE :: path where "SYSUSERS_FILE = [''etc'', ''sysusers.d'', ''lodger.conf'']"
definition STATE_DIR :: path where "STATE_DIR = [''var'', ''lib'', ''lodger'']"
definition GROUP_FILE :: path where "GROUP_FILE = [''etc'', ''group'']"
definition PASSWD_FILE :: path where "PASSWD_FILE = [''etc'', ''passwd'']"
definition SYSTEMD_RUNNING :: path where "SYSTEMD_RUNNING = [''run'', ''systemd'', ''system'']"
definition LIBVIRT_SOCKETS :: "path list" where
  "LIBVIRT_SOCKETS = [[''run'', ''libvirt'', ''libvirt-sock''], [''run'', ''libvirt'', ''virtqemud-sock'']]"
definition SERVICE :: string where "SERVICE = ''lodger.service''"

lemmas path_defs = BIN_def CONFIG_DIR_def CONFIG_FILE_def TLS_CERT_def TLS_KEY_def UNIT_FILE_def SYSUSERS_FILE_def STATE_DIR_def
  GROUP_FILE_def PASSWD_FILE_def

section \<open>Model\<close>

record install_env =
  ie_io :: io
  ie_run :: "string \<Rightarrow> ustr list \<Rightarrow> disk \<Rightarrow> (unit, ustr) result \<times> disk"
  ie_accepts :: "SocketAddr \<Rightarrow> bool"
  ie_toml :: toml
  ie_uri :: "ustr \<Rightarrow> uri option"
  ie_edit :: "ustr \<Rightarrow> TlsFiles \<Rightarrow> (ustr, ustr) result"
  ie_encode :: "ustr \<Rightarrow> octets"
  ie_tls :: "disk \<Rightarrow> tls_lib"
  ie_subject :: "octets \<Rightarrow> ustr option"
  ie_ip :: "ustr \<Rightarrow> ipaddr option"
  ie_rcgen :: rcgen
  ie_now :: int
  ie_exe :: "(octets, ustr) result"
  ie_unit :: octets
  ie_sysusers :: octets
  ie_config :: octets

datatype Problem =
    BadCertName ustr
  | ForeignCert
  | ForeignKey
  | KeyWithoutCert
  | CertUnknown ustr
  | NoSystemd
  | NoLibvirtSocket
  | NoLibvirtGroup
  | PlainHttpProblem SocketAddr
  | NamesOtherCert ustr
  | BadConfig ConfigError
  | PortTaken SocketAddr

datatype InstallError =
    CannotInstall "Problem list"
  | CannotReadExe ustr
  | FileFailed FileError
  | ProgramFailed ustr
  | TlsFailed TlsError
  | NoKeyOwner
  | ConfigUnreadable io_error
  | ConfigNotToml ustr
  | ConfigFailed ConfigError

type_synonym machine = "disk \<times> (string \<times> ustr list) list"
type_synonym 'a inst = "machine \<Rightarrow> ('a, InstallError) result \<times> machine"

definition ibind :: "'a inst \<Rightarrow> ('a \<Rightarrow> 'b inst) \<Rightarrow> 'b inst" where
  "ibind m f s = (case m s of (Ok x, s) \<Rightarrow> f x s | (Err e, s) \<Rightarrow> (Err e, s))"

definition ipure :: "('a, InstallError) result \<Rightarrow> 'a inst" where
  "ipure r s = (r, s)"

definition on_disk :: "(disk \<Rightarrow> (unit, FileError) result \<times> disk) \<Rightarrow> unit inst" where
  "on_disk f s = (case f (fst s) of (r, D) \<Rightarrow> (map_err FileFailed r, D, snd s))"

definition run_program :: "install_env \<Rightarrow> string \<Rightarrow> ustr list \<Rightarrow> unit inst" where
  "run_program I prog args s =
     (case ie_run I prog args (fst s) of (r, D) \<Rightarrow> (map_err ProgramFailed r, D, snd s @ [(prog, args)]))"

definition self_signed_files :: TlsFiles where
  "self_signed_files = \<lparr>tls_cert = arg TLS_CERT, tls_key = arg TLS_KEY\<rparr>"

text \<open>\<^verbatim>\<open>Config::load\<close> with the installed file.\<close>

definition load_installed :: "install_env \<Rightarrow> disk \<Rightarrow> (Config, ConfigError) result" where
  "load_installed I D =
     config_load (\<lambda>_. read_to_string (ie_io I) D CONFIG_FILE) (ie_toml I) (ie_uri I)
       \<lparr>o_config = Some (arg CONFIG_FILE), o_listen = None, o_uri = None, o_state_dir = None\<rparr> None"

text \<open>Why \<^verbatim>\<open>--self-signed\<close> must not write over the pair that is there.\<close>

definition foreign_pair :: "install_env \<Rightarrow> disk \<Rightarrow> Problem option" where
  "foreign_pair I D =
     (case read_bytes (ie_io I) D TLS_CERT of
        Ok pem \<Rightarrow>
          if made_by_lodger (ie_subject I) pem
          then if path_exists D TLS_KEY \<and> ok (server_config (ie_tls I D) self_signed_files) = None then Some ForeignKey else None
          else Some ForeignCert
      | Err FileMissing \<Rightarrow> if path_exists D TLS_KEY then Some KeyWithoutCert else None
      | Err (OtherIo e) \<Rightarrow> Some (CertUnknown e))"

text \<open>The problems with an existing configuration, and the address to listen on.\<close>

definition config_problems :: "install_env \<Rightarrow> ustr option \<Rightarrow> disk \<Rightarrow> Problem list \<times> SocketAddr option" where
  "config_problems I name D =
     (if \<not> path_exists D CONFIG_FILE then ([], Some DEFAULT_LISTEN)
      else case load_installed I D of
        Err e \<Rightarrow> ([BadConfig e], None)
      | Ok config \<Rightarrow>
          ((if name = None then case check_plain_http config of Err l \<Rightarrow> [PlainHttpProblem l] | Ok _ \<Rightarrow> [] else []) @
           (case cfg_tls config of
              Some tls \<Rightarrow> if name \<noteq> None \<and> tls \<noteq> self_signed_files then [NamesOtherCert (tls_cert tls)] else []
            | None \<Rightarrow> []),
           Some (cfg_listen config)))"

definition install_check :: "install_env \<Rightarrow> ustr option \<Rightarrow> disk \<Rightarrow> (SocketAddr, InstallError) result" where
  "install_check I name D =
     (let (cp, listen) = config_problems I name D;
          problems =
            (case name of Some n \<Rightarrow> if valid_name (ie_ip I) n then [] else [BadCertName n] | None \<Rightarrow> []) @
            (case name of Some _ \<Rightarrow> (case foreign_pair I D of Some p \<Rightarrow> [p] | None \<Rightarrow> []) | None \<Rightarrow> []) @
            (if is_dir D SYSTEMD_RUNNING then [] else [NoSystemd]) @
            (if list_ex (path_exists D) LIBVIRT_SOCKETS then [] else [NoLibvirtSocket]) @
            (if has_entry (read_or_empty (ie_io I) D GROUP_FILE) ''libvirt'' then [] else [NoLibvirtGroup]) @
            cp @
            (case listen of
               Some l \<Rightarrow> if \<not> path_exists D UNIT_FILE \<and> ie_accepts I l then [PortTaken l] else []
             | None \<Rightarrow> [])
      in case listen of
           Some l \<Rightarrow> if problems = [] then Ok l else Err (CannotInstall problems)
         | None \<Rightarrow> Err (CannotInstall problems))"

definition copy_binary :: "install_env \<Rightarrow> unit inst" where
  "copy_binary I =
     ibind (ipure (map_err CannotReadExe (ie_exe I))) (\<lambda>bytes. on_disk (write_file (ie_io I) BIN bytes 0x1ED))"

definition set_tls_paths :: "install_env \<Rightarrow> unit inst" where
  "set_tls_paths I s =
     ibind (ipure (map_err ConfigUnreadable (read_to_string (ie_io I) (fst s) CONFIG_FILE))) (\<lambda>text.
     ibind (ipure (map_err ConfigNotToml (ie_edit I text self_signed_files))) (\<lambda>doc.
       on_disk (write_file (ie_io I) CONFIG_FILE (ie_encode I doc) 0x1A4))) s"

record Certificate =
  ct_name :: ustr
  ct_fingerprint :: ustr
  ct_not_after :: int

definition write_self_signed :: "install_env \<Rightarrow> ustr \<Rightarrow> Certificate inst" where
  "write_self_signed I name =
     ibind (ipure (map_err TlsFailed (self_signed (ie_rcgen I) name (ie_now I)))) (\<lambda>pair.
     ibind (\<lambda>s. (ok_or NoKeyOwner (user_ids (read_or_empty (ie_io I) (fst s) PASSWD_FILE) ''lodger''), s)) (\<lambda>owner.
     ibind (on_disk (write_as (ie_io I) TLS_KEY (key_pem pair) 0x180 (Some owner))) (\<lambda>_.
     ibind (on_disk (write_file (ie_io I) TLS_CERT (cert_pem pair) 0x1A4)) (\<lambda>_.
     ibind (set_tls_paths I) (\<lambda>_.
       ipure (Ok \<lparr>ct_name = name, ct_fingerprint = fingerprint pair, ct_not_after = ss_not_after pair\<rparr>))))))"

record Installed =
  in_listen :: SocketAddr
  in_tls :: bool
  in_certificate :: "Certificate option"

definition install :: "install_env \<Rightarrow> ustr option \<Rightarrow> Installed inst" where
  "install I name =
     ibind (\<lambda>s. (install_check I name (fst s), s)) (\<lambda>listen.
     ibind (copy_binary I) (\<lambda>_.
     ibind (on_disk (write_file (ie_io I) SYSUSERS_FILE (ie_sysusers I) 0x1A4)) (\<lambda>_.
     ibind (run_program I ''systemd-sysusers'' [arg SYSUSERS_FILE]) (\<lambda>_.
     ibind (\<lambda>s. if path_exists (fst s) CONFIG_FILE then (Ok (), s) else on_disk (write_file (ie_io I) CONFIG_FILE (ie_config I) 0x1A4) s) (\<lambda>_.
     ibind (case name of None \<Rightarrow> ipure (Ok None) | Some n \<Rightarrow> ibind (write_self_signed I n) (\<lambda>c. ipure (Ok (Some c)))) (\<lambda>certificate.
     ibind (on_disk (write_file (ie_io I) UNIT_FILE (ie_unit I) 0x1A4)) (\<lambda>_.
     ibind (run_program I ''systemctl'' [lit ''daemon-reload'']) (\<lambda>_.
     ibind (run_program I ''systemctl'' [lit ''enable'', lit SERVICE]) (\<lambda>_.
     ibind (run_program I ''systemctl'' [lit ''restart'', lit SERVICE]) (\<lambda>_.
     ibind (\<lambda>s. (map_err ConfigFailed (load_installed I (fst s)), s)) (\<lambda>config.
       ipure (Ok \<lparr>in_listen = listen, in_tls = (cfg_tls config \<noteq> None), in_certificate = certificate\<rparr>))))))))))))"

text \<open>\<^verbatim>\<open>Installed::message\<close>; addresses and times print as \<open>show_addr\<close> and \<open>show_time\<close> say.\<close>

definition installed_message :: "(SocketAddr \<Rightarrow> ustr) \<Rightarrow> (int \<Rightarrow> ustr) \<Rightarrow> (ustr \<Rightarrow> ipaddr option) \<Rightarrow> Installed \<Rightarrow> ustr" where
  "installed_message show_addr show_time ip_of done =
     (let out = lit ''Lodger runs at '' @ (if in_tls done then lit ''https'' else lit ''http'') @ lit ''://'' @ show_addr (in_listen done) @
        lit ''. Read the setup token with: sudo journalctl -u lodger'' in
      case in_certificate done of
        None \<Rightarrow> out
      | Some cert \<Rightarrow>
          (let out = out @ [10] @ lit ''Made a self-signed certificate for '' @ ct_name cert @ lit '', valid until '' @ show_time (ct_not_after cert) @
             lit ''.'' @ [10] @ lit ''SHA-256 fingerprint: '' @ ct_fingerprint cert @ [10] @
             lit ''Your browser warns about this certificate. Accept it only if the browser shows the same fingerprint.'' in
           if \<not> is_loopback (sa_ip (in_listen done)) then out
           else
             let example = (case ip_of (ct_name cert) of
                 Some ip \<Rightarrow> show_addr \<lparr>sa_ip = ip, sa_port = sa_port (in_listen done)\<rparr>
               | None \<Rightarrow> lit ''<this host'' @ [39] @ lit ''s LAN address>:'' @ dec (sa_port (in_listen done)))
             in out @ [10] @ lit ''Lodger still listens only on '' @ show_addr (in_listen done) @
                lit ''. To serve the LAN, set listen = '' @ [34] @ example @ [34] @
                lit '' in /etc/lodger/config.toml, then run: sudo systemctl restart lodger''))"

definition uninstall :: "install_env \<Rightarrow> bool \<Rightarrow> unit inst" where
  "uninstall I purge =
     ibind (\<lambda>s. if path_exists (fst s) UNIT_FILE
        then ibind (run_program I ''systemctl'' [lit ''disable'', lit ''--now'', lit SERVICE]) (\<lambda>_.
             ibind (on_disk (remove_file (ie_io I) UNIT_FILE)) (\<lambda>_.
               run_program I ''systemctl'' [lit ''daemon-reload''])) s
        else (Ok (), s)) (\<lambda>_.
     ibind (on_disk (remove_file (ie_io I) BIN)) (\<lambda>_.
       if \<not> purge then ipure (Ok ())
       else ibind (on_disk (remove_dir (ie_io I) CONFIG_DIR)) (\<lambda>_.
            ibind (on_disk (remove_dir (ie_io I) STATE_DIR)) (\<lambda>_.
            ibind (on_disk (remove_file (ie_io I) SYSUSERS_FILE)) (\<lambda>_.
              (\<lambda>s. if has_entry (read_or_empty (ie_io I) (fst s) PASSWD_FILE) ''lodger''
                   then run_program I ''userdel'' [lit ''lodger''] s else (Ok (), s)))))))"

text \<open>
  \<^verbatim>\<open>wait_listening\<close>: attempt \<open>i\<close> connects or not, and the clock after it says \<open>clk i\<close>. The loop has no bound of its own but the deadline, so the
  model has fuel.
\<close>

definition START_TIMEOUT :: nat where
  "START_TIMEOUT = 30000"

fun wait_listening :: "(nat \<Rightarrow> bool) \<Rightarrow> (nat \<Rightarrow> nat) \<Rightarrow> nat \<Rightarrow> nat \<Rightarrow> nat \<Rightarrow> bool option" where
  "wait_listening connects clk deadline i 0 = None"
| "wait_listening connects clk deadline i (Suc fuel) =
     (if connects i then Some True
      else if clk i \<ge> deadline then Some False
      else wait_listening connects clk deadline (Suc i) fuel)"

text \<open>The commands: root only, and after an install the wait for the service.\<close>

datatype CommandError = NeedsRoot AdminError | InstallFailed InstallError | NotListening SocketAddr

definition run_install ::
    "(ustr, io_error) result \<Rightarrow> install_env \<Rightarrow> (nat \<Rightarrow> bool) \<Rightarrow> (nat \<Rightarrow> nat) \<Rightarrow> nat \<Rightarrow> nat \<Rightarrow> ustr option \<Rightarrow> machine
      \<Rightarrow> (Installed, CommandError) result option \<times> machine" where
  "run_install status_file I connects clk start fuel name s =
     (case require_root status_file ''install'' of
        Err e \<Rightarrow> (Some (Err (NeedsRoot e)), s)
      | Ok _ \<Rightarrow>
          (case install I name s of
             (Err e, s) \<Rightarrow> (Some (Err (InstallFailed e)), s)
           | (Ok done, s) \<Rightarrow>
               (map_option (\<lambda>listening. if listening then Ok done else Err (NotListening (in_listen done)))
                  (wait_listening connects clk (start + START_TIMEOUT) 0 fuel), s)))"

definition run_uninstall :: "(ustr, io_error) result \<Rightarrow> install_env \<Rightarrow> bool \<Rightarrow> machine \<Rightarrow> (unit, CommandError) result \<times> machine" where
  "run_uninstall status_file I purge s =
     (case require_root status_file ''uninstall'' of
        Err e \<Rightarrow> (Err (NeedsRoot e), s)
      | Ok _ \<Rightarrow> (case uninstall I purge s of (r, s) \<Rightarrow> (map_err InstallFailed r, s)))"

section \<open>What an install leaves alone\<close>

text \<open>A step keeps a property of the file at \<open>q\<close>.\<close>

definition stays :: "path \<Rightarrow> (node option \<Rightarrow> bool) \<Rightarrow> 'a inst \<Rightarrow> bool" where
  "stays q R m \<longleftrightarrow> (\<forall>s. R (fst s q) \<longrightarrow> R (fst (snd (m s)) q))"

text \<open>The programs of the system keep the file.\<close>

definition programs_keep :: "install_env \<Rightarrow> path \<Rightarrow> bool" where
  "programs_keep I q \<longleftrightarrow> (\<forall>prog args D. snd (ie_run I prog args D) q = D q)"

named_theorems frame

lemma stays_ibind [frame]:
  assumes "stays q R m" and "\<And>x. stays q R (f x)"
  shows "stays q R (ibind m f)"
  unfolding stays_def
proof (intro allI impI)
  fix s :: machine assume q: "R (fst s q)"
  obtain r s1 where m: "m s = (r, s1)" by (cases "m s")
  then have "R (fst s1 q)" using assms(1) q unfolding stays_def by (metis snd_conv)
  then show "R (fst (snd (ibind m f s)) q)"
    using assms(2) m by (cases r) (simp_all add: stays_def ibind_def del: split_paired_All)
qed

lemma stays_pure [frame]: "stays q R (ipure r)"
  by (simp add: stays_def ipure_def)

lemma ibind_Ok: "ibind (ipure (Ok x)) f = f x"
  by (simp add: fun_eq_iff ibind_def ipure_def)

lemma stays_read [frame]: "stays q R (\<lambda>s. (f s, s))"
  by (simp add: stays_def)

lemma stays_if:
  "stays q R m \<Longrightarrow> stays q R m' \<Longrightarrow> stays q R (\<lambda>s. if b s then m s else m' s)"
  by (simp add: stays_def)

lemma stays_run [frame]: "programs_keep I q \<Longrightarrow> stays q R (run_program I prog args)"
  by (simp add: stays_def programs_keep_def run_program_def case_prod_beta)

lemma stays_write:
  assumes "q \<noteq> p" "q \<noteq> temp_path p" "\<not> below q (butlast p)"
  shows "stays q R (on_disk (write_as X p bytes mode owner))" and "stays q R (on_disk (write_file X p bytes mode))"
proof -
  have "fst (snd (on_disk (write_as X p bytes mode o') s)) q = fst s q" for s o'
  proof (cases "write_as X p bytes mode o' (fst s)")
    case (Pair r D')
    from write_as_frame [OF this assms(1,2)] assms(3) Pair show ?thesis by (simp add: on_disk_def)
  qed
  then show "stays q R (on_disk (write_as X p bytes mode owner))" and "stays q R (on_disk (write_file X p bytes mode))"
    by (simp_all add: stays_def write_file_def [abs_def])
qed

lemma stays_written:
  assumes "p \<noteq> []" and "\<And>f. file_bytes f = bytes \<Longrightarrow> file_mode f = mode \<Longrightarrow> owner = None \<or> file_owner f = owner \<Longrightarrow> R (Some (FileNode f))"
  shows "stays p R (on_disk (write_as X p bytes mode owner))"
  unfolding stays_def
proof (intro allI impI)
  fix s :: machine assume "R (fst s p)"
  then show "R (fst (snd (on_disk (write_as X p bytes mode owner) s)) p)"
  proof (cases "write_as X p bytes mode owner (fst s)")
    case (Pair r D')
    from write_as_file [OF assms(1) this] assms(2) Pair \<open>R (fst s p)\<close> show ?thesis
      by (auto simp: on_disk_def split: result.splits)
  qed
qed

lemma stays_remove:
  "q \<noteq> p \<Longrightarrow> stays q R (on_disk (remove_file X p))" "\<not> below p q \<Longrightarrow> stays q R (on_disk (remove_dir X p))"
  by (auto simp: stays_def on_disk_def remove_file_def remove_dir_def
      split: prod.splits option.splits node.splits result.splits if_splits)

text \<open>None of the files that an operator owns lies on the way to another file.\<close>

lemmas path_facts = path_defs temp_path_def below_def starts_with_iff

lemma stays_copy_binary [frame]: "q \<in> {CONFIG_FILE, TLS_CERT, TLS_KEY} \<Longrightarrow> stays q R (copy_binary I)"
  unfolding copy_binary_def by (intro frame stays_write) (auto simp: path_facts)

lemma stays_set_tls_paths: "q \<in> {TLS_CERT, TLS_KEY} \<Longrightarrow> stays q R (set_tls_paths I)"
proof -
  assume q: "q \<in> {TLS_CERT, TLS_KEY}"
  have "stays q R (ibind (ipure (map_err ConfigUnreadable t)) (\<lambda>text.
     ibind (ipure (map_err ConfigNotToml (ie_edit I text self_signed_files))) (\<lambda>doc.
       on_disk (write_file (ie_io I) CONFIG_FILE (ie_encode I doc) 0x1A4))))" for t
    using q by (intro frame stays_write) (auto simp: path_facts)
  then show ?thesis by (auto simp: stays_def set_tls_paths_def)
qed

text \<open>The key that an install leaves: the one that was there, or a new one that only root and the lodger user can read.\<close>

definition key_safe :: "install_env \<Rightarrow> node option \<Rightarrow> node option \<Rightarrow> bool" where
  "key_safe I old now \<longleftrightarrow> now = old \<or>
     (\<exists>f. now = Some (FileNode f) \<and> rc_key (ie_rcgen I) = Ok (file_bytes f) \<and> file_mode f = 0x180 \<and> file_owner f \<noteq> None)"

lemma self_signed_key: "self_signed R name t = Ok pair \<Longrightarrow> rc_key R = Ok (key_pem pair)"
  by (auto simp: self_signed_def result_simps)

lemma stays_write_self_signed:
  "stays TLS_KEY (key_safe I old) (write_self_signed I n)"
proof (cases "self_signed (ie_rcgen I) n (ie_now I)")
  case (Ok pair)
  have key: "stays TLS_KEY (key_safe I old) (on_disk (write_as (ie_io I) TLS_KEY (key_pem pair) 0x180 (Some owner)))" for owner
    using self_signed_key [OF Ok] by (intro stays_written) (auto simp: path_defs key_safe_def)
  have cert: "stays TLS_KEY (key_safe I old) (on_disk (write_file (ie_io I) TLS_CERT (cert_pem pair) 0x1A4))"
    by (intro stays_write) (auto simp: path_facts)
  show ?thesis
    unfolding write_self_signed_def Ok map_err.simps ibind_Ok
    by (intro stays_ibind stays_read stays_pure key cert stays_set_tls_paths) simp
next
  case (Err e)
  then show ?thesis by (simp add: write_self_signed_def stays_def ibind_def ipure_def)
qed

lemma stays_install:
  assumes keep: "programs_keep I q" and q: "q \<in> {CONFIG_FILE, TLS_CERT, TLS_KEY}"
    and conf: "stays q R (\<lambda>s. if path_exists (fst s) CONFIG_FILE then (Ok (), s)
      else on_disk (write_file (ie_io I) CONFIG_FILE (ie_config I) 0x1A4) s)"
    and cert: "\<And>n. name = Some n \<Longrightarrow> stays q R (write_self_signed I n)"
  shows "stays q R (install I name)"
proof -
  have sysusers: "stays q R (on_disk (write_file (ie_io I) SYSUSERS_FILE (ie_sysusers I) 0x1A4))"
    and unit: "stays q R (on_disk (write_file (ie_io I) UNIT_FILE (ie_unit I) 0x1A4))"
    using q by (auto simp: path_facts intro!: stays_write)
  have "stays q R (case name of None \<Rightarrow> ipure (Ok None) | Some n \<Rightarrow> ibind (write_self_signed I n) (\<lambda>c. ipure (Ok (Some c))))"
    using cert by (auto split: option.splits intro!: frame)
  then show ?thesis
    unfolding install_def
    by (intro stays_ibind stays_read stays_pure stays_copy_binary stays_run keep q sysusers unit conf)
qed

lemma stays_config_other: "q \<in> {TLS_CERT, TLS_KEY} \<Longrightarrow> stays q R (\<lambda>s. if path_exists (fst s) CONFIG_FILE then (Ok (), s)
      else on_disk (write_file X CONFIG_FILE b m) s)"
  by (intro stays_if stays_read stays_write) (auto simp: path_facts)

lemma stays_config_existing: "\<not> R None \<Longrightarrow> stays CONFIG_FILE R (\<lambda>s. if path_exists (fst s) CONFIG_FILE then (Ok (), s)
      else on_disk (write_file X CONFIG_FILE b m) s)"
  by (auto simp: stays_def path_exists_def path_defs)

lemma staysD: "stays q R m \<Longrightarrow> R (D q) \<Longrightarrow> m (D, log) = (r, D', log') \<Longrightarrow> R (D' q)"
  by (auto simp: stays_def) (metis fst_conv snd_conv)

lemma install_checked_first:
  "install_check I name D = Err e \<Longrightarrow> install I name (D, log) = (Err e, D, log)"
  by (simp add: install_def ibind_def)

text \<open>What the checks refuse for a self-signed pair.\<close>

lemma install_check_refuses:
  assumes "foreign_pair I D \<noteq> None \<or> \<not> valid_name (ie_ip I) n \<or>
    (\<exists>c tls. path_exists D CONFIG_FILE \<and> load_installed I D = Ok c \<and> cfg_tls c = Some tls \<and> tls \<noteq> self_signed_files)"
  shows "\<exists>ps. install_check I (Some n) D = Err (CannotInstall ps)"
  using assms by (auto simp: install_check_def config_problems_def Let_def split: option.splits prod.splits if_splits)

section \<open>Which programs run\<close>

definition runs :: "(string \<times> ustr list \<Rightarrow> bool) \<Rightarrow> 'a inst \<Rightarrow> bool" where
  "runs P m \<longleftrightarrow> (\<forall>s. \<exists>ran. snd (snd (m s)) = snd s @ ran \<and> list_all P ran)"

lemma runs_ibind:
  assumes "runs P m" and "\<And>x. runs P (f x)"
  shows "runs P (ibind m f)"
  unfolding runs_def
proof
  fix s :: machine
  obtain r s1 where m: "m s = (r, s1)" by (cases "m s")
  obtain ran where ran: "snd s1 = snd s @ ran" "list_all P ran"
    using assms(1) m unfolding runs_def by (metis snd_conv)
  show "\<exists>ran. snd (snd (ibind m f s)) = snd s @ ran \<and> list_all P ran"
  proof (cases r)
    case (Ok x)
    obtain more where "snd (snd (f x s1)) = snd s1 @ more" "list_all P more"
      using assms(2) unfolding runs_def by metis
    with Ok m ran show ?thesis by (auto simp: ibind_def intro!: exI [of _ "ran @ more"])
  next
    case (Err e)
    with m ran show ?thesis by (auto simp: ibind_def)
  qed
qed

lemma runs_simple:
  "runs P (ipure r)" "runs P (on_disk g)" "runs P (\<lambda>s. (f s, s))" "P (prog, args) \<Longrightarrow> runs P (run_program I prog args)"
  by (auto simp: runs_def ipure_def on_disk_def run_program_def split: prod.splits)

lemma runs_if: "runs P m \<Longrightarrow> runs P m' \<Longrightarrow> runs P (\<lambda>s. if b s then m s else m' s)"
  by (simp add: runs_def)

lemma wait_listening_from:
  "(\<exists>k<fuel. deadline \<le> clk (i + k)) \<Longrightarrow>
   \<exists>b n. wait_listening connects clk deadline i fuel = Some b \<and> i \<le> n \<and> n < i + fuel \<and> (b \<longleftrightarrow> connects n) \<and>
     (\<forall>j. i \<le> j \<and> j < n \<longrightarrow> \<not> connects j \<and> clk j < deadline) \<and> (b \<or> deadline \<le> clk n)"
proof (induction fuel arbitrary: i)
  case (Suc fuel)
  show ?case
  proof (cases "connects i \<or> deadline \<le> clk i")
    case True
    then show ?thesis by (intro exI [of _ "connects i"] exI [of _ i]) auto
  next
    case False
    from Suc.prems obtain k where k: "k < Suc fuel" "deadline \<le> clk (i + k)" by blast
    with False have "k \<noteq> 0" by (cases k) auto
    with k have "\<exists>k<fuel. deadline \<le> clk (Suc i + k)"
      by (intro exI [of _ "k - 1"]) auto
    from Suc.IH [OF this] obtain b n where n: "wait_listening connects clk deadline (Suc i) fuel = Some b"
        "Suc i \<le> n" "n < Suc i + fuel" "b \<longleftrightarrow> connects n"
        "\<forall>j. Suc i \<le> j \<and> j < n \<longrightarrow> \<not> connects j \<and> clk j < deadline" "b \<or> deadline \<le> clk n"
      by blast
    have "\<forall>j. i \<le> j \<and> j < n \<longrightarrow> \<not> connects j \<and> clk j < deadline"
      using n(5) False by (metis le_eq_less_or_eq Suc_leI not_le)
    with n False show ?thesis by (intro exI [of _ b] exI [of _ n]) auto
  qed
qed simp

section \<open>Properties\<close>


text \<open>
  C38: An uninstall without \<^verbatim>\<open>--purge\<close> removes only the unit and the binary: every other file that the system's own programs leave alone is as
  it was, the configuration, the database and the user among them, and the only program it runs is \<^verbatim>\<open>systemctl\<close>. With \<^verbatim>\<open>--purge\<close>
  it also removes \<^verbatim>\<open>/etc/lodger\<close>, \<^verbatim>\<open>/var/lib/lodger\<close>, the sysusers entry and the user, and still nothing else: no disk image and no file
  of libvirt. This holds also when a step fails.
\<close>

theorem uninstall_removes_only_lodger:
  assumes "programs_keep I q" and "q \<notin> {UNIT_FILE, BIN}"
    and "\<not> purge \<or> \<not> below CONFIG_DIR q \<and> \<not> below STATE_DIR q \<and> q \<noteq> SYSUSERS_FILE"
    and "uninstall I purge (D, log) = (r, D', log')"
  shows "D' q = D q \<and> (\<exists>ran. log' = log @ ran \<and>
    list_all (\<lambda>c. fst c = ''systemctl'' \<or> purge \<and> c = (''userdel'', [lit ''lodger''])) ran)"
proof -
  let ?P = "\<lambda>c. fst c = ''systemctl'' \<or> purge \<and> c = (''userdel'', [lit ''lodger''])"
  have "stays q R (uninstall I purge)" for R
    unfolding uninstall_def
    using assms(1-3) by (intro stays_ibind stays_if stays_read stays_pure stays_run)
      (auto intro!: stays_ibind stays_if stays_read stays_pure stays_run stays_remove)
  from staysD [OF this, of "\<lambda>x. x = D q"] assms(4) have "D' q = D q" by simp
  moreover have "runs ?P (uninstall I purge)"
    unfolding uninstall_def
    by (auto intro!: runs_ibind runs_if runs_simple)
  then have "\<exists>ran. snd (snd (uninstall I purge (D, log))) = snd (D, log) @ ran \<and> list_all ?P ran"
    unfolding runs_def by (rule spec)
  ultimately show ?thesis
    using assms(4) by simp
qed

text \<open>
  C39: Waiting for the service ends: if the clock moves on by at least the 200 ms that each round sleeps, the deadline ends
  the loop after at most one round more than fit into the time. It reports success exactly if an attempt before that connected.
\<close>

theorem wait_listening_ends:
  assumes step: "\<And>i. clk i + 200 \<le> clk (Suc i)" and start: "t \<le> clk 0"
  shows "\<exists>b n. wait_listening connects clk (t + timeout) 0 (timeout div 200 + 2) = Some b \<and>
    n \<le> timeout div 200 + 1 \<and> (b \<longleftrightarrow> connects n) \<and> (\<forall>i<n. \<not> connects i \<and> clk i < t + timeout) \<and> (b \<or> clk n \<ge> t + timeout)"
proof -
  have clk: "t + 200 * k \<le> clk k" for k
  proof (induction k)
    case (Suc k)
    then show ?case using step [of k] by simp
  qed (simp add: start)
  have "timeout \<le> 200 * (timeout div 200 + 1)"
    using dividend_less_times_div [of 200 timeout] by simp
  then have "t + timeout \<le> clk (0 + (timeout div 200 + 1))"
    using clk [of "timeout div 200 + 1"] by simp
  then have "\<exists>k<timeout div 200 + 2. t + timeout \<le> clk (0 + k)"
    by (intro exI [of _ "timeout div 200 + 1"]) simp
  from wait_listening_from [OF this, of connects] obtain b n where
      "wait_listening connects clk (t + timeout) 0 (timeout div 200 + 2) = Some b" "n < 0 + (timeout div 200 + 2)"
      "b \<longleftrightarrow> connects n" "\<forall>j. 0 \<le> j \<and> j < n \<longrightarrow> \<not> connects j \<and> clk j < t + timeout" "b \<or> t + timeout \<le> clk n"
    by blast
  then show ?thesis by (intro exI [of _ b] exI [of _ n]) simp
qed

subsection \<open>Witnesses\<close>

definition quiet_io :: io where
  "quiet_io = \<lparr>io_fails = (\<lambda>_ _. None), io_umask = (\<lambda>m. m), io_partial = (\<lambda>_. []), io_kept = (\<lambda>_ _. False), io_utf8 = (\<lambda>b. Some (map unat b))\<rparr>"

definition quiet_install :: install_env where
  "quiet_install = \<lparr>ie_io = quiet_io, ie_run = (\<lambda>_ _ D. (Ok (), D)), ie_accepts = (\<lambda>_. False),
     ie_toml = (\<lambda>_. Ok config_file_default), ie_uri = (\<lambda>_. None), ie_edit = (\<lambda>t _. Ok t), ie_encode = map of_nat,
     ie_tls = (\<lambda>_. \<lparr>pem_certs = (\<lambda>_. Ok []), pem_key = (\<lambda>_. Ok []), tls_versions = Ok (), single_cert = (\<lambda>_ _. Ok ())\<rparr>),
     ie_subject = (\<lambda>_. None), ie_ip = (\<lambda>_. None),
     ie_rcgen = \<lparr>rc_key = Ok [9], rc_params = (\<lambda>_. Ok ()), rc_sign = (\<lambda>_ _. Ok ([1], [2])), rc_sha256 = id, rc_end = (\<lambda>_. Ok 0)\<rparr>,
     ie_now = 0, ie_exe = Ok [7], ie_unit = [], ie_sysusers = [], ie_config = []\<rparr>"

text \<open>A host with libvirt and systemd, and with a certificate of the operator in Lodger's place.\<close>

definition example_disk :: disk where
  "example_disk =
     [SYSTEMD_RUNNING \<mapsto> DirNode 0x1ED, [''run'', ''libvirt'', ''libvirt-sock''] \<mapsto> FileNode \<lparr>file_bytes = [], file_mode = 0x1B6, file_owner = None\<rparr>,
      GROUP_FILE \<mapsto> FileNode \<lparr>file_bytes = map of_nat (lit ''libvirt:x:100:''), file_mode = 0x1A4, file_owner = None\<rparr>,
      TLS_CERT \<mapsto> FileNode \<lparr>file_bytes = [1], file_mode = 0x1A4, file_owner = None\<rparr>]"

lemma quiet_programs: "programs_keep quiet_install q"
  by (simp add: programs_keep_def quiet_install_def)


theorem uninstall_removes_only_lodger_witness:
  "\<exists>r D' ran. uninstall quiet_install False (example_disk, []) = (r, D', ran) \<and> D' TLS_CERT = example_disk TLS_CERT \<and>
     list_all (\<lambda>c. fst c = ''systemctl'') ran"
proof -
  obtain r D' log' where run: "uninstall quiet_install False (example_disk, []) = (r, D', log')"
    by (metis prod.exhaust)
  have "TLS_CERT \<notin> {UNIT_FILE, BIN}" by (simp add: path_defs)
  from uninstall_removes_only_lodger [OF quiet_programs this _ run] run show ?thesis by simp
qed

theorem wait_listening_ends_witness:
  "\<exists>b. wait_listening (\<lambda>i. i = 3) (\<lambda>i. 250 * i) (0 + START_TIMEOUT) 0 (START_TIMEOUT div 200 + 2) = Some b"
  using wait_listening_ends [of "\<lambda>i. 250 * i" 0 "\<lambda>i. i = 3" START_TIMEOUT] by auto

end
