(* ===== verification/Doctor.thy ===== *)
theory Doctor
  imports Host_Files Rest_Api
begin

text \<open>
  \<^verbatim>\<open>lodger/src/doctor.rs\<close>: the checks of \<^verbatim>\<open>lodger doctor\<close>. It only reads: the disk of theory \<open>Host_Files\<close>, and for the TLS pair the resolution of
  links and the metadata of files, which are arguments. A reason is the message with the values put into it.
\<close>

section \<open>Checks\<close>

datatype Outcome = Pass | Fail | Skip

record Check =
  ck_name :: string
  ck_outcome :: Outcome
  ck_reason :: "string \<times> ustr list"
  ck_fix :: "string list"

definition check_pass :: "string \<Rightarrow> string \<times> ustr list \<Rightarrow> Check" where
  "check_pass name why = \<lparr>ck_name = name, ck_outcome = Pass, ck_reason = why, ck_fix = []\<rparr>"

definition check_skip :: "string \<Rightarrow> string \<times> ustr list \<Rightarrow> Check" where
  "check_skip name why = \<lparr>ck_name = name, ck_outcome = Skip, ck_reason = why, ck_fix = []\<rparr>"

definition check_fail :: "string \<Rightarrow> string \<times> ustr list \<Rightarrow> string list \<Rightarrow> Check" where
  "check_fail name why fix_with = \<lparr>ck_name = name, ck_outcome = Fail, ck_reason = why, ck_fix = fix_with\<rparr>"

definition doctor_sockets :: "path list" where
  "doctor_sockets = [[''run'', ''libvirt'', ''libvirt-sock''], [''run'', ''libvirt'', ''virtqemud-sock'']]"

definition check_socket :: "disk \<Rightarrow> Check" where
  "check_socket D =
     (case find (path_exists D) doctor_sockets of
        Some found \<Rightarrow> check_pass ''libvirt socket'' (''{} exists'', [arg found])
      | None \<Rightarrow> check_fail ''libvirt socket'' (''there is no libvirt socket in /run/libvirt, so libvirt does not run'', [])
          [''sudo systemctl enable --now libvirtd.socket  # or virtqemud.socket with the modular daemons''])"

text \<open>The fields of the line of a name in \<^verbatim>\<open>/etc/passwd\<close> or \<^verbatim>\<open>/etc/group\<close>.\<close>

definition passwd_entry :: "ustr \<Rightarrow> string \<Rightarrow> ustr list option" where
  "passwd_entry text name = find (\<lambda>fs. hd fs = lit name) (map (split_on 58) (str_lines text))"

definition get :: "'a list \<Rightarrow> nat \<Rightarrow> 'a option" where
  "get xs i = (if i < length xs then Some (xs ! i) else None)"

definition lists_lodger :: "ustr list \<Rightarrow> bool" where
  "lists_lodger fs = (case get fs 3 of Some members \<Rightarrow> list_ex (\<lambda>m. m = lit ''lodger'') (split_on 44 members) | None \<Rightarrow> False)"

definition check_group :: "io \<Rightarrow> disk \<Rightarrow> Check" where
  "check_group X D =
     (case passwd_entry (read_or_empty X D [''etc'', ''group'']) ''libvirt'' of
        None \<Rightarrow> check_fail ''libvirt group'' (''the libvirt group does not exist. The libvirt daemon package creates it'', []) []
      | Some libvirt \<Rightarrow>
      case passwd_entry (read_or_empty X D [''etc'', ''passwd'']) ''lodger'' of
        None \<Rightarrow> check_fail ''libvirt group'' (''the lodger user does not exist, so the service cannot run. `lodger install` creates it'', [])
          [''sudo lodger install'']
      | Some lodger \<Rightarrow>
          if get lodger 3 = get libvirt 2 \<or> lists_lodger libvirt
          then check_pass ''libvirt group'' (''the lodger user is a member of the libvirt group'', [])
          else check_fail ''libvirt group'' (''the lodger user is not a member of the libvirt group, so it cannot reach libvirt'', [])
            [''sudo usermod -aG libvirt lodger'', ''sudo systemctl restart lodger''])"

text \<open>A line of an AppArmor file that lets QEMU read and write \<^verbatim>\<open>/dev/vhost-net\<close>.\<close>

definition vhost_line :: "ustr \<Rightarrow> bool" where
  "vhost_line line =
     (let rule = trim (hd (split_on 35 line)) in
      if \<not> ends_with [44] rule then False
      else case split_whitespace (butlast rule) of
        path # perms # _ \<Rightarrow> path = lit ''/dev/vhost-net'' \<and> 114 \<in> set perms \<and> 119 \<in> set perms
      | _ \<Rightarrow> False)"

definition has_vhost_rule :: "ustr \<Rightarrow> bool" where
  "has_vhost_rule text = list_ex vhost_line (str_lines text)"

definition check_apparmor :: "io \<Rightarrow> disk \<Rightarrow> Check" where
  "check_apparmor X D =
     (if trim (read_or_empty X D [''sys'', ''module'', ''apparmor'', ''parameters'', ''enabled'']) \<noteq> lit ''Y''
      then check_skip ''AppArmor vhost rule'' (''AppArmor is not active'', [])
      else case read_to_string X D [''etc'', ''apparmor.d'', ''abstractions'', ''libvirt-qemu''] of
        Err _ \<Rightarrow> check_skip ''AppArmor vhost rule'' (''libvirt uses no AppArmor abstraction on this host'', [])
      | Ok abstraction \<Rightarrow>
          if has_vhost_rule abstraction \<or>
            has_vhost_rule (read_or_empty X D [''etc'', ''apparmor.d'', ''local'', ''abstractions'', ''libvirt-qemu''])
          then check_pass ''AppArmor vhost rule'' (''AppArmor lets QEMU open /dev/vhost-net, so NIC hot-plug works'', [])
          else check_fail ''AppArmor vhost rule'' (''AppArmor blocks /dev/vhost-net, so a NIC hot-plug fails. Add the rule `/dev/vhost-net rw,` to /etc/apparmor.d/local/abstractions/libvirt-qemu; a VM gets it at its next start'', [])
            [''sudo mkdir -p /etc/apparmor.d/local/abstractions'', ''printf '' @ [CHR 0x27, CHR 0x5C] @ ''n/dev/vhost-net rw,'' @ [CHR 0x5C] @ ''n'' @ [CHR 0x27] @
               '' | sudo tee -a /etc/apparmor.d/local/abstractions/libvirt-qemu''])"

definition check_selinux :: "io \<Rightarrow> disk \<Rightarrow> Check" where
  "check_selinux X D =
     (case read_to_string X D [''sys'', ''fs'', ''selinux'', ''enforce''] of
        Err _ \<Rightarrow> check_skip ''SELinux virt_use_nfs'' (''SELinux is not active'', [])
      | Ok enforce \<Rightarrow>
      if trim enforce = lit ''0'' then check_pass ''SELinux virt_use_nfs'' (''SELinux is permissive, so it blocks no NFS disk'', [])
      else case read_to_string X D [''sys'', ''fs'', ''selinux'', ''booleans'', ''virt_use_nfs''] of
        Err _ \<Rightarrow> check_skip ''SELinux virt_use_nfs'' (''the SELinux policy has no virt_use_nfs boolean'', [])
      | Ok v \<Rightarrow>
          if get (split_whitespace v) 0 = Some (lit ''1'')
          then check_pass ''SELinux virt_use_nfs'' (''virt_use_nfs is on, so VMs can use disks on NFS'', [])
          else check_fail ''SELinux virt_use_nfs'' (''virt_use_nfs is off, so VMs cannot use disks on NFS. Ignore this if no storage pool is on NFS'', [])
            [''sudo setsebool -P virt_use_nfs 1''])"

definition host_checks :: "io \<Rightarrow> disk \<Rightarrow> Check list" where
  "host_checks X D = [check_socket D, check_group X D, check_apparmor X D, check_selinux X D]"

section \<open>The TLS pair\<close>

record Account_ids =
  ac_uid :: nat
  ac_gids :: "nat list"

definition parse_u32 :: "ustr \<Rightarrow> nat option" where
  "parse_u32 = parse_uint (2 ^ 32 - 1)"

definition service_account :: "io \<Rightarrow> disk \<Rightarrow> Account_ids option" where
  "service_account X D =
     Option.bind (passwd_entry (read_or_empty X D [''etc'', ''passwd'']) ''lodger'') (\<lambda>user.
     Option.bind (Option.bind (get user 3) parse_u32) (\<lambda>primary.
     Option.bind (Option.bind (get user 2) parse_u32) (\<lambda>uid.
       Some \<lparr>ac_uid = uid,
         ac_gids = primary # List.map_filter (\<lambda>fs. if lists_lodger fs then Option.bind (get fs 2) parse_u32 else None)
           (map (split_on 58) (str_lines (read_or_empty X D [''etc'', ''group''])))\<rparr>)))"

text \<open>A path by its components; \<open>rooted\<close>: it starts at the root.\<close>

record upath =
  rooted :: bool
  comps :: "ustr list"

record meta =
  md_uid :: nat
  md_gid :: nat
  md_mode :: nat

record fs_view =
  fv_canonical :: "upath \<Rightarrow> (upath, ustr) result"
  fv_absolute :: "upath \<Rightarrow> upath option"
  fv_meta :: "upath \<Rightarrow> (meta, ustr) result"
  fv_path :: "ustr \<Rightarrow> upath"
  fv_show :: "upath \<Rightarrow> ustr"

text \<open>The proper ancestors, nearest first, without the empty path.\<close>

definition folders_above :: "upath \<Rightarrow> upath list" where
  "folders_above p =
     filter (\<lambda>d. rooted d \<or> comps d \<noteq> [])
       (map (\<lambda>k. p\<lparr>comps := take k (comps p)\<rparr>) (rev [0..<length (comps p)]))"

definition HIDDEN_BY_UNIT :: "string list list" where
  "HIDDEN_BY_UNIT = [[''home''], [''root''], [''run'', ''user''], [''tmp''], [''var'', ''tmp'']]"

definition hidden_by_unit :: "upath \<Rightarrow> string list option" where
  "hidden_by_unit p = find (\<lambda>tree. rooted p \<and> starts_with (map lit tree) (comps p)) HIDDEN_BY_UNIT"

text \<open>The mode bits that count for the account: the owner's, the group's or the others'. Bit 0 is execute, bit 2 is read.\<close>

definition allows :: "Account_ids \<Rightarrow> meta \<Rightarrow> nat \<Rightarrow> bool" where
  "allows acc m b =
     bit (md_mode m) (b + (if md_uid m = ac_uid acc then 6 else if md_gid m \<in> set (ac_gids acc) then 3 else 0))"

fun closed_folder :: "fs_view \<Rightarrow> Account_ids \<Rightarrow> ustr \<Rightarrow> upath list \<Rightarrow> (string \<times> ustr list) option" where
  "closed_folder V acc shown [] = None"
| "closed_folder V acc shown (d # ds) =
     (case fv_meta V d of
        Ok m \<Rightarrow> if allows acc m 0 then closed_folder V acc shown ds else Some (''the lodger user cannot open the folder {}, so it cannot read {}'', [fv_show V d, shown])
      | Err e \<Rightarrow> Some (''cannot read {}: {}'', [fv_show V d, e]))"

definition unreadable :: "fs_view \<Rightarrow> Account_ids \<Rightarrow> upath \<Rightarrow> (string \<times> ustr list) option" where
  "unreadable V acc p =
     (case fv_canonical V p of
        Err e \<Rightarrow> Some (''cannot read {}: {}'', [fv_show V p, e])
      | Ok resolved \<Rightarrow>
      let written = unwrap_or p (fv_absolute V p) in
      case find (\<lambda>seen. hidden_by_unit seen \<noteq> None) [written, resolved] of
        Some seen \<Rightarrow> Some (''{} is below {}, which the service cannot see (ProtectHome=yes and PrivateTmp=yes in its unit)'',
          [fv_show V seen, arg (the (hidden_by_unit seen))])
      | None \<Rightarrow>
      case closed_folder V acc (fv_show V p) (folders_above p @ folders_above resolved) of
        Some why \<Rightarrow> Some why
      | None \<Rightarrow>
      case fv_meta V resolved of
        Ok m \<Rightarrow> if allows acc m 2 then None else Some (''the lodger user cannot read {}'', [fv_show V p])
      | Err e \<Rightarrow> Some (''cannot read {}: {}'', [fv_show V p, e]))"

definition FIX :: string where
  "FIX = ''replace the certificate and key named by tls_cert and tls_key in /etc/lodger/config.toml, then run: sudo systemctl restart lodger''"

definition READ_FIX :: string where
  "READ_FIX = ''copy the pair to /etc/lodger/tls/, give the key to the lodger user (sudo chown lodger: key.pem, sudo chmod 0600 key.pem), set tls_cert and tls_key to the copies, then run: sudo systemctl restart lodger''"

definition NEW_PAIR :: string where
  "NEW_PAIR = ''or make a new self-signed pair (the browser then shows a new fingerprint). If tls_cert and tls_key name your own certificate, first remove them and move that pair away, then run: sudo lodger install --self-signed <ip-or-name>''"

definition TLS_WARNING :: int where
  "TLS_WARNING = 30 * 24 * 60 * 60"

record doctor_env =
  de_io :: io
  de_disk :: disk
  de_view :: fs_view
  de_tls :: tls_lib
  de_not_after :: "ustr \<Rightarrow> (int, TlsError) result"
  de_show_tls :: "TlsError \<Rightarrow> ustr"
  de_show_time :: "int \<Rightarrow> ustr"
  de_now :: int

definition tls_certificate :: "doctor_env \<Rightarrow> TlsFiles option \<Rightarrow> Check" where
  "tls_certificate E tls =
     (case tls of
        None \<Rightarrow> check_skip ''TLS certificate'' (''TLS is off: the configuration sets no tls_cert and tls_key'', [])
      | Some files \<Rightarrow>
      case server_config (de_tls E) files of
        Err e \<Rightarrow> check_fail ''TLS certificate'' (''{}'', [de_show_tls E e]) [FIX, NEW_PAIR]
      | Ok _ \<Rightarrow>
      case (case service_account (de_io E) (de_disk E) of
              None \<Rightarrow> []
            | Some acc \<Rightarrow> List.map_filter (\<lambda>p. unreadable (de_view E) acc (fv_path (de_view E) p)) [tls_cert files, tls_key files]) of
        why # _ \<Rightarrow> check_fail ''TLS certificate'' why [READ_FIX]
      | [] \<Rightarrow>
      case de_not_after E (tls_cert files) of
        Err e \<Rightarrow> check_fail ''TLS certificate'' (''{}'', [de_show_tls E e]) [FIX, NEW_PAIR]
      | Ok end_time \<Rightarrow>
          if end_time \<le> de_now E
          then check_fail ''TLS certificate'' (''{} expired on {}'', [tls_cert files, de_show_time E end_time])
            [FIX, NEW_PAIR]
          else if end_time \<le> de_now E + TLS_WARNING
          then check_fail ''TLS certificate'' (''{} expires on {}, in less than 30 days'', [tls_cert files, de_show_time E end_time])
            [FIX, NEW_PAIR]
          else check_pass ''TLS certificate'' (''{} is valid until {}'', [tls_cert files, de_show_time E end_time]))"

section \<open>libvirt\<close>

definition REVERT_VERSION :: "nat \<times> nat \<times> nat" where
  "REVERT_VERSION = (9, 9, 0)"

definition parse_version :: "ustr \<Rightarrow> (nat \<times> nat \<times> nat) option" where
  "parse_version text =
     (case map parse_u32 (split_on 46 text) of
        [Some a, Some b, Some c] \<Rightarrow> Some (a, b, c)
      | _ \<Rightarrow> None)"

text \<open>The order of tuples.\<close>

fun version_le :: "nat \<times> nat \<times> nat \<Rightarrow> nat \<times> nat \<times> nat \<Rightarrow> bool" where
  "version_le (a, b, c) (x, y, z) \<longleftrightarrow> a < x \<or> a = x \<and> (b < y \<or> b = y \<and> c \<le> z)"

definition revert :: "ustr \<Rightarrow> Check" where
  "revert version =
     (case parse_version version of
        Some v \<Rightarrow>
          if version_le REVERT_VERSION v then check_pass ''snapshot revert'' (''libvirt {} reverts external snapshots'', [version])
          else check_fail ''snapshot revert'' (''libvirt {} cannot revert external snapshots, so Lodger disables Revert. It needs libvirt 9.9.0 or newer'', [version]) []
      | None \<Rightarrow> check_fail ''snapshot revert'' (''cannot read the libvirt version {}'', [version]) [])"

text \<open>\<open>info\<close>: what the connection answers, or its error as text.\<close>

definition libvirt_checks :: "ustr \<Rightarrow> (HostInfo, ustr) result \<Rightarrow> Check list" where
  "libvirt_checks uri info =
     (case info of
        Ok info \<Rightarrow> [check_pass ''libvirt connection'' (''{} answers with libvirt {}'', [uri, hi_libvirt_version info]), revert (hi_libvirt_version info)]
      | Err e \<Rightarrow>
          [check_fail ''libvirt connection'' (''cannot connect to {}: {}'', [uri, e])
             [''sudo lodger doctor  # root, or a member of the libvirt group, can connect''],
           check_skip ''snapshot revert'' (''the libvirt version needs a connection'', [])])"

section \<open>The report\<close>

text \<open>A message with its values in the places of the braces.\<close>

fun fill :: "string \<Rightarrow> ustr list \<Rightarrow> ustr" where
  "fill [] vs = []"
| "fill [c] vs = [of_char c]"
| "fill (c # d # cs) vs =
     (case vs of
        v # vs' \<Rightarrow> if c = CHR ''{'' \<and> d = CHR ''}'' then v @ fill cs vs' else of_char c # fill (d # cs) vs
      | [] \<Rightarrow> of_char c # fill (d # cs) vs)"

definition outcome_label :: "Outcome \<Rightarrow> string" where
  "outcome_label o' = (case o' of Pass \<Rightarrow> ''PASS'' | Fail \<Rightarrow> ''FAIL'' | Skip \<Rightarrow> ''SKIP'')"

definition doctor_report :: "Check list \<Rightarrow> ustr" where
  "doctor_report checks = concat (map (\<lambda>c.
     lit (outcome_label (ck_outcome c)) @ lit ''  '' @ lit (ck_name c) @ lit '': '' @ fill (fst (ck_reason c)) (snd (ck_reason c)) @ [10] @
     concat (map (\<lambda>f. lit ''      fix: '' @ lit f @ [10]) (ck_fix c))) checks)"

definition count :: "Outcome \<Rightarrow> Check list \<Rightarrow> nat" where
  "count o' checks = length (filter (\<lambda>c. ck_outcome c = o') checks)"

definition doctor_summary :: "Check list \<Rightarrow> ustr" where
  "doctor_summary checks =
     dec (count Pass checks) @ lit '' passed, '' @ dec (count Fail checks) @ lit '' failed, '' @ dec (count Skip checks) @ lit '' skipped''"

datatype DoctorError = DoctorConfig ConfigError | NoRuntime ustr | ChecksFailed ustr

definition doctor_run ::
    "doctor_env \<Rightarrow> (Config, ConfigError) result \<Rightarrow> (unit, ustr) result \<Rightarrow> (ustr \<Rightarrow> (HostInfo, ustr) result)
      \<Rightarrow> (ustr, DoctorError) result \<times> Check list" where
  "doctor_run E config runtime connect =
     (case config of
        Err e \<Rightarrow> (Err (DoctorConfig e), [])
      | Ok c \<Rightarrow>
      case runtime of
        Err e \<Rightarrow> (Err (NoRuntime e), [])
      | Ok _ \<Rightarrow>
          let checks = host_checks (de_io E) (de_disk E) @ [tls_certificate E (cfg_tls c)] @ libvirt_checks (cfg_uri c) (connect (cfg_uri c)) in
          (if count Fail checks = 0 then Ok (doctor_summary checks) else Err (ChecksFailed (doctor_summary checks)), checks))"

section \<open>Properties\<close>

text \<open>
  What it takes to read a file: the path resolves, neither it nor its target is hidden from the service, every folder above both lets the account
  through, and the file itself may be read.
\<close>

definition readable :: "fs_view \<Rightarrow> Account_ids \<Rightarrow> upath \<Rightarrow> bool" where
  "readable V acc p \<longleftrightarrow>
     (\<exists>t m. fv_canonical V p = Ok t \<and>
        hidden_by_unit (unwrap_or p (fv_absolute V p)) = None \<and> hidden_by_unit t = None \<and>
        (\<forall>d\<in>set (folders_above p) \<union> set (folders_above t). \<exists>m. fv_meta V d = Ok m \<and> allows acc m 0) \<and>
        fv_meta V t = Ok m \<and> allows acc m 2)"

lemma closed_folder_None:
  "closed_folder V acc shown ds = None \<longleftrightarrow> (\<forall>d\<in>set ds. \<exists>m. fv_meta V d = Ok m \<and> allows acc m 0)"
  by (induction ds) (auto split: result.splits)

lemma unreadable_None: "unreadable V acc p = None \<longleftrightarrow> readable V acc p"
proof (cases "fv_canonical V p")
  case (Ok t)
  show ?thesis
    by (cases "fv_meta V t"; cases "closed_folder V acc (fv_show V p) (folders_above p @ folders_above t)")
      (auto simp: unreadable_def readable_def Ok Let_def closed_folder_None [of V acc "fv_show V p", symmetric] ball_Un
        simp del: set_append simp flip: set_append split: option.splits)
qed (simp add: unreadable_def readable_def)

lemma map_filter_Nil: "List.map_filter f xs = [] \<longleftrightarrow> (\<forall>x\<in>set xs. f x = None)"
  by (induction xs) (auto simp: List.map_filter_simps split: option.splits)


lemma version_order:
  fixes a b c :: nat
  assumes "b < 1000" and "c < 1000"
  shows "version_le (9, 9, 0) (a, b, c) \<longleftrightarrow> 9009000 \<le> a * 1000000 + b * 1000 + c"
proof -
  have "a < 9 \<or> a = 9 \<or> 10 \<le> a" by linarith
  with assms show ?thesis by auto
qed

text \<open>
  The version that libvirt reports survives its way through text: for every 32-bit version number, what the host report prints is read back
  as the same three numbers, and the snapshot check passes exactly from libvirt 9.9.0 on.
\<close>

theorem doctor_version_roundtrip:
  fixes v :: "32 word"
  shows "parse_version (version_text (unat v)) = Some (unat v div 1000000, unat v div 1000 mod 1000, unat v mod 1000) \<and>
    (ck_outcome (revert (version_text (unat v))) = Pass \<longleftrightarrow> 9009000 \<le> unat v)"
proof -
  have v: "unat v < 2 ^ 32" using unsigned_less [of v, where ?'a = nat] by simp
  let ?a = "unat v div 1000000" and ?b = "unat v div 1000 mod 1000" and ?c = "unat v mod 1000"
  have bounds: "?a \<le> 2 ^ 32 - 1" "?b \<le> 2 ^ 32 - 1" "?c \<le> 2 ^ 32 - 1"
    using v by (auto intro: order_trans [OF less_imp_le [OF mod_less_divisor]])
  have dots: "46 \<notin> set (dec n)" for n
    using dec_digits by (fastforce simp: is_digit_def)
  have "split_on 46 (version_text (unat v)) = [dec ?a, dec ?b, dec ?c]"
    by (simp add: version_text_def lit_def split_on_append_sep split_on_no_sep dots)
  then have parsed: "parse_version (version_text (unat v)) = Some (?a, ?b, ?c)"
    using bounds by (simp add: parse_version_def parse_u32_def parse_uint_dec)
  have "version_le REVERT_VERSION (?a, ?b, ?c) \<longleftrightarrow> 9009000 \<le> unat v"
  proof -
    have "unat v = unat v div 1000 * 1000 + ?c" by simp
    moreover have "unat v div 1000 = ?a * 1000 + ?b"
    proof -
      have "unat v div 1000000 = unat v div 1000 div 1000"
        using div_mult2_eq [of "unat v" 1000 1000] by simp
      then show ?thesis using div_mult_mod_eq [of "unat v div 1000" 1000] by simp
    qed
    ultimately have "unat v = ?a * 1000000 + ?b * 1000 + ?c" by linarith
    with version_order [of ?b ?c ?a] show ?thesis by (simp add: REVERT_VERSION_def)
  qed
  with parsed show ?thesis
    by (simp add: revert_def check_pass_def check_fail_def)
qed

end
