(* ===== verification/Main_Cli.thy ===== *)
theory Main_Cli
  imports Admin Startup Install Doctor
begin

text \<open>
  \<^verbatim>\<open>lodger/src/cli.rs\<close>, \<^verbatim>\<open>lodger/src/main.rs\<close> and the version of \<^verbatim>\<open>lodger-virt/src/lib.rs\<close>: the commands and what the process does for each. The crate \<^verbatim>\<open>clap\<close> makes
  a \<open>Command\<close> out of the arguments; everything after that is here, over the commands of the other theories. The
  state of the host is its machine and the database.
\<close>

section \<open>Model\<close>

datatype Command =
    CmdServe "ustr option" "SocketAddr option" "ustr option" "ustr option"
  | CmdAdmin AdminAction "ustr option" "ustr option"
  | CmdDoctor "ustr option"
  | CmdInstall "ustr option"
  | CmdUninstall bool
  | CmdVersion

definition no_overrides :: Overrides where
  "no_overrides = \<lparr>o_config = None, o_listen = None, o_uri = None, o_state_dir = None\<rparr>"

text \<open>\<^verbatim>\<open>client_library_version\<close>: libvirt packs its version into one number.\<close>

definition client_library_version :: "(32 word, virt_error) result \<Rightarrow> (nat \<times> nat \<times> nat, virt_error) result" where
  "client_library_version v = map_ok (\<lambda>w. let n = unat w in (n div 1000000, n div 1000 mod 1000, n mod 1000)) v"

definition version_line :: "ustr \<Rightarrow> (32 word, virt_error) result \<Rightarrow> (ustr, ustr) result" where
  "version_line pkg_version v =
     (case client_library_version v of
        Err e \<Rightarrow> Err (lit ''cannot read the libvirt client version: '' @ message e)
      | Ok (major, minor, micro) \<Rightarrow>
          Ok (lit ''lodger '' @ pkg_version @ lit '' (libvirt client '' @ dec major @ lit ''.'' @ dec minor @ lit ''.'' @ dec micro @ lit '')''))"

text \<open>What the process finds on the host; \<open>mw_fuel\<close> bounds the rounds of the wait for the service.\<close>

record main_world =
  mw_conf :: conf
  mw_env :: env
  mw_read :: read_file
  mw_toml :: toml
  mw_uri :: "ustr \<Rightarrow> uri option"
  mw_state_dir :: "ustr option"
  mw_status :: "(ustr, io_error) result"
  mw_runtime :: "(unit, ustr) result"
  mw_admin :: admin_world
  mw_serve :: serve_world
  mw_doctor :: doctor_env
  mw_connect :: "ustr \<Rightarrow> (HostInfo, ustr) result"
  mw_install :: install_env
  mw_connects :: "nat \<Rightarrow> bool"
  mw_clock :: "nat \<Rightarrow> nat"
  mw_fuel :: nat
  mw_version :: "(32 word, virt_error) result"
  mw_pkg :: ustr

datatype main_output =
    OutVersion ustr
  | OutDoctor ustr
  | OutInstalled Installed
  | OutUninstalled bool
  | OutAdmin admin_done
  | OutNothing

datatype main_error =
    VersionFailed ustr
  | DoctorFailed DoctorError
  | CommandFailed CommandError
  | AdminFailed AdminError
  | ConfigFailed ConfigError
  | RuntimeFailed ustr
  | ServeFailed ServeError

type_synonym host = "machine \<times> app"

definition serve_command :: "main_world \<Rightarrow> Overrides \<Rightarrow> (main_output, main_error) result \<times> start_event list" where
  "serve_command W ov =
     (case config_load (mw_read W) (mw_toml W) (mw_uri W) ov (mw_state_dir W) of
        Err e \<Rightarrow> (Err (ConfigFailed e), [])
      | Ok c \<Rightarrow>
      case mw_runtime W of
        Err e \<Rightarrow> (Err (RuntimeFailed e), [])
      | Ok _ \<Rightarrow> (case serve (mw_conf W) (mw_serve W) c of (r, evs) \<Rightarrow> (map_ok (\<lambda>_. OutNothing) (map_err ServeFailed r), evs)))"

definition admin_command ::
    "main_world \<Rightarrow> AdminAction \<Rightarrow> Overrides \<Rightarrow> app \<Rightarrow> (main_output, main_error) result \<times> app" where
  "admin_command W act ov a =
     (case admin_run (mw_conf W) (mw_env W)
        ((mw_admin W)\<lparr>w_status := mw_status W, w_runtime := mw_runtime W,
           w_config := config_load (mw_read W) (mw_toml W) (mw_uri W) ov (mw_state_dir W)\<rparr>) act a of
        (r, a) \<Rightarrow> (map_ok OutAdmin (map_err AdminFailed r), a))"

text \<open>\<open>None\<close>: the command has not ended within the fuel. A server's requests are the router's; here it only starts.\<close>

definition run_command ::
    "main_world \<Rightarrow> Command \<Rightarrow> host \<Rightarrow> (main_output, main_error) result option \<times> start_event list \<times> host" where
  "run_command W cmd st =
     (case st of (s, a) \<Rightarrow>
      case cmd of
        CmdVersion \<Rightarrow> (Some (map_ok OutVersion (map_err VersionFailed (version_line (mw_pkg W) (mw_version W)))), [], s, a)
      | CmdDoctor config \<Rightarrow>
          (Some (map_ok OutDoctor (map_err DoctorFailed (fst (doctor_run (mw_doctor W)
             (config_load (mw_read W) (mw_toml W) (mw_uri W) (no_overrides\<lparr>o_config := config\<rparr>) None) (mw_runtime W) (mw_connect W))))), [], s, a)
      | CmdInstall cert_name \<Rightarrow>
          (case run_install (mw_status W) (mw_install W) (mw_connects W) (mw_clock W) (mw_clock W 0) (mw_fuel W) cert_name s of
             (r, s) \<Rightarrow> (map_option (\<lambda>r. map_ok OutInstalled (map_err CommandFailed r)) r, [], s, a))
      | CmdUninstall purge \<Rightarrow>
          (case run_uninstall (mw_status W) (mw_install W) purge s of
             (r, s) \<Rightarrow> (Some (map_ok (\<lambda>_. OutUninstalled purge) (map_err CommandFailed r)), [], s, a))
      | CmdAdmin act config state_dir \<Rightarrow>
          (case admin_command W act (no_overrides\<lparr>o_config := config, o_state_dir := state_dir\<rparr>) a of
             (r, a) \<Rightarrow> (Some r, [], s, a))
      | CmdServe config listen uri state_dir \<Rightarrow>
          (case serve_command W \<lparr>o_config = config, o_listen = listen, o_uri = uri, o_state_dir = state_dir\<rparr> of
             (r, evs) \<Rightarrow> (Some r, evs, s, a)))"

text \<open>\<^verbatim>\<open>main\<close>: an error goes to stderr and the exit status is 1.\<close>

definition exit_status :: "(main_output, main_error) result option \<Rightarrow> nat option" where
  "exit_status r = map_option (\<lambda>r. case r of Ok _ \<Rightarrow> 0 | Err _ \<Rightarrow> 1) r"

section \<open>Properties\<close>

definition is_root :: "main_world \<Rightarrow> bool" where
  "is_root W \<longleftrightarrow> Option.bind (ok (mw_status W)) effective_uid = Some 0"

lemma flags_win:
  assumes "config_load rd toml uri ov sd = Ok c"
  shows "o_listen ov = Some l \<Longrightarrow> cfg_listen c = l" and "o_uri ov = Some u \<Longrightarrow> cfg_uri c = u"
    and "o_state_dir ov = Some d \<Longrightarrow> cfg_state_dir c = d"
  using assms by (auto simp: config_load_def config_load_with_default_def and_then_Ok or_else_def unwrap_or_def)

lemma require_root_denied: "\<not> is_root W \<Longrightarrow> require_root (mw_status W) c = Err (NotRoot c)"
  by (simp add: is_root_def require_root_def)

text \<open>
  A process that is not root changes nothing through a command: \<^verbatim>\<open>admin\<close>, \<^verbatim>\<open>install\<close> and \<^verbatim>\<open>uninstall\<close> end with
  exit status 1 and leave the machine and the database as they were. For root too, \<^verbatim>\<open>admin\<close> touches only the database, \<^verbatim>\<open>install\<close> and \<^verbatim>\<open>uninstall\<close>
  only the machine, and \<^verbatim>\<open>doctor\<close> and \<^verbatim>\<open>version\<close> neither. A start with a configuration that
  cannot be loaded ends with exit status 1 before anything is opened, and each flag of \<^verbatim>\<open>serve\<close> wins over the configuration file. Otherwise \<^verbatim>\<open>serve\<close>
  ends with status 0 exactly if the server ran and was stopped without an error.
\<close>

theorem commands_need_root:
  "case run_command W cmd (s, a) of (r, evs, s', a') \<Rightarrow>
     (case cmd of
        CmdServe config listen uri state_dir \<Rightarrow>
          (case config_load (mw_read W) (mw_toml W) (mw_uri W)
              \<lparr>o_config = config, o_listen = listen, o_uri = uri, o_state_dir = state_dir\<rparr> (mw_state_dir W) of
             Err e \<Rightarrow> exit_status r = Some 1 \<and> evs = []
           | Ok c \<Rightarrow> (case listen of None \<Rightarrow> True | Some l \<Rightarrow> cfg_listen c = l) \<and> (case uri of None \<Rightarrow> True | Some u \<Rightarrow> cfg_uri c = u) \<and>
               (case state_dir of None \<Rightarrow> True | Some d \<Rightarrow> cfg_state_dir c = d) \<and>
               (exit_status r = Some 0 \<longleftrightarrow> mw_runtime W = Ok () \<and> fst (serve (mw_conf W) (mw_serve W) c) = Ok ()))
      | CmdVersion \<Rightarrow> s' = s \<and> a' = a
      | CmdDoctor _ \<Rightarrow> s' = s \<and> a' = a
      | CmdAdmin _ _ _ \<Rightarrow> s' = s \<and> (if is_root W then True else a' = a \<and> exit_status r = Some 1)
      | CmdInstall _ \<Rightarrow> a' = a \<and> (if is_root W then True else s' = s \<and> exit_status r = Some 1)
      | CmdUninstall _ \<Rightarrow> a' = a \<and> (if is_root W then True else s' = s \<and> exit_status r = Some 1))"
proof (cases cmd)
  case (CmdServe config listen uri state_dir)
  let ?ov = "\<lparr>o_config = config, o_listen = listen, o_uri = uri, o_state_dir = state_dir\<rparr>"
  show ?thesis
  proof (cases "config_load (mw_read W) (mw_toml W) (mw_uri W) ?ov (mw_state_dir W)")
    case (Ok c)
    have "exit_status (fst (run_command W cmd (s, a))) = Some 0 \<longleftrightarrow> mw_runtime W = Ok () \<and> fst (serve (mw_conf W) (mw_serve W) c) = Ok ()"
      using Ok by (cases "mw_runtime W"; cases "fst (serve (mw_conf W) (mw_serve W) c)")
        (simp_all add: CmdServe run_command_def serve_command_def exit_status_def case_prod_unfold result_simps)
    with Ok flags_win [OF Ok] show ?thesis
      by (auto simp: CmdServe split: option.splits prod.splits)
  qed (simp add: CmdServe run_command_def serve_command_def exit_status_def)
next
  case (CmdAdmin act config state_dir)
  have "admin_command W act ov a = (Err (AdminFailed (NotRoot ''admin'')), a)" if "\<not> is_root W" for ov
    by (simp add: admin_command_def admin_run_def require_root_denied [OF that])
  then show ?thesis
    by (auto simp: CmdAdmin run_command_def exit_status_def split: prod.splits)
next
  case (CmdInstall cert_name)
  have "run_install (mw_status W) I c k t f cert_name s = (Some (Err (NeedsRoot (NotRoot ''install''))), s)" if "\<not> is_root W" for I c k t f
    by (simp add: run_install_def require_root_denied [OF that])
  then show ?thesis
    by (auto simp: CmdInstall run_command_def exit_status_def split: prod.splits)
next
  case (CmdUninstall purge)
  have "run_uninstall (mw_status W) I purge s = (Err (NeedsRoot (NotRoot ''uninstall'')), s)" if "\<not> is_root W" for I
    by (simp add: run_uninstall_def require_root_denied [OF that])
  then show ?thesis
    by (auto simp: CmdUninstall run_command_def exit_status_def split: prod.splits)
qed (auto simp: run_command_def)

text \<open>The three parts of the client library's version give back its number.\<close>

theorem client_library_version_exact:
  "case client_library_version (Ok v) of
     Ok (major, minor, micro) \<Rightarrow> major * 1000000 + minor * 1000 + micro = unat v \<and> minor < 1000 \<and> micro < 1000
   | Err _ \<Rightarrow> False"
proof -
  have "unat v div 1000000 = unat v div 1000 div 1000"
    by (simp add: div_mult2_eq [symmetric])
  moreover have "unat v div 1000 div 1000 * 1000000 + unat v div 1000 mod 1000 * 1000 + unat v mod 1000 = unat v"
    using div_mult_mod_eq [of "unat v div 1000" 1000] div_mult_mod_eq [of "unat v" 1000] by linarith
  ultimately show ?thesis
    by (simp add: client_library_version_def Let_def)
qed

end
