(* ===== verification/Db_Open.thy ===== *)
theory Db_Open
  imports Host_Files
begin

text \<open>
  \<^verbatim>\<open>Db::open\<close> of \<^verbatim>\<open>lodger/src/db/mod.rs\<close>: the files of the database with their modes, the pragmas of the connection and the migrations. The disk is
  that of theory \<open>Host_Files\<close>, and the result carries every state of the disk on the way, because the files must not be
  open to others even for a moment.
\<close>

section \<open>Model\<close>

datatype OpenError =
    NoStateDir path ustr
  | NoDirMode path ustr
  | NoDbFile path ustr
  | NoDbMode path ustr
  | OpenTask ustr
  | NotOpened path ustr
  | Pragma string ustr
  | Migrations MigrateError

text \<open>\<^verbatim>\<open>DirBuilder::create\<close>, recursive with mode \<^verbatim>\<open>0700\<close>: each missing folder gets that mode through the umask.\<close>

function make_private_dirs :: "io \<Rightarrow> path \<Rightarrow> disk \<Rightarrow> (unit, ustr) result \<times> disk" where
  "make_private_dirs X dir D =
     (if is_dir D dir then (Ok (), D)
      else case make_private_dirs X (butlast dir) D of
        (Err e, D) \<Rightarrow> (Err e, D)
      | (Ok _, D) \<Rightarrow>
          if path_exists D dir then (Err (lit ''exists''), D)
          else case io_fails X ''mkdir'' dir of
            Some e \<Rightarrow> (Err e, D)
          | None \<Rightarrow> (Ok (), D(dir \<mapsto> DirNode (io_umask X 0x1C0))))"
  by pat_completeness auto
termination
  by (relation "measure (\<lambda>(_, dir, _). length dir)") (auto simp: is_dir_def)

declare make_private_dirs.simps [simp del]

fun with_mode :: "nat \<Rightarrow> node \<Rightarrow> node" where
  "with_mode m (DirNode _) = DirNode m"
| "with_mode m (FileNode f) = FileNode (f\<lparr>file_mode := m\<rparr>)"

fun mode_of :: "node \<Rightarrow> nat" where
  "mode_of (DirNode m) = m"
| "mode_of (FileNode f) = file_mode f"

definition set_permissions :: "io \<Rightarrow> path \<Rightarrow> nat \<Rightarrow> disk \<Rightarrow> (unit, ustr) result \<times> disk" where
  "set_permissions X p m D =
     (case io_fails X ''chmod'' p of
        Some e \<Rightarrow> (Err e, D)
      | None \<Rightarrow> (Ok (), D(p := map_option (with_mode m) (D p))))"

definition prepare_files :: "io \<Rightarrow> path \<Rightarrow> path \<Rightarrow> disk \<Rightarrow> (unit, OpenError) result \<times> disk list" where
  "prepare_files X dir p D =
     (case make_private_dirs X dir D of
        (Err e, D) \<Rightarrow> (Err (NoStateDir dir e), [D])
      | (Ok _, D1) \<Rightarrow>
      case set_permissions X dir 0x1C0 D1 of
        (Err e, D2) \<Rightarrow> (Err (NoDirMode dir e), [D1, D2])
      | (Ok _, D2) \<Rightarrow>
          if D2 p \<noteq> None
          then case set_permissions X p 0x180 D2 of
              (Err e, D3) \<Rightarrow> (Err (NoDbMode p e), [D1, D2, D3])
            | (Ok _, D3) \<Rightarrow> (Ok (), [D1, D2, D3])
          else case io_fails X ''create'' p of
              Some e \<Rightarrow> (Err (NoDbFile p e), [D1, D2])
            | None \<Rightarrow> (Ok (), [D1, D2, D2(p \<mapsto> FileNode \<lparr>file_bytes = [], file_mode = io_umask X 0x180, file_owner = None\<rparr>)]))"

definition PRAGMAS :: "(string \<times> string) list" where
  "PRAGMAS = [(''journal_mode'', ''WAL''), (''synchronous'', ''FULL''), (''foreign_keys'', ''ON''), (''busy_timeout'', ''5000'')]"

fun set_pragmas :: "(string \<Rightarrow> ustr option) \<Rightarrow> (string \<times> string) list \<Rightarrow> (unit, OpenError) result" where
  "set_pragmas refused [] = Ok ()"
| "set_pragmas refused ((name, v) # ps) =
     (case refused name of Some e \<Rightarrow> Err (Pragma name e) | None \<Rightarrow> set_pragmas refused ps)"

record sqlite =
  sq_task :: "ustr option"
  sq_open :: "(schema, ustr) result"
  sq_pragma :: "string \<Rightarrow> ustr option"
  sq_env :: sql_env

definition prepare :: "sqlite \<Rightarrow> schema \<Rightarrow> (unit, OpenError) result \<times> schema" where
  "prepare Q s =
     (case set_pragmas (sq_pragma Q) PRAGMAS of
        Err e \<Rightarrow> (Err e, s)
      | Ok _ \<Rightarrow> (case migrate (sq_env Q) MIGRATIONS s of (r, s) \<Rightarrow> (map_err Migrations r, s)))"

definition db_open :: "io \<Rightarrow> sqlite \<Rightarrow> path \<Rightarrow> disk \<Rightarrow> (schema, OpenError) result \<times> disk list" where
  "db_open X Q dir D =
     (let p = dir @ [FILE] in
      case prepare_files X dir p D of
        (Err e, Ds) \<Rightarrow> (Err e, Ds)
      | (Ok _, Ds) \<Rightarrow>
          (case sq_task Q of
             Some e \<Rightarrow> (Err (OpenTask e), Ds)
           | None \<Rightarrow>
               (case sq_open Q of
                  Err e \<Rightarrow> (Err (NotOpened p e), Ds)
                | Ok s \<Rightarrow> (case prepare Q s of (Ok _, s) \<Rightarrow> (Ok s, Ds) | (Err e, _) \<Rightarrow> (Err e, Ds)))))"

section \<open>Properties\<close>

text \<open>A umask only takes bits away.\<close>

definition umask_clears :: "io \<Rightarrow> bool" where
  "umask_clears X \<longleftrightarrow> (\<forall>m b. bit (io_umask X m) b \<longrightarrow> bit m b)"

text \<open>The six bits of the group and of the others are off.\<close>

definition closed_to_others :: "node option \<Rightarrow> bool" where
  "closed_to_others x \<longleftrightarrow> (case x of None \<Rightarrow> True | Some n \<Rightarrow> list_all (\<lambda>b. \<not> bit (mode_of n) b) [0..<6])"

lemma mode_with_mode [simp]: "mode_of (with_mode m n) = m"
  by (cases n) simp_all

lemma private_bits: "\<not> bit (0x180 :: nat) b" "\<not> bit (0x1C0 :: nat) b" if "b < 6" for b
proof -
  have "b \<in> {0, 1, 2, 3, 4, 5}" using that by auto
  then show "\<not> bit (0x180 :: nat) b" and "\<not> bit (0x1C0 :: nat) b"
    by (auto simp: bit_iff_odd)
qed

lemma make_private_dirs_dir: "make_private_dirs X dir D = (Ok u, D') \<Longrightarrow> is_dir D' dir"
  by (subst (asm) make_private_dirs.simps) (auto simp: is_dir_def split: if_splits prod.splits result.splits option.splits)

lemma make_private_dirs_frame: "make_private_dirs X dir D = (r, D') \<Longrightarrow> \<not> below q dir \<Longrightarrow> D' q = D q"
proof (induction X dir D arbitrary: r D' rule: make_private_dirs.induct)
  case (1 X dir D)
  show ?case
  proof (cases "is_dir D dir")
    case True
    with "1.prems" show ?thesis by (simp add: make_private_dirs.simps)
  next
    case False
    then have dir: "dir \<noteq> []" by (auto simp: is_dir_def)
    obtain r1 D1 where c: "make_private_dirs X (butlast dir) D = (r1, D1)" by fastforce
    have "\<not> below q (butlast dir)"
      using dir "1.prems"(2) by (auto simp: below_def starts_with_iff) (metis append_butlast_last_id append.assoc)
    from "1.IH" [OF False c this] "1.prems" False c show ?thesis
      by (subst (asm) make_private_dirs.simps)
        (auto simp: below_def starts_with_iff split: result.splits if_splits option.splits)
  qed
qed

lemma closed_mode: "list_all (\<lambda>b. \<not> bit (mode_of n) b) [0..<6] \<Longrightarrow> closed_to_others (Some n)"
  by (simp add: closed_to_others_def)

lemma prepare_files_private:
  assumes umask: "umask_clears X" and dir: "dir \<noteq> []" and run: "prepare_files X dir (dir @ [x]) D = (r, Ds)"
  shows "D (dir @ [x]) = None \<longrightarrow> list_all (\<lambda>D. closed_to_others (D (dir @ [x]))) Ds"
    and "r = Ok u \<Longrightarrow> last Ds dir = Some (DirNode 0x1C0) \<and> closed_to_others (last Ds (dir @ [x])) \<and> last Ds (dir @ [x]) \<noteq> None"
proof -
  let ?p = "dir @ [x]"
  obtain r1 D1 where c: "make_private_dirs X dir D = (r1, D1)" by fastforce
  have D1: "D1 ?p = D ?p"
    using make_private_dirs_frame [OF c, of ?p] by (auto simp: below_def starts_with_iff)
  have d1: "\<exists>m. D1 dir = Some (DirNode m)" if "r1 = Ok u'" for u'
    using make_private_dirs_dir c that dir by (fastforce simp: is_dir_def split: option.splits node.splits)
  have "\<not> bit (io_umask X 0x180) b" if "b < 6" for b
    using umask private_bits(1) [OF that] unfolding umask_clears_def by blast
  then have new: "closed_to_others (Some (FileNode \<lparr>file_bytes = [], file_mode = io_umask X 0x180, file_owner = None\<rparr>))"
    by (intro closed_mode) (simp add: list_all_iff)
  have chmod: "closed_to_others (Some (with_mode 0x180 y))" for y
    using private_bits(1) by (auto simp: closed_to_others_def list_all_iff)
  have none: "closed_to_others None" by (simp add: closed_to_others_def)
  show "D ?p = None \<longrightarrow> list_all (\<lambda>D. closed_to_others (D ?p)) Ds"
    using run c D1 new none
    by (auto simp: prepare_files_def set_permissions_def split: prod.splits result.splits option.splits if_splits)
  show "r = Ok u \<Longrightarrow> last Ds dir = Some (DirNode 0x1C0) \<and> closed_to_others (last Ds ?p) \<and> last Ds ?p \<noteq> None"
    using run c d1 new chmod
    by (auto simp: prepare_files_def set_permissions_def split: prod.splits result.splits option.splits if_splits)
qed

lemma set_pragmas_Ok: "set_pragmas refused ps = Ok u \<Longrightarrow> (name, v) \<in> set ps \<Longrightarrow> refused name = None"
  by (induction ps) (auto split: option.splits)


text \<open>A first start: the directory is systemd's, with mode \<^verbatim>\<open>0755\<close>, and there is no database.\<close>

definition fresh_sqlite :: sqlite where
  "fresh_sqlite = \<lparr>sq_task = None, sq_open = Ok \<lparr>user_version = 0, applied = []\<rparr>, sq_pragma = (\<lambda>_. None), sq_env = at_time 0\<rparr>"

definition plain_io :: io where
  "plain_io = \<lparr>io_fails = (\<lambda>_ _. None), io_umask = (\<lambda>m. m), io_partial = (\<lambda>_. []), io_kept = (\<lambda>_ _. False), io_utf8 = (\<lambda>_. None)\<rparr>"


end
