(* ===== verification/Permits.thy ===== *)
theory Permits
  imports Passwords
begin

text \<open>
  The semaphores: \<^verbatim>\<open>passwords::run\<close> in \<^verbatim>\<open>lodger/src/passwords.rs\<close> and \<^verbatim>\<open>run\<close> in \<^verbatim>\<open>lodger-virt/src/conn.rs\<close> have the same shape. Each waits
  for a permit, gives its closure to the blocking pool, and holds the permit in the future until the closure's result is there.
  Calls interleave, so this theory has the steps of all calls on one semaphore. The semaphore is fair, as tokio documents; a
  future that its caller drops gives its permit back, while the closure runs on, since a thread cannot be stopped.
\<close>

section \<open>Model\<close>

definition PARALLEL :: nat where
  "PARALLEL = 2"

definition FAST_PERMITS :: nat where
  "FAST_PERMITS = 3"

definition LONG_PERMITS :: nat where
  "LONG_PERMITS = 2"

text \<open>
  One semaphore and the calls on it, by number: \<open>waiting\<close> for a permit in the order of arrival, \<open>working\<close> with permit and
  closure, and \<open>orphans\<close>, whose closure runs while the future is gone.
\<close>

record sem =
  free_permits :: nat
  waiting :: "nat list"
  working :: "nat list"
  orphans :: "nat list"

definition sem_new :: "nat \<Rightarrow> sem" where
  "sem_new n = \<lparr>free_permits = n, waiting = [], working = [], orphans = []\<rparr>"

text \<open>\<open>Finished\<close> is a closure that returned or panicked while its future waits for it.\<close>

datatype run_event = Called nat | Granted nat | Finished nat | Abandoned nat | Ended nat

fun run_step :: "run_event \<Rightarrow> sem \<Rightarrow> sem option" where
  "run_step (Called i) s =
     (if i \<in> set (waiting s @ working s @ orphans s) then None else Some (s\<lparr>waiting := waiting s @ [i]\<rparr>))"
| "run_step (Granted i) s =
     (if 0 < free_permits s \<and> waiting s \<noteq> [] \<and> hd (waiting s) = i
      then Some (s\<lparr>free_permits := free_permits s - 1, waiting := tl (waiting s), working := working s @ [i]\<rparr>) else None)"
| "run_step (Finished i) s =
     (if i \<in> set (working s) then Some (s\<lparr>free_permits := free_permits s + 1, working := remove1 i (working s)\<rparr>) else None)"
| "run_step (Abandoned i) s =
     (if i \<in> set (waiting s) then Some (s\<lparr>waiting := remove1 i (waiting s)\<rparr>)
      else if i \<in> set (working s)
      then Some (s\<lparr>free_permits := free_permits s + 1, working := remove1 i (working s), orphans := orphans s @ [i]\<rparr>)
      else None)"
| "run_step (Ended i) s = (if i \<in> set (orphans s) then Some (s\<lparr>orphans := remove1 i (orphans s)\<rparr>) else None)"

text \<open>The histories of a semaphore with \<open>n\<close> permits, latest event first.\<close>

inductive permit_run :: "nat \<Rightarrow> run_event list \<Rightarrow> sem \<Rightarrow> bool" for n where
  permit_new: "permit_run n [] (sem_new n)"
| permit_step: "permit_run n evs s \<Longrightarrow> run_step ev s = Some s' \<Longrightarrow> permit_run n (ev # evs) s'"

inductive_cases permit_run_ConsE: "permit_run n (ev # evs) s"

text \<open>The closures that are on a thread now.\<close>

definition running :: "sem \<Rightarrow> nat list" where
  "running s = working s @ orphans s"

section \<open>What a semaphore promises\<close>

definition abandoned :: "run_event list \<Rightarrow> nat" where
  "abandoned evs = length (filter (\<lambda>ev. case ev of Abandoned _ \<Rightarrow> True | _ \<Rightarrow> False) evs)"

text \<open>The calls of a history and the ones that got a permit, in their order.\<close>

definition calls :: "run_event list \<Rightarrow> nat list" where
  "calls evs = List.map_filter (\<lambda>ev. case ev of Called i \<Rightarrow> Some i | _ \<Rightarrow> None) (rev evs)"

definition grants :: "run_event list \<Rightarrow> nat list" where
  "grants evs = List.map_filter (\<lambda>ev. case ev of Granted i \<Rightarrow> Some i | _ \<Rightarrow> None) (rev evs)"

lemma history_simps [simp]:
  "abandoned [] = 0" "calls [] = []" "grants [] = []"
  "abandoned (ev # evs) = (case ev of Abandoned _ \<Rightarrow> 1 | _ \<Rightarrow> 0) + abandoned evs"
  "calls (ev # evs) = calls evs @ (case ev of Called i \<Rightarrow> [i] | _ \<Rightarrow> [])"
  "grants (ev # evs) = grants evs @ (case ev of Granted i \<Rightarrow> [i] | _ \<Rightarrow> [])"
  by (auto simp: abandoned_def calls_def grants_def List.map_filter_def split: run_event.splits)

lemma length_remove1_in: "x \<in> set xs \<Longrightarrow> Suc (length (remove1 x xs)) = length xs"
  by (induction xs) auto

lemma permit_balance: "permit_run n evs s \<Longrightarrow> free_permits s + length (working s) = n"
proof (induction rule: permit_run.induct)
  case (permit_step evs s ev s')
  then show ?case
    by (cases ev) (auto simp: length_remove1_in split: if_splits)
qed (simp add: sem_new_def)

lemma orphans_bound: "permit_run n evs s \<Longrightarrow> length (orphans s) \<le> abandoned evs"
proof (induction rule: permit_run.induct)
  case (permit_step evs s ev s')
  then show ?case
    by (cases ev) (auto simp: length_remove1 split: if_splits)
qed (simp add: sem_new_def)

lemma permits_in_order:
  "permit_run n evs s \<Longrightarrow> abandoned evs = 0 \<Longrightarrow> calls evs = grants evs @ waiting s"
proof (induction rule: permit_run.induct)
  case (permit_step evs s ev s')
  then show ?case
    by (cases ev) (auto split: if_splits)
qed (simp add: sem_new_def)

text \<open>A pool of closures behind a semaphore with permits in it.\<close>

locale permit_pool =
  fixes capacity :: nat
  assumes some_permit: "0 < capacity"
begin

lemma at_most:
  assumes "permit_run capacity evs s"
  shows "length (working s) \<le> capacity" and "length (running s) \<le> capacity + abandoned evs"
  using permit_balance [OF assms] orphans_bound [OF assms] by (auto simp: running_def)

text \<open>Somebody who waits is served: at once, or when one of the calls that hold a permit is done.\<close>

lemma not_stuck:
  assumes "permit_run capacity evs s" and "waiting s = i # rest"
  shows "run_step (Granted i) s \<noteq> None \<or> (\<exists>j s'. run_step (Finished j) s = Some s' \<and> run_step (Granted i) s' \<noteq> None)"
proof (cases "0 < free_permits s")
  case False
  then obtain j where "j \<in> set (working s)"
    using permit_balance [OF assms(1)] some_permit by (cases "working s") auto
  then show ?thesis using assms(2) by auto
qed (simp add: assms(2))

text \<open>Calls that are dropped while they work leave as many closures behind as there are such calls.\<close>

lemma orphans_pile_up: "\<exists>evs. permit_run capacity evs \<lparr>free_permits = capacity, waiting = [], working = [], orphans = [0..<n]\<rparr>"
proof (induction n)
  case 0
  show ?case using permit_new [of capacity] by (auto simp: sem_new_def)
next
  case (Suc n)
  then obtain evs where run: "permit_run capacity evs \<lparr>free_permits = capacity, waiting = [], working = [], orphans = [0..<n]\<rparr>" ..
  then have "permit_run capacity (Called n # evs) \<lparr>free_permits = capacity, waiting = [n], working = [], orphans = [0..<n]\<rparr>"
    by (rule permit_step) simp
  then have "permit_run capacity (Granted n # Called n # evs) \<lparr>free_permits = capacity - 1, waiting = [], working = [n], orphans = [0..<n]\<rparr>"
    by (rule permit_step) (simp add: some_permit)
  then have "permit_run capacity (Abandoned n # Granted n # Called n # evs)
      \<lparr>free_permits = capacity, waiting = [], working = [], orphans = [0..<Suc n]\<rparr>"
    by (rule permit_step) (simp add: some_permit)
  then show ?case by blast
qed

end

interpretation argon2: permit_pool PARALLEL
  by unfold_locales (simp add: PARALLEL_def)

interpretation fast: permit_pool FAST_PERMITS
  by unfold_locales (simp add: FAST_PERMITS_def)

interpretation long: permit_pool LONG_PERMITS
  by unfold_locales (simp add: LONG_PERMITS_def)

section \<open>Properties\<close>



text \<open>The same for the calls on the two libvirt connections: five calls have a permit at most.\<close>

theorem libvirt_parallelism:
  assumes "permit_run FAST_PERMITS evs s" and "permit_run LONG_PERMITS evs' s'"
  shows "length (working s @ working s') \<le> 5"
  using fast.at_most(1) [OF assms(1)] long.at_most(1) [OF assms(2)] by (simp add: FAST_PERMITS_def LONG_PERMITS_def)

end
