(* ===== verification/Virt_Open.thy ===== *)
theory Virt_Open
  imports Virt_World
begin

text \<open>
  \<^verbatim>\<open>lodger-virt/src/conn.rs\<close>: opening and closing the two libvirt connections. What libvirt answers is an argument; what is done to the connections is a list of events,
  with the closes that the destructors make. The read connection has number 0, the job connection number 1.
\<close>

section \<open>Model\<close>

definition KEEPALIVE_INTERVAL :: int where
  "KEEPALIVE_INTERVAL = 5"

definition KEEPALIVE_COUNT :: nat where
  "KEEPALIVE_COUNT = 3"

datatype conn_event =
    LoopStarted
  | Opened nat
  | KeepAlive nat int nat
  | CallbacksOn nat
  | CallbacksOff nat
  | Closed nat

record open_env =
  oe_loop :: "(unit, ustr) result"
  oe_task :: "ustr option"
  oe_open :: "nat \<Rightarrow> (unit, virt_error) result"
  oe_keep :: "nat \<Rightarrow> (unit, virt_error) result"
  oe_register :: "(unit, virt_error) result"

text \<open>The \<^verbatim>\<open>OnceLock\<close> \<^verbatim>\<open>STARTED\<close>: empty, or the outcome of the one start.\<close>

type_synonym started = "(unit, ustr) result option"

definition start_event_loop :: "open_env \<Rightarrow> started \<Rightarrow> (unit, Error) result \<times> started \<times> conn_event list" where
  "start_event_loop V st =
     (case st of
        Some r \<Rightarrow> (map_err EventLoop r, st, [])
      | None \<Rightarrow> (map_err EventLoop (oe_loop V), Some (oe_loop V), [LoopStarted]))"

definition keep_alive :: "open_env \<Rightarrow> nat \<Rightarrow> (unit, virt_error) result" where
  "keep_alive V n = (case oe_keep V n of Err e \<Rightarrow> if known e = Some NoSupport then Ok () else Err e | Ok _ \<Rightarrow> Ok ())"

definition keep_event :: "nat \<Rightarrow> conn_event" where
  "keep_event n = KeepAlive n KEEPALIVE_INTERVAL KEEPALIVE_COUNT"

text \<open>The connections after the loop runs; an error drops what is open, the job connection first.\<close>

definition open_both :: "open_env \<Rightarrow> (unit, Error) result \<times> conn_event list" where
  "open_both V =
     (case oe_open V 0 of
        Err e \<Rightarrow> (Err (Libvirt e), [])
      | Ok _ \<Rightarrow>
      case oe_open V 1 of
        Err e \<Rightarrow> (Err (Libvirt e), [Opened 0, Closed 0])
      | Ok _ \<Rightarrow>
      case keep_alive V 0 of
        Err e \<Rightarrow> (Err (Libvirt e), [Opened 0, Opened 1, keep_event 0, Closed 1, Closed 0])
      | Ok _ \<Rightarrow>
      case keep_alive V 1 of
        Err e \<Rightarrow> (Err (Libvirt e), [Opened 0, Opened 1, keep_event 0, keep_event 1, Closed 1, Closed 0])
      | Ok _ \<Rightarrow>
      case oe_register V of
        Err e \<Rightarrow> (Err (Libvirt e), [Opened 0, Opened 1, keep_event 0, keep_event 1, Closed 1, Closed 0])
      | Ok _ \<Rightarrow> (Ok (), [Opened 0, Opened 1, keep_event 0, keep_event 1, CallbacksOn 0]))"

definition virt_open :: "open_env \<Rightarrow> ustr \<Rightarrow> started \<Rightarrow> (unit, Error) result \<times> started \<times> conn_event list" where
  "virt_open V uri st =
     (case check_text ''libvirt URI'' uri of
        Err e \<Rightarrow> (Err (Input e), st, [])
      | Ok _ \<Rightarrow>
      case oe_task V of
        Some e \<Rightarrow> (Err (Task e), st, [])
      | None \<Rightarrow>
      case start_event_loop V st of
        (Err e, st, l) \<Rightarrow> (Err e, st, l)
      | (Ok _, st, l) \<Rightarrow> (case open_both V of (r, l') \<Rightarrow> (r, st, l @ l')))"

text \<open>\<^verbatim>\<open>Connection::drop\<close>: the callbacks go while the connection is still open.\<close>

definition connection_drop :: "bool \<Rightarrow> nat \<Rightarrow> conn_event list" where
  "connection_drop events n = (if events then [CallbacksOff n] else []) @ [Closed n]"

definition virt_drop :: "conn_event list" where
  "virt_drop = connection_drop True 0 @ connection_drop False 1"

section \<open>Properties\<close>

text \<open>The connections that are open after the events, and the ones with callbacks. A callback on a closed connection is an error.\<close>

fun live :: "conn_event list \<Rightarrow> nat list \<times> nat list \<Rightarrow> (nat list \<times> nat list) option" where
  "live [] s = Some s"
| "live (ev # evs) (conns, cbs) =
     (case ev of
        Opened n \<Rightarrow> if n \<in> set conns then None else live evs (conns @ [n], cbs)
      | KeepAlive n _ _ \<Rightarrow> if n \<in> set conns then live evs (conns, cbs) else None
      | CallbacksOn n \<Rightarrow> if n \<in> set conns then live evs (conns, cbs @ [n]) else None
      | CallbacksOff n \<Rightarrow> if n \<in> set conns \<and> n \<in> set cbs then live evs (conns, remove1 n cbs) else None
      | Closed n \<Rightarrow> if n \<in> set conns \<and> n \<notin> set cbs then live evs (remove1 n conns, cbs) else None
      | LoopStarted \<Rightarrow> live evs (conns, cbs))"

lemma live_append: "live (l @ l') s = Option.bind (live l s) (live l')"
proof (induction l s rule: live.induct)
  case (2 ev evs conns cbs)
  then show ?case by (cases ev) simp_all
qed simp

lemma open_both_live:
  "live (snd (open_both V)) ([], []) = Some (case fst (open_both V) of Ok _ \<Rightarrow> ([0, 1], [0]) | Err _ \<Rightarrow> ([], []))"
  "LoopStarted \<notin> set (snd (open_both V))"
  by (simp_all add: open_both_def keep_event_def split: result.split)

lemma virt_drop_live: "live virt_drop ([0, 1], [0]) = Some ([], [])"
  by (simp add: virt_drop_def connection_drop_def)

lemma start_event_loop_log:
  "start_event_loop V st = (map_err EventLoop (case st of None \<Rightarrow> oe_loop V | Some r \<Rightarrow> r), Some (case st of None \<Rightarrow> oe_loop V | Some r \<Rightarrow> r),
     if st = None then [LoopStarted] else [])"
  by (simp add: start_event_loop_def split: option.split)

text \<open>
  Opening leaks nothing. Either both connections are open, watched by keepalive, and the callbacks are on the read connection; or the
  error leaves no connection open, whichever step failed. No step touches a closed connection, and dropping the handle removes the callbacks before it
  closes their connection and leaves nothing open. The event loop is started at most once in the process, and a failed start is
  remembered. A URI with a NUL byte never reaches libvirt.
\<close>

theorem virt_open_leaks_nothing:
  "case virt_open V uri st of (r, st', log) \<Rightarrow>
     live log ([], []) = Some (case r of Ok _ \<Rightarrow> ([0, 1], [0]) | Err _ \<Rightarrow> ([], [])) \<and>
     (case r of Ok _ \<Rightarrow> live (log @ virt_drop) ([], []) = Some ([], []) | Err _ \<Rightarrow> True) \<and>
     (if st = None then True else st' = st \<and> LoopStarted \<notin> set log) \<and>
     (if LoopStarted \<in> set log then st' = Some (oe_loop V) else st' = st) \<and>
     (case check_text ''libvirt URI'' uri of Ok _ \<Rightarrow> True | Err e \<Rightarrow> r = Err (Input e) \<and> log = [])"
proof (cases "(\<exists>e. check_text ''libvirt URI'' uri = Err e) \<or> oe_task V \<noteq> None \<or> (\<exists>e. fst (start_event_loop V st) = Err e)")
  case True
  then show ?thesis
    by (auto simp: virt_open_def start_event_loop_log split: result.splits option.splits)
next
  case False
  then show ?thesis
    using open_both_live [of V]
    by (auto simp: virt_open_def start_event_loop_log live_append virt_drop_live [simplified] split: result.splits option.splits prod.splits)
qed

end
