(* ===== verification/Events_Ffi.thy ===== *)
theory Events_Ffi
  imports Virt_Open
begin

text \<open>
  \<^verbatim>\<open>lodger-virt/src/events/ffi.rs\<close>: the event callbacks. Registration is a sequence of calls into the C library, each with a box
  that holds a copy of the hub's sender; the calls and their answers are a list, and the boxes are numbered in the
  order of their allocation. The answers of libvirt are arguments. What libvirt does with the
  boxes it was given is written out from its documentation in \<open>ffi_replay\<close>, which gives up on
  any call that would be wrong: a second free, an unknown registration, or a box that is gone.
\<close>

section \<open>Registration\<close>

datatype event_api = DomainApi | NetworkApi | PoolApi

datatype event_id = IdLifecycle | IdReboot | IdDeviceAdded | IdDeviceRemoved | IdMetadataChange

datatype callback = DomainLifecycle | DomainReboot | DomainDeviceAdded | DomainDeviceRemoved | DomainMetadata | NetworkLifecycle | PoolLifecycle

datatype ffi_call =
    BoxedHub nat
  | RegisterAny event_api event_id callback nat int
  | RegisterClose nat int
  | DeregisterAny event_api int
  | UnregisterClose

record Registration =
  reg_domain :: "int list"
  reg_network :: "int list"
  reg_pool :: "int list"
  reg_close :: bool

text \<open>The return value of the \<open>n\<close>th register call, the last error after it, and the name of the driver.\<close>

record ffi_answers =
  fa_register :: "nat \<Rightarrow> int"
  fa_error :: "nat \<Rightarrow> virt_error"
  fa_driver :: "(ustr, virt_error) result"

definition ffi_check :: "ffi_answers \<Rightarrow> nat \<Rightarrow> (int, virt_error) result" where
  "ffi_check A n = (if fa_register A n < 0 then Err (fa_error A n) else Ok (fa_register A n))"

definition domain_events :: "(event_id \<times> callback) list" where
  "domain_events = [(IdLifecycle, DomainLifecycle), (IdReboot, DomainReboot), (IdDeviceAdded, DomainDeviceAdded),
     (IdDeviceRemoved, DomainDeviceRemoved), (IdMetadataChange, DomainMetadata)]"

definition reg_empty :: Registration where
  "reg_empty = \<lparr>reg_domain = [], reg_network = [], reg_pool = [], reg_close = False\<rparr>"

fun register_domains ::
    "ffi_answers \<Rightarrow> nat \<Rightarrow> (event_id \<times> callback) list \<Rightarrow> Registration \<Rightarrow> (nat, virt_error) result \<times> Registration \<times> ffi_call list" where
  "register_domains A n [] reg = (Ok n, reg, [])"
| "register_domains A n ((i, cb) # rest) reg =
     (let calls = [BoxedHub n, RegisterAny DomainApi i cb n (fa_register A n)] in
      case ffi_check A n of
        Err e \<Rightarrow> (Err e, reg, calls)
      | Ok cb_id \<Rightarrow>
          (case register_domains A (Suc n) rest (reg\<lparr>reg_domain := reg_domain reg @ [cb_id]\<rparr>) of
             (r, reg, more_calls) \<Rightarrow> (r, reg, calls @ more_calls)))"

text \<open>The test driver has no connection to lose and would never free the box of a close callback.\<close>

definition register_close :: "ffi_answers \<Rightarrow> nat \<Rightarrow> Registration \<Rightarrow> (unit, virt_error) result \<times> Registration \<times> ffi_call list" where
  "register_close A n reg =
     (case fa_driver A of
        Err e \<Rightarrow> (Err e, reg, [])
      | Ok driver \<Rightarrow>
          if driver = lit ''TEST'' then (Ok (), reg, [])
          else
            let calls = [BoxedHub n, RegisterClose n (fa_register A n)] in
            case ffi_check A n of
              Err e \<Rightarrow> (Err e, reg, calls)
            | Ok _ \<Rightarrow> (Ok (), reg\<lparr>reg_close := True\<rparr>, calls))"

definition register_pool :: "ffi_answers \<Rightarrow> nat \<Rightarrow> Registration \<Rightarrow> (unit, virt_error) result \<times> Registration \<times> ffi_call list" where
  "register_pool A n reg =
     (let calls = [BoxedHub n, RegisterAny PoolApi IdLifecycle PoolLifecycle n (fa_register A n)] in
      case ffi_check A n of
        Err e \<Rightarrow> (Err e, reg, calls)
      | Ok cb_id \<Rightarrow>
          (case register_close A (Suc n) (reg\<lparr>reg_pool := reg_pool reg @ [cb_id]\<rparr>) of
             (r, reg, more_calls) \<Rightarrow> (r, reg, calls @ more_calls)))"

definition register_network :: "ffi_answers \<Rightarrow> nat \<Rightarrow> Registration \<Rightarrow> (unit, virt_error) result \<times> Registration \<times> ffi_call list" where
  "register_network A n reg =
     (let calls = [BoxedHub n, RegisterAny NetworkApi IdLifecycle NetworkLifecycle n (fa_register A n)] in
      case ffi_check A n of
        Err e \<Rightarrow> (Err e, reg, calls)
      | Ok cb_id \<Rightarrow>
          (case register_pool A (Suc n) (reg\<lparr>reg_network := reg_network reg @ [cb_id]\<rparr>) of
             (r, reg, more_calls) \<Rightarrow> (r, reg, calls @ more_calls)))"

definition register_all :: "ffi_answers \<Rightarrow> (unit, virt_error) result \<times> Registration \<times> ffi_call list" where
  "register_all A =
     (case register_domains A 0 domain_events reg_empty of
        (Err e, reg, calls) \<Rightarrow> (Err e, reg, calls)
      | (Ok n, reg, calls) \<Rightarrow>
          (case register_network A n reg of (r, reg, more_calls) \<Rightarrow> (r, reg, calls @ more_calls)))"

text \<open>\<^verbatim>\<open>Registration::drop\<close>.\<close>

definition registration_drop :: "Registration \<Rightarrow> ffi_call list" where
  "registration_drop reg =
     map (DeregisterAny DomainApi) (reg_domain reg) @ map (DeregisterAny NetworkApi) (reg_network reg) @
     map (DeregisterAny PoolApi) (reg_pool reg) @ (if reg_close reg then [UnregisterClose] else [])"

text \<open>On an error \<open>?\<close> leaves the function, which drops the registrations made so far.\<close>

definition register :: "ffi_answers \<Rightarrow> (Registration, virt_error) result \<times> ffi_call list" where
  "register A =
     (case register_all A of
        (Ok _, reg, l) \<Rightarrow> (Ok reg, l)
      | (Err e, reg, l) \<Rightarrow> (Err e, l @ registration_drop reg))"

section \<open>Callbacks\<close>

text \<open>
  What a callback can read: the answer of \<^verbatim>\<open>Get*UUIDString\<close> on the lent object with the buffer it wrote, UTF-8 decoding,
  and the parser of the crate \<^verbatim>\<open>uuid\<close>.
\<close>

record 'obj lent =
  le_uuid :: "'obj \<Rightarrow> int \<times> 8 word list"
  le_utf8 :: "8 word list \<Rightarrow> ustr option"
  le_parse :: "ustr \<Rightarrow> uuid option"

definition from_bytes_until_nul :: "8 word list \<Rightarrow> 8 word list option" where
  "from_bytes_until_nul buf = (if 0 \<in> set buf then Some (takeWhile (\<lambda>b. b \<noteq> 0) buf) else None)"

definition parse_uuid :: "'obj lent \<Rightarrow> int \<Rightarrow> 8 word list \<Rightarrow> uuid option" where
  "parse_uuid L ret buf =
     (if ret < 0 then None
      else Option.bind (from_bytes_until_nul buf) (\<lambda>b. Option.bind (le_utf8 L b) (le_parse L)))"

definition lent_uuid :: "'obj lent \<Rightarrow> 'obj \<Rightarrow> uuid option" where
  "lent_uuid L obj = (case le_uuid L obj of (ret, buf) \<Rightarrow> parse_uuid L ret buf)"

text \<open>The events that reach the hub. The closure gives \<open>None\<close> when it panics, which \<^verbatim>\<open>catch_unwind\<close> catches.\<close>

definition deliver :: "Event option option \<Rightarrow> Event list" where
  "deliver event = (case event of Some (Some ev) \<Rightarrow> [ev] | _ \<Rightarrow> [])"

definition domain_event :: "'obj lent \<Rightarrow> 'obj \<Rightarrow> DomainChange \<Rightarrow> Event list" where
  "domain_event L vm change = deliver (Some (map_option (\<lambda>i. EvDomain i change) (lent_uuid L vm)))"

definition domain_lifecycle :: "'obj lent \<Rightarrow> 'obj \<Rightarrow> int \<Rightarrow> int \<Rightarrow> Event list \<times> int" where
  "domain_lifecycle L vm event detail = (domain_event L vm (Lifecycle event detail), 0)"

definition domain_reboot :: "'obj lent \<Rightarrow> 'obj \<Rightarrow> Event list" where
  "domain_reboot L vm = domain_event L vm Rebooted"

definition domain_device_added :: "'obj lent \<Rightarrow> 'obj \<Rightarrow> Event list" where
  "domain_device_added L vm = domain_event L vm DeviceAdded"

definition domain_device_removed :: "'obj lent \<Rightarrow> 'obj \<Rightarrow> Event list" where
  "domain_device_removed L vm = domain_event L vm DeviceRemoved"

definition domain_metadata :: "'obj lent \<Rightarrow> 'obj \<Rightarrow> Event list" where
  "domain_metadata L vm = domain_event L vm Metadata"

definition network_lifecycle :: "'obj lent \<Rightarrow> 'obj \<Rightarrow> int \<Rightarrow> int \<Rightarrow> Event list" where
  "network_lifecycle L net event detail = deliver (Some (map_option (\<lambda>i. EvNetwork i event) (lent_uuid L net)))"

definition pool_lifecycle :: "'obj lent \<Rightarrow> 'obj \<Rightarrow> int \<Rightarrow> int \<Rightarrow> Event list" where
  "pool_lifecycle L pool event detail = deliver (Some (map_option (\<lambda>i. EvPool i event) (lent_uuid L pool)))"

definition on_close :: "int \<Rightarrow> Event list" where
  "on_close code = deliver (Some (Some (EvClosed code)))"

text \<open>A call of libvirt to a registered callback, with the numbers that go with it.\<close>

definition call_back :: "'obj lent \<Rightarrow> callback \<Rightarrow> 'obj \<Rightarrow> int \<Rightarrow> int \<Rightarrow> Event list" where
  "call_back L cb obj event detail =
     (case cb of
        DomainLifecycle \<Rightarrow> fst (domain_lifecycle L obj event detail)
      | DomainReboot \<Rightarrow> domain_reboot L obj
      | DomainDeviceAdded \<Rightarrow> domain_device_added L obj
      | DomainDeviceRemoved \<Rightarrow> domain_device_removed L obj
      | DomainMetadata \<Rightarrow> domain_metadata L obj
      | NetworkLifecycle \<Rightarrow> network_lifecycle L obj event detail
      | PoolLifecycle \<Rightarrow> pool_lifecycle L obj event detail)"

section \<open>Who owns the boxes\<close>

text \<open>
  The memory: boxes that are allocated, registrations with their callback and box, and what was freed, in order. A successful registration
  owns its box until it is removed, and its removal calls the free callback once. A failed one leaves its box behind.
\<close>

record ffi_mem =
  boxes :: "nat list"
  held :: "((event_api \<times> int) \<times> event_id \<times> callback \<times> nat) list"
  close_held :: "nat option"
  freed :: "nat list"

definition mem_empty :: ffi_mem where
  "mem_empty = \<lparr>boxes = [], held = [], close_held = None, freed = []\<rparr>"

definition free_hub :: "nat \<Rightarrow> ffi_mem \<Rightarrow> ffi_mem option" where
  "free_hub n m = (if n \<in> set (boxes m) then Some (m\<lparr>boxes := remove1 n (boxes m), freed := freed m @ [n]\<rparr>) else None)"

fun ffi_effect :: "ffi_call \<Rightarrow> ffi_mem \<Rightarrow> ffi_mem option" where
  "ffi_effect (BoxedHub n) m =
     (if n \<in> set (boxes m) \<or> n \<in> set (freed m) then None else Some (m\<lparr>boxes := boxes m @ [n]\<rparr>))"
| "ffi_effect (RegisterAny api i cb n ret) m =
     (if n \<notin> set (boxes m) then None
      else if ret < 0 then Some m
      else Some (m\<lparr>held := held m @ [((api, ret), i, cb, n)]\<rparr>))"
| "ffi_effect (RegisterClose n ret) m =
     (if n \<notin> set (boxes m) then None
      else if ret < 0 then Some m
      else Some (m\<lparr>close_held := Some n\<rparr>))"
| "ffi_effect (DeregisterAny api cb_id) m =
     (case map_of (held m) (api, cb_id) of
        None \<Rightarrow> None
      | Some (_, _, n) \<Rightarrow> free_hub n (m\<lparr>held := filter (\<lambda>x. fst x \<noteq> (api, cb_id)) (held m)\<rparr>))"
| "ffi_effect UnregisterClose m =
     (case close_held m of None \<Rightarrow> None | Some n \<Rightarrow> free_hub n (m\<lparr>close_held := None\<rparr>))"

fun ffi_replay :: "ffi_call list \<Rightarrow> ffi_mem \<Rightarrow> ffi_mem option" where
  "ffi_replay [] m = Some m"
| "ffi_replay (c # cs) m = Option.bind (ffi_effect c m) (ffi_replay cs)"

text \<open>libvirt gives each registration of one connection an ID of its own.\<close>

definition fresh_ids :: "ffi_answers \<Rightarrow> bool" where
  "fresh_ids A \<longleftrightarrow> distinct (map (fa_register A) [0..<length domain_events])"

subsection \<open>Registrations and their boxes\<close>

definition reg_keys :: "Registration \<Rightarrow> (event_api \<times> int) list" where
  "reg_keys reg = map (Pair DomainApi) (reg_domain reg) @ map (Pair NetworkApi) (reg_network reg) @ map (Pair PoolApi) (reg_pool reg)"

definition held_boxes :: "ffi_mem \<Rightarrow> nat list" where
  "held_boxes m = map (snd \<circ> snd \<circ> snd) (held m)"

text \<open>The first \<open>n\<close> boxes belong to the registrations of \<open>reg\<close>, in their order, and \<open>rest\<close> are the others.\<close>

definition owned :: "Registration \<Rightarrow> nat \<Rightarrow> nat list \<Rightarrow> ffi_mem \<Rightarrow> bool" where
  "owned reg n rest m \<longleftrightarrow> map fst (held m) = reg_keys reg \<and> held_boxes m = [0..<n] \<and> boxes m = [0..<n] @ rest \<and> freed m = []"

lemma replay_append [simp]: "ffi_replay (cs @ cs') m = Option.bind (ffi_replay cs m) (ffi_replay cs')"
  by (induction cs arbitrary: m) (auto simp: bind_assoc split: Option.bind_splits)

lemma replay_deregister:
  assumes "distinct (map fst (held m))" and "boxes m = held_boxes m @ rest"
  shows "ffi_replay (map (\<lambda>(api, i). DeregisterAny api i) (map fst (held m))) m =
    Some (m\<lparr>held := [], boxes := rest, freed := freed m @ held_boxes m\<rparr>)"
  using assms
proof (induction "held m" arbitrary: m)
  case (Cons x hs)
  obtain api i ev cb n where x: "x = ((api, i), ev, cb, n)" by (metis surj_pair)
  let ?m = "m\<lparr>held := hs, boxes := map (snd \<circ> snd \<circ> snd) hs @ rest, freed := freed m @ [n]\<rparr>"
  have held: "held m = x # hs" using Cons.hyps(2) by simp
  have "filter (\<lambda>y. fst y \<noteq> (api, i)) hs = hs"
    using Cons.prems(1) by (auto simp: held x filter_id_conv image_iff)
  then have "ffi_effect (DeregisterAny api i) m = Some ?m"
    using Cons.prems(2) by (simp add: held x free_hub_def held_boxes_def)
  moreover have "ffi_replay (map (\<lambda>(api, i). DeregisterAny api i) (map fst (held ?m))) ?m =
      Some (?m\<lparr>held := [], boxes := rest, freed := freed ?m @ held_boxes ?m\<rparr>)"
    using Cons.prems(1) by (intro Cons.hyps(1)) (simp_all add: held held_boxes_def)
  ultimately show ?case by (simp add: held x held_boxes_def)
qed (simp add: held_boxes_def)

lemma registration_drop_keys:
  "registration_drop reg = map (\<lambda>(api, i). DeregisterAny api i) (reg_keys reg) @ (if reg_close reg then [UnregisterClose] else [])"
  by (simp add: registration_drop_def reg_keys_def)

lemma drop_frees:
  assumes "owned reg n rest m" and "distinct (reg_keys reg)"
    and "reg_close reg \<Longrightarrow> close_held m = Some n \<and> rest = [n]" and "\<not> reg_close reg \<Longrightarrow> close_held m = None"
  shows "ffi_replay (registration_drop reg) m =
    Some (m\<lparr>held := [], close_held := None, boxes := (if reg_close reg then [] else rest),
      freed := [0..<n] @ (if reg_close reg then rest else [])\<rparr>)"
proof -
  have m: "map fst (held m) = reg_keys reg" "held_boxes m = [0..<n]" "boxes m = [0..<n] @ rest" "freed m = []"
    using assms(1) by (simp_all add: owned_def)
  have "ffi_replay (map (\<lambda>(api, i). DeregisterAny api i) (reg_keys reg)) m = Some (m\<lparr>held := [], boxes := rest, freed := [0..<n]\<rparr>)"
    using replay_deregister [of m rest] assms(2) m by simp
  then show ?thesis
    using assms(3,4) by (auto simp: registration_drop_keys free_hub_def)
qed

text \<open>One registration: its box is new, and goes to libvirt if the call succeeds.\<close>

lemma register_any_step:
  assumes "owned reg n [] m"
  shows "ffi_replay [BoxedHub n, RegisterAny api i cb n ret] m =
    Some (if ret < 0 then m\<lparr>boxes := [0..<n] @ [n]\<rparr> else m\<lparr>boxes := [0..<Suc n], held := held m @ [((api, ret), i, cb, n)]\<rparr>)"
  using assms by (auto simp: owned_def)

definition reg_table :: "ffi_mem \<Rightarrow> (event_api \<times> event_id \<times> callback) list" where
  "reg_table m = map (\<lambda>((api, _), i, cb, _). (api, i, cb)) (held m)"

lemma register_domains_replay:
  assumes "owned reg n [] m" and "reg_network reg = []" "reg_pool reg = []" "\<not> reg_close reg" "close_held m = None"
    and "register_domains A n evs reg = (r, reg', calls)"
  shows "\<exists>m' k. ffi_replay calls m = Some m' \<and> k \<le> n + length evs \<and> close_held m' = None \<and>
    reg' = reg\<lparr>reg_domain := reg_domain reg @ map (fa_register A) [n..<k]\<rparr> \<and> n \<le> k \<and>
    (case r of
       Ok k' \<Rightarrow> k' = k \<and> k = n + length evs \<and> owned reg' k [] m' \<and>
         reg_table m' = reg_table m @ map (\<lambda>(i, cb). (DomainApi, i, cb)) evs
     | Err _ \<Rightarrow> owned reg' k [k] m' \<and> fa_register A k < 0)"
  using assms
proof (induction evs arbitrary: n reg m calls)
  case Nil
  then show ?case by (intro exI [of _ m] exI [of _ n]) auto
next
  case (Cons x evs)
  obtain i cb where x: "x = (i, cb)" by fastforce
  note step = register_any_step [OF Cons.prems(1), of DomainApi i cb "fa_register A n"]
  show ?case
  proof (cases "fa_register A n < 0")
    case True
    with Cons.prems step show ?thesis
      by (intro exI [of _ "m\<lparr>boxes := [0..<n] @ [n]\<rparr>"] exI [of _ n])
        (auto simp: x ffi_check_def owned_def held_boxes_def)
  next
    case False
    let ?reg = "reg\<lparr>reg_domain := reg_domain reg @ [fa_register A n]\<rparr>"
    let ?m = "m\<lparr>boxes := [0..<Suc n], held := held m @ [((DomainApi, fa_register A n), i, cb, n)]\<rparr>"
    obtain calls' where rest: "register_domains A (Suc n) evs ?reg = (r, reg', calls')" and
        calls: "calls = [BoxedHub n, RegisterAny DomainApi i cb n (fa_register A n)] @ calls'"
      using Cons.prems(6) False by (auto simp: x ffi_check_def split: prod.splits)
    have "owned ?reg (Suc n) [] ?m"
      using Cons.prems(1-3) by (auto simp: owned_def reg_keys_def held_boxes_def)
    from Cons.IH [OF this _ _ _ _ rest] Cons.prems(2-5) obtain m' k where
      IH: "ffi_replay calls' ?m = Some m'" "k \<le> Suc n + length evs" "close_held m' = None"
        "reg' = ?reg\<lparr>reg_domain := reg_domain ?reg @ map (fa_register A) [Suc n..<k]\<rparr>" "Suc n \<le> k"
        "case r of Ok k' \<Rightarrow> k' = k \<and> k = Suc n + length evs \<and> owned reg' k [] m' \<and>
            reg_table m' = reg_table ?m @ map (\<lambda>(i, cb). (DomainApi, i, cb)) evs
          | Err _ \<Rightarrow> owned reg' k [k] m' \<and> fa_register A k < 0"
      by auto
    have "ffi_replay calls m = Some m'"
      unfolding calls replay_append step using False IH(1) by simp
    moreover have "[n..<k] = n # [Suc n..<k]"
      using IH(5) by (simp add: upt_conv_Cons)
    ultimately show ?thesis
      using IH by (intro exI [of _ m'] exI [of _ k]) (auto simp: x reg_table_def split: result.splits)
  qed
qed

lemma register_one:
  assumes "owned reg n [] m" and "reg_keys reg' = reg_keys reg @ [(api, ret)]"
  shows "\<exists>m'. ffi_replay [BoxedHub n, RegisterAny api i cb n ret] m = Some m' \<and> close_held m' = close_held m \<and>
    (if ret < 0 then owned reg n [n] m' else owned reg' (Suc n) [] m' \<and> reg_table m' = reg_table m @ [(api, i, cb)])"
  unfolding register_any_step [OF assms(1)]
  using assms by (auto simp: owned_def held_boxes_def reg_table_def)

text \<open>What is left when the \<open>k\<close>th call failed and the earlier ones are undone.\<close>

definition failed_clean :: "ffi_answers \<Rightarrow> ffi_mem \<Rightarrow> bool" where
  "failed_clean A m \<longleftrightarrow> distinct (boxes m @ freed m) \<and> held m = [] \<and> close_held m = None \<and>
     (boxes m = [] \<and> (\<exists>e. fa_driver A = Err e) \<or> (\<exists>n. boxes m = [n] \<and> fa_register A n < 0))"

lemma failed_drop:
  assumes "owned reg k rest m" and "distinct (reg_keys reg)" and "\<not> reg_close reg" and "close_held m = None"
    and "rest = [k] \<and> fa_register A k < 0 \<or> rest = [] \<and> (\<exists>e. fa_driver A = Err e)"
  shows "\<exists>m'. ffi_replay (registration_drop reg) m = Some m' \<and> failed_clean A m'"
  using drop_frees [OF assms(1,2)] assms(3-5) by (auto simp: failed_clean_def)

definition registered :: "ffi_answers \<Rightarrow> Registration \<Rightarrow> ffi_mem \<Rightarrow> bool" where
  "registered A reg m \<longleftrightarrow> distinct (boxes m) \<and> freed m = [] \<and>
     reg_table m = map (\<lambda>(i, cb). (DomainApi, i, cb)) domain_events @
       [(NetworkApi, IdLifecycle, NetworkLifecycle), (PoolApi, IdLifecycle, PoolLifecycle)] \<and>
     (close_held m = None \<longleftrightarrow> fa_driver A = Ok (lit ''TEST'')) \<and>
     (\<exists>m'. ffi_replay (registration_drop reg) m = Some m' \<and> boxes m' = [] \<and> held m' = [] \<and> close_held m' = None \<and>
        freed m' = boxes m)"

text \<open>
  The last stages of \<open>register\<close>, from the end: each starts with the registrations so far and ends as the whole does.
\<close>

definition stage_ok :: "ffi_answers \<Rightarrow> ffi_mem \<Rightarrow> (unit, virt_error) result \<times> Registration \<times> ffi_call list \<Rightarrow> bool" where
  "stage_ok A m out \<longleftrightarrow>
     (case out of (r, reg, calls) \<Rightarrow> \<exists>m1. ffi_replay calls m = Some m1 \<and>
        (case r of Ok _ \<Rightarrow> registered A reg m1
         | Err _ \<Rightarrow> \<exists>m2. ffi_replay (registration_drop reg) m1 = Some m2 \<and> failed_clean A m2))"

lemma stage_append:
  assumes "ffi_replay calls m = Some m1" and "stage_ok A m1 out"
  shows "stage_ok A m (case out of (r, reg, more_calls) \<Rightarrow> (r, reg, calls @ more_calls))"
  using assms by (auto simp: stage_ok_def split: prod.splits)

lemma stage_failed:
  assumes "ffi_replay calls m = Some m1" and "owned reg k rest m1" and "distinct (reg_keys reg)" and "\<not> reg_close reg" and "close_held m1 = None"
    and "rest = [k] \<and> fa_register A k < 0 \<or> rest = [] \<and> (\<exists>e. fa_driver A = Err e)"
  shows "stage_ok A m (Err e, reg, calls)"
  using assms(1) failed_drop [OF assms(2-6)] by (simp add: stage_ok_def)

abbreviation domain_table :: "(event_api \<times> event_id \<times> callback) list" where
  "domain_table \<equiv> map (\<lambda>(i, cb). (DomainApi, i, cb)) domain_events"

lemma register_close_stage:
  assumes own: "owned reg n [] m" and keys: "distinct (reg_keys reg)" and none: "\<not> reg_close reg" "close_held m = None"
    and table: "reg_table m = domain_table @ [(NetworkApi, IdLifecycle, NetworkLifecycle), (PoolApi, IdLifecycle, PoolLifecycle)]"
  shows "stage_ok A m (register_close A n reg)"
proof (cases "fa_driver A")
  case (Err e)
  with stage_failed [of "[]" m m reg n "[]" A] own keys none show ?thesis
    by (simp add: register_close_def)
next
  case (Ok driver)
  show ?thesis
  proof (cases "driver = lit ''TEST''")
    case True
    have "ffi_replay (registration_drop reg) m = Some (m\<lparr>held := [], close_held := None, boxes := [], freed := [0..<n]\<rparr>)"
      using drop_frees [OF own keys] none by simp
    with own none table True Ok show ?thesis
      by (simp add: register_close_def stage_ok_def registered_def owned_def)
  next
    case False
    let ?calls = "[BoxedHub n, RegisterClose n (fa_register A n)]"
    show ?thesis
    proof (cases "fa_register A n < 0")
      case True
      have "owned reg n [n] (m\<lparr>boxes := [0..<n] @ [n]\<rparr>)" "ffi_replay ?calls m = Some (m\<lparr>boxes := [0..<n] @ [n]\<rparr>)"
        using own True by (auto simp: owned_def held_boxes_def)
      from stage_failed [OF this(2,1) keys none(1)] none(2) True False Ok show ?thesis
        by (simp add: register_close_def ffi_check_def Let_def)
    next
      case ok: False
      let ?reg = "reg\<lparr>reg_close := True\<rparr>" and ?m = "m\<lparr>boxes := [0..<n] @ [n], close_held := Some n\<rparr>"
      have own': "owned ?reg n [n] ?m" and replay: "ffi_replay ?calls m = Some ?m"
        using own ok by (auto simp: owned_def held_boxes_def reg_keys_def)
      have "ffi_replay (registration_drop ?reg) ?m = Some (?m\<lparr>held := [], close_held := None, boxes := [], freed := [0..<n] @ [n]\<rparr>)"
        using drop_frees [OF own'] keys by (simp add: reg_keys_def)
      with replay own' table ok False Ok show ?thesis
        by (simp add: register_close_def ffi_check_def Let_def stage_ok_def registered_def owned_def reg_table_def)
    qed
  qed
qed

lemma register_pool_stage:
  assumes own: "owned reg n [] m" and keys: "distinct (reg_keys reg)" and none: "\<not> reg_close reg" "close_held m = None" "reg_pool reg = []"
    and table: "reg_table m = domain_table @ [(NetworkApi, IdLifecycle, NetworkLifecycle)]"
  shows "stage_ok A m (register_pool A n reg)"
proof -
  let ?ret = "fa_register A n"
  let ?reg = "reg\<lparr>reg_pool := [?ret]\<rparr>"
  have keys': "reg_keys ?reg = reg_keys reg @ [(PoolApi, ?ret)]" "distinct (reg_keys ?reg)"
    using keys none(3) by (auto simp: reg_keys_def)
  from register_one [OF own keys'(1), of IdLifecycle PoolLifecycle] obtain m1 where
    m1: "ffi_replay [BoxedHub n, RegisterAny PoolApi IdLifecycle PoolLifecycle n ?ret] m = Some m1" "close_held m1 = None"
      "if ?ret < 0 then owned reg n [n] m1 else owned ?reg (Suc n) [] m1 \<and> reg_table m1 = reg_table m @ [(PoolApi, IdLifecycle, PoolLifecycle)]"
    using none(2) by auto
  show ?thesis
  proof (cases "?ret < 0")
    case True
    with stage_failed [OF m1(1) _ keys none(1) m1(2), of n "[n]" A] m1(3) show ?thesis
      by (simp add: register_pool_def ffi_check_def Let_def)
  next
    case False
    with m1(3) table have "owned ?reg (Suc n) [] m1"
        "reg_table m1 = domain_table @ [(NetworkApi, IdLifecycle, NetworkLifecycle), (PoolApi, IdLifecycle, PoolLifecycle)]" by auto
    with stage_append [OF m1(1) register_close_stage [OF _ keys'(2)]] none(1,3) m1(2) False show ?thesis
      by (simp add: register_pool_def ffi_check_def Let_def)
  qed
qed

lemma register_network_stage:
  assumes own: "owned reg n [] m" and keys: "distinct (reg_keys reg)" and none: "\<not> reg_close reg" "close_held m = None" "reg_pool reg = []" "reg_network reg = []"
    and table: "reg_table m = domain_table"
  shows "stage_ok A m (register_network A n reg)"
proof -
  let ?ret = "fa_register A n"
  let ?reg = "reg\<lparr>reg_network := [?ret]\<rparr>"
  have keys': "reg_keys ?reg = reg_keys reg @ [(NetworkApi, ?ret)]" "distinct (reg_keys ?reg)"
    using keys none(3,4) by (auto simp: reg_keys_def)
  from register_one [OF own keys'(1), of IdLifecycle NetworkLifecycle] obtain m1 where
    m1: "ffi_replay [BoxedHub n, RegisterAny NetworkApi IdLifecycle NetworkLifecycle n ?ret] m = Some m1" "close_held m1 = None"
      "if ?ret < 0 then owned reg n [n] m1 else owned ?reg (Suc n) [] m1 \<and> reg_table m1 = reg_table m @ [(NetworkApi, IdLifecycle, NetworkLifecycle)]"
    using none(2) by auto
  show ?thesis
  proof (cases "?ret < 0")
    case True
    with stage_failed [OF m1(1) _ keys none(1) m1(2), of n "[n]" A] m1(3) show ?thesis
      by (simp add: register_network_def ffi_check_def Let_def)
  next
    case False
    with m1(3) table have "owned ?reg (Suc n) [] m1" "reg_table m1 = domain_table @ [(NetworkApi, IdLifecycle, NetworkLifecycle)]" by auto
    with stage_append [OF m1(1) register_pool_stage [OF _ keys'(2)]] none m1(2) False show ?thesis
      by (simp add: register_network_def ffi_check_def Let_def)
  qed
qed

lemma register_all_stage:
  assumes "fresh_ids A"
  shows "stage_ok A mem_empty (register_all A)"
proof -
  obtain r reg calls where d: "register_domains A 0 domain_events reg_empty = (r, reg, calls)"
    by (metis surj_pair)
  have own: "owned reg_empty 0 [] mem_empty"
    by (simp add: owned_def reg_empty_def mem_empty_def reg_keys_def held_boxes_def)
  have e: "reg_network reg_empty = []" "reg_pool reg_empty = []" "\<not> reg_close reg_empty" "close_held mem_empty = None"
      "reg_domain reg_empty = []" "reg_table mem_empty = []"
    by (simp_all add: reg_empty_def mem_empty_def reg_table_def)
  from register_domains_replay [OF own e(1-4) d, unfolded e(5,6) append_Nil add_0] obtain m k where
    m: "ffi_replay calls mem_empty = Some m" "k \<le> length domain_events" "close_held m = None"
      "reg = reg_empty\<lparr>reg_domain := map (fa_register A) [0..<k]\<rparr>"
      "case r of Ok k' \<Rightarrow> k' = k \<and> k = length domain_events \<and> owned reg k [] m \<and> reg_table m = domain_table
        | Err _ \<Rightarrow> owned reg k [k] m \<and> fa_register A k < 0"
    by blast
  have "distinct (map (fa_register A) [0..<k])"
    using distinct_take [OF assms [unfolded fresh_ids_def], of k] m(2) by (simp add: take_map)
  then have keys: "distinct (reg_keys reg)"
    by (auto simp: m(4) reg_keys_def reg_empty_def distinct_map inj_on_def)
  have none: "\<not> reg_close reg" "reg_pool reg = []" "reg_network reg = []"
    by (simp_all add: m(4) reg_empty_def)
  show ?thesis
  proof (cases r)
    case (Err e)
    with stage_failed [OF m(1) _ keys none(1) m(3), of k "[k]" A] m(5) show ?thesis
      by (simp add: register_all_def d)
  next
    case (Ok n)
    with stage_append [OF m(1) register_network_stage [OF _ keys none(1) m(3) none(2,3)], of n A] m(5) show ?thesis
      by (auto simp: register_all_def d)
  qed
qed

section \<open>Properties\<close>


text \<open>
  A callback tells the hub exactly what libvirt told it. For an object whose UUID can be read, each callback sends one event, with the
  object, the kind of the change and libvirt's own codes; for any other object it sends nothing. A domain callback
  sits under the event ID whose changes it reports, and no panic leaves a callback.
\<close>

definition change_of :: "event_id \<Rightarrow> int \<Rightarrow> int \<Rightarrow> DomainChange" where
  "change_of i event detail =
     (case i of IdLifecycle \<Rightarrow> Lifecycle event detail | IdReboot \<Rightarrow> Rebooted | IdDeviceAdded \<Rightarrow> DeviceAdded
      | IdDeviceRemoved \<Rightarrow> DeviceRemoved | IdMetadataChange \<Rightarrow> Metadata)"

theorem callbacks_report_exactly:
  "(\<forall>(i, cb)\<in>set domain_events. call_back L cb obj event detail =
      (case lent_uuid L obj of None \<Rightarrow> [] | Some u \<Rightarrow> [EvDomain u (change_of i event detail)])) \<and>
   call_back L NetworkLifecycle obj event detail = (case lent_uuid L obj of None \<Rightarrow> [] | Some u \<Rightarrow> [EvNetwork u event]) \<and>
   call_back L PoolLifecycle obj event detail = (case lent_uuid L obj of None \<Rightarrow> [] | Some u \<Rightarrow> [EvPool u event]) \<and>
   on_close code = [EvClosed code] \<and> deliver None = [] \<and> snd (domain_lifecycle L obj event detail) = 0"
  by (auto simp: domain_events_def call_back_def change_of_def domain_lifecycle_def domain_reboot_def domain_device_added_def
      domain_device_removed_def domain_metadata_def network_lifecycle_def pool_lifecycle_def domain_event_def deliver_def on_close_def
      split: option.splits)

subsection \<open>Witnesses\<close>


end
