(* ===== verification/Stats_Ffi.thy ===== *)
theory Stats_Ffi
  imports Stats Events_Ffi
begin

text \<open>
  \<^verbatim>\<open>lodger-virt/src/stats/ffi.rs\<close>: the copy of the records that libvirt allocated. The list in libvirt's memory is an
  argument: a null pointer is \<open>None\<close>, and a read past the end of what libvirt wrote, which would be
  undefined behaviour, gives \<open>None\<close> as the result. The number of calls of the free function is part of the result.
\<close>

section \<open>Model\<close>

text \<open>A typed parameter: the name as C characters, the type, and the union, where each field is one way to read it.\<close>

record raw_param =
  rp_field :: "8 word list"
  rp_type :: "32 word"
  rp_i :: "32 word"
  rp_ui :: "32 word"
  rp_l :: "64 word"
  rp_ul :: "64 word"
  rp_d :: rat
  rp_b :: "8 word"
  rp_s :: "8 word list option"

text \<open>A record: the answer of \<^verbatim>\<open>virDomainGetUUID\<close> on its domain, if that is not null, and the parameters.\<close>

record raw_record =
  rr_dom :: "(int \<times> 8 word list) option"
  rr_nparams :: "32 word"
  rr_params :: "raw_param list option"

text \<open>UTF-8 decoding, strict and lossy.\<close>

record text_decoder =
  td_utf8 :: "8 word list \<Rightarrow> ustr option"
  td_lossy :: "8 word list \<Rightarrow> ustr"

definition uuid_from_bytes :: "8 word list \<Rightarrow> uuid" where
  "uuid_from_bytes bs = Uuid (foldl (\<lambda>n b. 256 * n + unat b) 0 bs)"

definition stats_domain_uuid :: "(int \<times> 8 word list) option \<Rightarrow> uuid option" where
  "stats_domain_uuid d = (case d of None \<Rightarrow> None | Some (rc, bytes) \<Rightarrow> if rc = 0 then Some (uuid_from_bytes bytes) else None)"

text \<open>The types of libvirt's \<^verbatim>\<open>virTypedParameterType\<close>.\<close>

definition copy_param :: "text_decoder \<Rightarrow> raw_param \<Rightarrow> (ustr \<times> StatValue) option" where
  "copy_param T p =
     Option.bind (from_bytes_until_nul (rp_field p)) (\<lambda>b.
     Option.bind (td_utf8 T b) (\<lambda>name.
       let kind = sint (rp_type p) in
       if kind < 0 then None
       else map_option (Pair name)
         (if kind = 1 then Some (StatInt (sint (rp_i p)))
          else if kind = 2 then Some (StatUInt (unat (rp_ui p)))
          else if kind = 3 then Some (StatInt (sint (rp_l p)))
          else if kind = 4 then Some (StatUInt (unat (rp_ul p)))
          else if kind = 5 then Some (StatDouble (rp_d p))
          else if kind = 6 then Some (StatBool (rp_b p \<noteq> 0))
          else if kind = 7 then map_option (\<lambda>s. StatText (td_lossy T s)) (rp_s p)
          else None)))"

definition copy_params :: "text_decoder \<Rightarrow> raw_record \<Rightarrow> (ustr \<times> StatValue) list option" where
  "copy_params T r =
     (let n = sint (rr_nparams r) in
      case rr_params r of
        Some ps \<Rightarrow>
          if n \<le> 0 then Some []
          else if nat n \<le> length ps then Some (List.map_filter (copy_param T) (take (nat n) ps)) else None
      | None \<Rightarrow> Some [])"

text \<open>The loop over the entries, which ends at a null entry; the list must have as many as the count says.\<close>

fun copy_records :: "text_decoder \<Rightarrow> nat \<Rightarrow> raw_record option list \<Rightarrow> (uuid \<times> (ustr \<times> StatValue) list) list option" where
  "copy_records T 0 es = Some []"
| "copy_records T (Suc n) [] = None"
| "copy_records T (Suc n) (None # es) = Some []"
| "copy_records T (Suc n) (Some r # es) =
     (case stats_domain_uuid (rr_dom r) of
        None \<Rightarrow> copy_records T n es
      | Some u \<Rightarrow>
          Option.bind (copy_params T r) (\<lambda>params. map_option ((#) (u, params)) (copy_records T n es)))"

text \<open>The result and how often the list was freed.\<close>

definition all_domain_stats ::
    "text_decoder \<Rightarrow> int \<Rightarrow> raw_record option list option \<Rightarrow> virt_error \<Rightarrow>
      ((uuid \<times> (ustr \<times> StatValue) list) list, virt_error) result option \<times> nat" where
  "all_domain_stats T count raw last_error =
     (if count < 0 then Some (Err last_error)
      else map_option Ok (copy_records T (nat count) (case raw of None \<Rightarrow> [] | Some es \<Rightarrow> es)),
      if raw = None then 0 else 1)"

section \<open>Properties\<close>

text \<open>What libvirt documents of the list: as many records as it says, each with the parameters it says, or nothing.\<close>

definition stats_list_law :: "int \<Rightarrow> raw_record option list option \<Rightarrow> bool" where
  "stats_list_law count raw \<longleftrightarrow>
     (case raw of
        None \<Rightarrow> count \<le> 0
      | Some es \<Rightarrow> count < 0 \<or> nat count \<le> length es \<and>
          list_all (\<lambda>e. case e of None \<Rightarrow> False
             | Some r \<Rightarrow> (case rr_params r of None \<Rightarrow> True | Some ps \<Rightarrow> sint (rr_nparams r) \<le> int (length ps))) (take (nat count) es))"

text \<open>The parameters of a record, as libvirt wrote them.\<close>

definition given_params :: "raw_record \<Rightarrow> raw_param list" where
  "given_params r = (case rr_params r of None \<Rightarrow> [] | Some ps \<Rightarrow> take (nat (sint (rr_nparams r))) ps)"

lemma copy_params_given:
  assumes "case rr_params r of None \<Rightarrow> True | Some ps \<Rightarrow> sint (rr_nparams r) \<le> int (length ps)"
  shows "copy_params T r = Some (List.map_filter (copy_param T) (given_params r))"
proof (cases "rr_params r")
  case None
  then show ?thesis by (simp add: copy_params_def given_params_def List.map_filter_def)
next
  case (Some ps)
  with assms show ?thesis
    by (auto simp: copy_params_def given_params_def Let_def List.map_filter_def)
qed

lemma copy_records_given:
  assumes "n \<le> length es"
    and "list_all (\<lambda>e. case e of None \<Rightarrow> False
             | Some r \<Rightarrow> (case rr_params r of None \<Rightarrow> True | Some ps \<Rightarrow> sint (rr_nparams r) \<le> int (length ps))) (take n es)"
  shows "copy_records T n es = Some (List.map_filter (\<lambda>e. Option.bind e (\<lambda>r. map_option (\<lambda>u.
      (u, List.map_filter (copy_param T) (given_params r))) (stats_domain_uuid (rr_dom r)))) (take n es))"
  using assms
proof (induction T n es rule: copy_records.induct)
  case (4 T n r es)
  then show ?case by (auto simp: copy_params_given List.map_filter_simps split: option.splits)
qed (simp_all add: List.map_filter_simps)

text \<open>
  The stats are copied exactly and the list is freed once. With a list as libvirt documents it, nothing is read past
  its end; the result has every record whose domain has a UUID, in libvirt's order, with every parameter of
  a known type; and the list is freed exactly once on every path, also when the call failed, and not at all when
  there is none.
\<close>

theorem stats_copied_and_freed:
  assumes "stats_list_law count raw"
  shows "all_domain_stats T count raw e =
    (Some (if count < 0 then Err e
      else Ok (List.map_filter (\<lambda>x. Option.bind x (\<lambda>r. map_option (\<lambda>u.
        (u, List.map_filter (copy_param T) (given_params r))) (stats_domain_uuid (rr_dom r))))
          (take (nat count) (case raw of None \<Rightarrow> [] | Some es \<Rightarrow> es)))),
     case raw of None \<Rightarrow> 0 | Some _ \<Rightarrow> 1)"
proof (cases raw)
  case None
  with assms have "count < 0 \<or> count = 0" by (auto simp: stats_list_law_def)
  with None show ?thesis by (auto simp: all_domain_stats_def List.map_filter_simps)
next
  case (Some es)
  with assms copy_records_given [of "nat count" es T] show ?thesis
    by (auto simp: all_domain_stats_def stats_list_law_def)
qed

text \<open>A number keeps its value: a 32 bit value widens with its sign, and a counter is a counter at both widths.\<close>

theorem copied_numbers_fit:
  assumes "copy_param T p = Some (name, v)"
  shows "case v of
      StatInt i \<Rightarrow> - (2 ^ 63) \<le> i \<and> i < 2 ^ 63
    | StatUInt n \<Rightarrow> n \<le> U64_MAX
    | _ \<Rightarrow> True"
proof -
  have "- (2 ^ 63) \<le> sint (rp_l p) \<and> sint (rp_l p) < 2 ^ 63" "- (2 ^ 31) \<le> sint (rp_i p) \<and> sint (rp_i p) < 2 ^ 31"
    using sint_ge [of "rp_l p"] sint_lt [of "rp_l p"] sint_ge [of "rp_i p"] sint_lt [of "rp_i p"] by simp_all
  moreover have "unat (rp_ui p) < 2 ^ 32" "unat (rp_ul p) < 2 ^ 64"
    using unsigned_less [of "rp_ui p"] unsigned_less [of "rp_ul p"] by simp_all
  ultimately show ?thesis
    using assms by (auto simp: copy_param_def bind_eq_Some_conv Let_def U64_MAX_def split: if_splits)
qed

end
