(* ===== verification/Tls_Listener.thy ===== *)
theory Tls_Listener
  imports Tls
begin

text \<open>
  \<^verbatim>\<open>lodger/src/tls.rs\<close>: the listener that hands axum only connections with a finished handshake. The accept loop, the task of each
  handshake and the server run side by side, so the model is their steps on one state. Connections have numbers, and the
  times are seconds. tokio's bounded channel passes the connections on in order, as it documents, and its timer is taken to fire when it is due.
\<close>

section \<open>Model\<close>

definition HANDSHAKE_TIMEOUT :: nat where
  "HANDSHAKE_TIMEOUT = 10"

definition QUEUE :: nat where
  "QUEUE = 64"

text \<open>
  \<open>l_alive\<close>: the server still holds the listener. \<open>l_looping\<close>: the accept loop runs. \<open>l_shaking\<close>: handshakes with the peer and their start.
  \<open>l_sending\<close>: finished handshakes whose task waits for room in the channel, and \<open>l_queue\<close> the channel.
\<close>

record 'p listener =
  l_alive :: bool
  l_looping :: bool
  l_shaking :: "(nat \<times> 'p \<times> nat) list"
  l_sending :: "(nat \<times> 'p) list"
  l_queue :: "(nat \<times> 'p) list"
  l_taken :: "(nat \<times> 'p) list"

definition listener_new :: "'p listener" where
  "listener_new = \<lparr>l_alive = True, l_looping = True, l_shaking = [], l_sending = [], l_queue = [], l_taken = []\<rparr>"

datatype 'p tls_event =
    TcpAccepted nat 'p nat
  | TcpFailed
  | HandshakeDone nat nat
  | HandshakeBroken nat
  | HandshakeTimeout nat nat
  | ChannelSend
  | ServerTakes
  | ListenerDropped

definition forget :: "nat \<Rightarrow> (nat \<times> 'q) list \<Rightarrow> (nat \<times> 'q) list" where
  "forget c = filter (\<lambda>x. fst x \<noteq> c)"

fun tls_step :: "'p tls_event \<Rightarrow> 'p listener \<Rightarrow> 'p listener option" where
  "tls_step (TcpAccepted c peer t) s =
     (if \<not> l_looping s \<or> c \<in> fst ` set (l_shaking s) then None
      else if \<not> l_alive s then Some (s\<lparr>l_looping := False\<rparr>)
      else Some (s\<lparr>l_shaking := l_shaking s @ [(c, peer, t)]\<rparr>))"
| "tls_step TcpFailed s = (if l_looping s then Some s else None)"
| "tls_step (HandshakeDone c t) s =
     (case map_of (l_shaking s) c of
        None \<Rightarrow> None
      | Some (peer, t0) \<Rightarrow>
          if t < t0 + HANDSHAKE_TIMEOUT
          then Some (s\<lparr>l_shaking := forget c (l_shaking s), l_sending := l_sending s @ [(c, peer)]\<rparr>) else None)"
| "tls_step (HandshakeBroken c) s =
     (if c \<in> fst ` set (l_shaking s) then Some (s\<lparr>l_shaking := forget c (l_shaking s)\<rparr>) else None)"
| "tls_step (HandshakeTimeout c t) s =
     (case map_of (l_shaking s) c of
        None \<Rightarrow> None
      | Some (peer, t0) \<Rightarrow>
          if t0 + HANDSHAKE_TIMEOUT \<le> t then Some (s\<lparr>l_shaking := forget c (l_shaking s)\<rparr>) else None)"
| "tls_step ChannelSend s =
     (case l_sending s of
        [] \<Rightarrow> None
      | x # xs \<Rightarrow>
          if \<not> l_alive s then Some (s\<lparr>l_sending := xs\<rparr>)
          else if length (l_queue s) < QUEUE then Some (s\<lparr>l_sending := xs, l_queue := l_queue s @ [x]\<rparr>)
          else None)"
| "tls_step ServerTakes s =
     (case l_queue s of
        [] \<Rightarrow> None
      | x # xs \<Rightarrow> if l_alive s then Some (s\<lparr>l_queue := xs, l_taken := l_taken s @ [x]\<rparr>) else None)"
| "tls_step ListenerDropped s = (if l_alive s then Some (s\<lparr>l_alive := False, l_queue := []\<rparr>) else None)"

text \<open>The histories, latest event first.\<close>

inductive tls_run :: "'p tls_event list \<Rightarrow> 'p listener \<Rightarrow> bool" where
  tls_new: "tls_run [] listener_new"
| tls_more: "tls_run evs s \<Longrightarrow> tls_step ev s = Some s' \<Longrightarrow> tls_run (ev # evs) s'"

inductive_cases tls_run_ConsE: "tls_run (ev # evs) s"

section \<open>Properties\<close>

text \<open>The handshakes that were done, in their order.\<close>

definition done_order :: "'p tls_event list \<Rightarrow> nat list" where
  "done_order evs = List.map_filter (\<lambda>ev. case ev of HandshakeDone c _ \<Rightarrow> Some c | _ \<Rightarrow> None) (rev evs)"

lemma done_order_simps [simp]:
  "done_order [] = []"
  "done_order (ev # evs) = done_order evs @ (case ev of HandshakeDone c _ \<Rightarrow> [c] | _ \<Rightarrow> [])"
  by (auto simp: done_order_def List.map_filter_def split: tls_event.splits)

text \<open>A connection that was accepted from this peer and whose handshake was done in time.\<close>

definition shaken :: "'p tls_event list \<Rightarrow> nat \<times> 'p \<Rightarrow> bool" where
  "shaken evs x \<longleftrightarrow> (\<exists>t t'. TcpAccepted (fst x) (snd x) t \<in> set evs \<and> HandshakeDone (fst x) t' \<in> set evs \<and> t' < t + HANDSHAKE_TIMEOUT)"

lemma shaken_mono: "shaken evs x \<Longrightarrow> shaken (ev # evs) x"
  by (auto simp: shaken_def)

lemma shaking_accepted:
  "tls_run evs s \<Longrightarrow> (c, peer, t) \<in> set (l_shaking s) \<Longrightarrow> TcpAccepted c peer t \<in> set evs"
proof (induction arbitrary: c peer t rule: tls_run.induct)
  case (tls_more evs s ev s')
  then show ?case
    by (cases ev) (auto simp: forget_def split: if_splits option.splits list.splits)
qed (simp add: listener_new_def)

lemma all_shaken:
  "tls_run evs s \<Longrightarrow> x \<in> set (l_taken s @ l_queue s @ l_sending s) \<Longrightarrow> shaken evs x"
proof (induction arbitrary: x rule: tls_run.induct)
  case (tls_more evs s ev s')
  show ?case
  proof (cases "x \<in> set (l_taken s @ l_queue s @ l_sending s)")
    case True
    then show ?thesis using tls_more.IH shaken_mono by blast
  next
    case False
    with tls_more(2,4) obtain c t peer t0 where "x = (c, peer)" "ev = HandshakeDone c t" "(c, peer, t0) \<in> set (l_shaking s)"
        "t < t0 + HANDSHAKE_TIMEOUT"
      by (cases ev) (auto split: if_splits option.splits list.splits dest!: map_of_SomeD)
    with shaking_accepted [OF tls_more(1)] show ?thesis
      by (auto simp: shaken_def)
  qed
qed (simp add: listener_new_def)

lemma queue_bounded: "tls_run evs s \<Longrightarrow> length (l_queue s) \<le> QUEUE"
proof (induction rule: tls_run.induct)
  case (tls_more evs s ev s')
  then show ?case by (cases ev) (auto split: if_splits option.splits list.splits)
qed (simp add: listener_new_def)

lemma taken_in_order:
  "tls_run evs s \<Longrightarrow> l_alive s \<Longrightarrow> map fst (l_taken s @ l_queue s @ l_sending s) = done_order evs"
proof (induction rule: tls_run.induct)
  case (tls_more evs s ev s')
  then show ?case by (cases ev) (auto split: if_splits option.splits list.splits)
qed (simp add: listener_new_def)

lemma loop_while_alive: "tls_run evs s \<Longrightarrow> l_alive s \<Longrightarrow> l_looping s"
proof (induction rule: tls_run.induct)
  case (tls_more evs s ev s')
  then show ?case by (cases ev) (auto split: if_splits option.splits list.splits)
qed (simp add: listener_new_def)


lemma tls_run_exec: "foldr (\<lambda>ev s. Option.bind s (tls_step ev)) evs (Some listener_new) = Some s \<Longrightarrow> tls_run evs s"
  by (induction evs arbitrary: s) (auto simp: bind_eq_Some_conv intro: tls_run.intros)


end
