(* ===== verification/Spec2Isabelle.thy ===== *)
theory Spec2Isabelle
  imports Access Main_Cli Db_Open Permits Stats_Ffi Tls_Listener
begin

text \<open>
  \<^bold>\<open>Lodger: the verification development.\<close>

  Lodger is a web service that manages the virtual machines, storage and networks of one host through libvirt. The
  repository has three Rust crates: \<^verbatim>\<open>lodger-core\<close> (input checks, XML, types), \<^verbatim>\<open>lodger-virt\<close> (the libvirt side) and
  \<^verbatim>\<open>lodger\<close> (database, HTTP server, commands). This development models the three crates in the order in which
  they build on each other; each theory opens with the source files it models, and its definitions keep the
  names of the source.

  \<^bold>\<open>The program and the theories\<close>

  \<^item> \<open>Lodger_Prelude\<close>: strings as lists of code points, \<^verbatim>\<open>Result\<close>, hash maps, decimal numbers; the locale \<open>hash_map\<close> and the
    locale \<open>kept_invariant\<close> for an invariant along every sequence of operations.
  \<^item> Input (\<^verbatim>\<open>lodger-core\<close>): \<open>Ip_Net\<close> (IPv4 and networks), \<open>Validate\<close> (\<^verbatim>\<open>validate.rs\<close>, with the locale \<open>input_check\<close>
    for what every check promises), \<open>Xml_Core\<close>, \<open>Xml_Pool\<close>, \<open>Xml_Network\<close>, \<open>Xml_Volume\<close> (\<^verbatim>\<open>xml/\<close>), \<open>Password_Policy\<close>
    (\<^verbatim>\<open>password/\<close>).
  \<^item> Stored and shared state (\<^verbatim>\<open>lodger\<close>): \<open>Database\<close> (\<^verbatim>\<open>db/mod.rs\<close>: tables, statements that may fail, transactions,
    migrations, with the locale \<open>table_invariant\<close>), \<open>Db_Open\<close> (its files and their modes), \<open>Passwords\<close>, \<open>Permits\<close> (the semaphores, with the locale \<open>permit_pool\<close>),
    \<open>Throttle\<close>, \<open>Tickets\<close>, \<open>Audit_Log\<close>.
  \<^item> libvirt (\<^verbatim>\<open>lodger-virt\<close>): \<open>Virt_World\<close> (an arbitrary libvirt that answers every call, with the trace of the calls), \<open>Virt_Open\<close> (the two connections), \<open>Events_Ffi\<close>
    and \<open>Stats_Ffi\<close> (\<^verbatim>\<open>events/ffi.rs\<close>, \<^verbatim>\<open>stats/ffi.rs\<close>: the unsafe code, as calls on memory with owners), \<open>Virt_Steady\<close>
    (reads against a steady libvirt), \<open>Virt_Power\<close>, \<open>Virt_Delete\<close>, \<open>Virt_Scan\<close>, \<open>Virt_Pool\<close>, \<open>Virt_Network\<close>, \<open>Virt_Volume\<close>,
    \<open>Inventory\<close> (\<^verbatim>\<open>cache.rs\<close>), \<open>Supervisor\<close> (\<^verbatim>\<open>supervisor.rs\<close>), \<open>F64\<close> and \<open>Stats\<close> (the live numbers).
  \<^item> Requests: \<open>Service\<close> (\<^verbatim>\<open>AppState\<close>, requests, responses), \<open>Client_Ip\<close>, \<open>Security\<close> (with the locale
    \<open>gate\<close> for what a middleware promises), \<open>Auth\<close>, \<open>Setup\<close>, \<open>Accounts\<close>, \<open>Rest_Api\<close>,
    \<open>Actions\<close>, \<open>Pools_Api\<close>, \<open>Networks_Api\<close>, \<open>Volumes_Api\<close>, \<open>Sockets\<close> (\<^verbatim>\<open>ws.rs\<close>, \<^verbatim>\<open>console.rs\<close>), \<open>Assets\<close>, and
    \<open>Router\<close>, which puts every handler behind its route, the guard and the two layers (\<^verbatim>\<open>server.rs\<close>).
  \<^item> The process: \<open>Config\<close>, \<open>Tls\<close>, \<open>Tls_Listener\<close> (the accept loop and the handshakes), \<open>Startup\<close> (\<^verbatim>\<open>serve\<close>), \<open>Admin\<close> (\<^verbatim>\<open>admin.rs\<close>), \<open>Host_Files\<close> with
    \<open>Install\<close> (\<^verbatim>\<open>install.rs\<close>), \<open>Doctor\<close> (\<^verbatim>\<open>doctor.rs\<close>), and \<open>Main_Cli\<close>, which runs each command (\<^verbatim>\<open>cli.rs\<close>, \<^verbatim>\<open>main.rs\<close>).
  \<^item> \<open>Access\<close> connects login, sessions, guard and \<^verbatim>\<open>lodger admin\<close>; the properties that follow from it are below.

  \<^bold>\<open>How state and time are modelled\<close>

  Pure code is a function; a \<^verbatim>\<open>Result\<close> is a sum with every error of the source as a value, and a panic is a value of its own
  (\<open>None\<close>, or \<open>Panicked\<close> in \<open>Router\<close>). A handler passes the state along. Handlers interleave: between two accesses of one request
  to the shared state any other request may run. So every access has a label, and the environment \<open>env\<close> says for each
  label what the others did to the state, what the clock and the random generator gave, and whether the database or a
  task failed. A theorem quantifies over every environment; \<open>alone\<close> restricts to the runs in which nobody
  interferes, where a theorem speaks about the tables before and after.

  libvirt is a function from calls to answers on a state of its own, so a theorem holds whatever libvirt answers. The trace of the calls that
  a computation made is part of its state, and the properties on destructive calls are about that trace. The cache is compared with the host
  under the assumption that one object is read at one moment; the host may change between two objects and between two events.

  Tasks that run side by side on one structure, as on a semaphore or in the TLS listener, are a step relation over events in any order, and the
  properties are invariants of every history. A future that its caller drops is such an event.

  The start is a list of events, an install a sequence of changes to a disk where every operation may fail, and a socket or a poll task
  a function of the list of what it meets, in any order. Machine integers keep their width: addresses and versions are words, counters
  saturate at \<open>2\<^sup>6\<^sup>4 - 1\<close>, and the rates of \<open>Stats\<close> are computed with the rounding of IEEE doubles, so that
  the bounds hold for what is printed.

  \<^bold>\<open>What the lemmas show\<close>

  \<^item> The database keeps its schema (unique names, ids and tokens, foreign keys), never loses its last account, gives
    the first account away once, and a session ends after an hour idle and a day in all, over every sequence of calls and failures.
  \<^item> Every protected route needs a live session and, to change something, its token; without them no libvirt call is made. A
    foreign page changes nothing. Login, setup, password change, tickets and the commands of root each need
    what they say, and end the sessions they should end. The throttle keeps its order and its memory bound.
  \<^item> A destructive call to libvirt is made only for a confirmed request, in the right state, for an object that
    nothing else uses; a failed create is rolled back; each attempt is in the audit log.
  \<^item> Checks are exact where they can be (overlap, names, folders), XML survives the way to libvirt and back, and the inventory follows
    the host along every run of the supervisor.
  \<^item> A login with the right password opens the routes for an hour, and a password reset by root closes them for every earlier cookie.
  \<^item> The unsafe code frees each box and each list of libvirt once, on every path, and each callback reports what libvirt said. The
    semaphores keep their limits as long as no future is dropped, and do not otherwise.
  \<^item> A start never serves less safely than configured, an install never destroys what the operator made, and the wait for the service ends.

  \<^bold>\<open>Fuel and bounds\<close>

  Only \<open>wait_listening\<close> and the session watcher of \<open>Auth\<close> have fuel; both come with the theorem that enough
  fuel gives the answer (one round more than fit into the timeout, and the first check that finds the session gone). All other loops are structural or
  have a termination proof (\<open>script_bodies\<close>, \<open>create_dirs\<close>, \<open>make_private_dirs\<close>, \<open>dec\<close>).

  \<^bold>\<open>Parameters\<close>

  The crates \<^verbatim>\<open>ipnet\<close>, \<^verbatim>\<open>xmltree\<close>, \<^verbatim>\<open>http\<close>, \<^verbatim>\<open>axum\<close>, \<^verbatim>\<open>serde\<close>, \<^verbatim>\<open>toml\<close>, \<^verbatim>\<open>rustls\<close>, \<^verbatim>\<open>rcgen\<close>, \<^verbatim>\<open>argon2\<close> and \<^verbatim>\<open>sha2\<close> are arguments. Where a
  property relies on one of them, its documented laws are a named predicate (such as \<open>matching_laws\<close>), and a concrete instance
  shows that they can hold.

  \<^bold>\<open>Not modelled\<close>

  The parsing of arguments by \<^verbatim>\<open>clap\<close> from the types in \<^verbatim>\<open>cli.rs\<close>; the \<^verbatim>\<open>Debug\<close> output of the types; the text of the lines on stderr, which are events where they matter; the
  snapshot type, which nothing uses yet; and the web UI in TypeScript. The libraries below the sources (SQLite, libvirt, tokio, axum and the
  crates above) appear only through their documented behaviour.
\<close>

section \<open>Properties that span the components\<close>


text \<open>
  C3: \<^verbatim>\<open>lodger admin reset-password\<close> locks out whoever was logged in. After a reset that succeeds, a request with a cookie
  that belonged to a session of this account is not admitted by the router: it makes no libvirt call, and nothing of the protected handlers runs
  for it. This holds for every path and method, also with the right token in its header, and while other requests run, as
  long as none of them draws the same token again.
\<close>

theorem reset_locks_out:
  assumes "alone E" and "db_wf (app_db a)" and "admin_run C E W (ResetPassword name) a = (Ok (PasswordSet (acc_username acc) n), a')"
    and "acc \<in> set (accounts (app_db a))" and "row \<in> set (sessions (app_db a))" and "row_account_id row = acc_id acc"
    and "session_key C (rq_headers rq) = Some (row_token_sha256 row)"
    and "others_keep E' (\<lambda>b. row_token_sha256 row \<notin> row_token_sha256 ` set (sessions (app_db b)))"
  shows "\<not> admitted C E' rq a' \<and> snd (snd (router F C E' H rq (a', k))) = k \<and>
    (\<forall>guarded. router F C E' H rq (a', k) = router_with F C E' H guarded rq (a', k))"
proof -
  obtain e hash d where reset: "reset_password e (acc_username acc) hash (app_db a) = (Ok (Some n), d)" "sessions (app_db a') = sessions d"
    using admin_reset_done [OF assms(1,3)] by blast
  have "row_token_sha256 row \<notin> row_token_sha256 ` set (sessions (app_db a'))"
    using reset_tokens_gone [OF assms(2) reset(1) assms(4-6)] reset(2) by simp
  then have "row_token_sha256 row \<notin> row_token_sha256 ` set (sessions (app_db (others E' ''session lookup'' a')))"
    using assms(8) by (simp add: others_keep_def)
  then have "\<not> admitted C E' rq a'"
    by (rule not_admitted_without_row [OF assms(7)])
  then show ?thesis using router_not_admitted by blast
qed

subsection \<open>Witnesses\<close>


theorem reset_locks_out_witness:
  "\<forall>k. snd (snd (router example_framework example_conf (quiet_env 6) empty_host (example_get ''/api/vms'')
     (snd (admin_run example_conf (quiet_env 5) root_world (ResetPassword (lit ''ADMIN'')) example_app), k))) = k"
proof -
  let ?r = "admin_run example_conf (quiet_env 5) root_world (ResetPassword (lit ''ADMIN'')) example_app"
  define acc where "acc = hd (accounts example_db)"
  define row where "row = hd (sessions example_db)"
  have "acc_username acc = lit ''admin''"
    unfolding acc_def by code_simp
  then have "fst ?r = Ok (PasswordSet (acc_username acc) 1)"
    by (simp add: example_reset)
  then have run: "?r = (Ok (PasswordSet (acc_username acc) 1), snd ?r)"
    by (simp add: prod_eq_iff)
  have rows: "acc \<in> set (accounts (app_db example_app))" "row \<in> set (sessions (app_db example_app))" "row_account_id row = acc_id acc"
      "session_key example_conf (rq_headers (example_get ''/api/vms'')) = Some (row_token_sha256 row)"
    unfolding acc_def row_def by code_simp+
  have wf: "db_wf (app_db example_app)"
    using example_db_wf by (simp add: example_app_def)
  have keep: "others_keep (quiet_env 6) I" for I
    by (simp add: others_keep_def quiet_env_def)
  from reset_locks_out [OF quiet_alone wf run rows keep] show ?thesis by blast
qed

end
